(* ===== verification/Prelude.thy ===== *)
theory Prelude
  imports Main "HOL-Library.Word" "HOL-Library.Sublist"
begin

text \<open>
  Types and small functions every component uses: the names of the model's types, the
  Rust standard library's result combinators, saturating and checked machine arithmetic
  and the truncation of a time difference to seconds. Nothing here models a file of the
  repository by itself: it is the part of the language and its standard library the
  sources call. The collections \<open>result_simps\<close> and \<open>step_defs\<close> gather the
  rewrite rules the component theories hand to the simplifier.
\<close>

named_theorems result_simps \<open>rewrite rules for results and options\<close>
named_theorems step_defs \<open>definitions of the operations a step of the server runs\<close>

section \<open>Types\<close>

text \<open>
  \<open>Uuid\<close> is a 128-bit value, \<open>OffsetDateTime\<close> an instant in nanoseconds since the
  Unix epoch (the code only compares instants, subtracts them and adds a duration),
  \<open>Vec<u8>\<close> a list of 8-bit words. A Rust \<open>String\<close> is its UTF-8 bytes, which is
  what \<open>len\<close> counts: one HOL \<open>char\<close> is one byte.
\<close>

type_synonym uuid = "128 word"
type_synonym instant = int
type_synonym u8 = "8 word"
type_synonym u32 = "32 word"
type_synonym u64 = "64 word"
type_synonym bytes = "8 word list"

definition uuid_nil :: uuid where
  "uuid_nil = 0"

text \<open>A text file or a text buffer as raw bytes (\<open>as_bytes\<close>), and back.\<close>

definition char_byte :: "char \<Rightarrow> u8" where
  "char_byte c = word_of_int (int (of_char c))"

definition byte_char :: "u8 \<Rightarrow> char" where
  "byte_char b = char_of (unat b)"

definition as_bytes :: "string \<Rightarrow> bytes" where
  "as_bytes s = map char_byte s"

definition bytes_str :: "bytes \<Rightarrow> string" where
  "bytes_str bs = map byte_char bs"

lemma byte_char_byte [simp]: "byte_char (char_byte c) = c"
proof -
  have "unat (word_of_nat (of_char c) :: u8) = of_char c"
    by (simp add: unat_of_nat)
  then show ?thesis by (simp add: byte_char_def char_byte_def)
qed

lemma char_byte_char [simp]: "char_byte (byte_char b) = b"
proof -
  have "unat b < 2 ^ LENGTH(8)" by (rule unsigned_less)
  then have "(of_char (char_of (unat b) :: char) :: nat) = unat b" by simp
  then show ?thesis unfolding byte_char_def char_byte_def by simp
qed

lemma bytes_str_as_bytes [simp]: "bytes_str (as_bytes s) = s"
  by (simp add: bytes_str_def as_bytes_def comp_def)

lemma as_bytes_bytes_str [simp]: "as_bytes (bytes_str bs) = bs"
  by (simp add: bytes_str_def as_bytes_def comp_def)

lemma length_as_bytes [simp]: "length (as_bytes s) = length s"
  by (simp add: as_bytes_def)

section \<open>Results\<close>

text \<open>
  \<open>Result<T, E>\<close> is \<open>'e + 'a\<close>, the error on the left. \<open>and_then\<close> is the \<open>?\<close>
  operator, \<open>ok_or\<close> turns an option into a result, \<open>map_err\<close> converts the error.
\<close>

definition and_then :: "'e + 'a \<Rightarrow> ('a \<Rightarrow> 'e + 'b) \<Rightarrow> 'e + 'b" where
  "and_then r f = (case r of Inl e \<Rightarrow> Inl e | Inr a \<Rightarrow> f a)"

definition ok_or :: "'a option \<Rightarrow> 'e \<Rightarrow> 'e + 'a" where
  "ok_or x e = (case x of None \<Rightarrow> Inl e | Some a \<Rightarrow> Inr a)"

definition map_err :: "('e \<Rightarrow> 'f) \<Rightarrow> 'e + 'a \<Rightarrow> 'f + 'a" where
  "map_err g r = (case r of Inl e \<Rightarrow> Inl (g e) | Inr a \<Rightarrow> Inr a)"

definition is_ok :: "'e + 'a \<Rightarrow> bool" where
  "is_ok r = (case r of Inl _ \<Rightarrow> False | Inr _ \<Rightarrow> True)"

lemma and_then_simps [simp]:
  "and_then (Inl e) f = Inl e"
  "and_then (Inr a) f = f a"
  by (simp_all add: and_then_def)

lemma ok_or_simps [simp]:
  "ok_or None e = Inl e"
  "ok_or (Some a) e = Inr a"
  by (simp_all add: ok_or_def)

lemma map_err_simps [simp]:
  "map_err g (Inl e) = Inl (g e)"
  "map_err g (Inr a) = Inr a"
  by (simp_all add: map_err_def)

lemma is_ok_simps [simp]:
  "\<not> is_ok (Inl e)"
  "is_ok (Inr a)"
  by (simp_all add: is_ok_def)

lemma and_then_Inr [result_simps]:
  "and_then r f = Inr b \<longleftrightarrow> (\<exists>a. r = Inr a \<and> f a = Inr b)"
  by (cases r) auto

lemma and_then_Inl [result_simps]:
  "and_then r f = Inl e \<longleftrightarrow> r = Inl e \<or> (\<exists>a. r = Inr a \<and> f a = Inl e)"
  by (cases r) auto

lemma ok_or_Inr [result_simps]: "ok_or x e = Inr a \<longleftrightarrow> x = Some a"
  by (cases x) auto

lemma ok_or_Inl [result_simps]: "ok_or x e = Inl e' \<longleftrightarrow> x = None \<and> e' = e"
  by (cases x) auto

lemma map_err_Inr [result_simps]: "map_err g r = Inr a \<longleftrightarrow> r = Inr a"
  by (cases r) auto

lemma map_err_Inl [result_simps]: "map_err g r = Inl e \<longleftrightarrow> (\<exists>e'. r = Inl e' \<and> e = g e')"
  by (cases r) auto

lemma is_ok_iff [result_simps]: "is_ok r \<longleftrightarrow> (\<exists>a. r = Inr a)"
  by (cases r) auto

section \<open>Machine arithmetic\<close>

definition saturating_add :: "'l::len word \<Rightarrow> 'l word \<Rightarrow> 'l word" where
  "saturating_add a b = (if unat a + unat b < 2 ^ LENGTH('l) then a + b else - 1)"

definition checked_add :: "'l::len word \<Rightarrow> 'l word \<Rightarrow> 'l word option" where
  "checked_add a b = (if unat a + unat b < 2 ^ LENGTH('l) then Some (a + b) else None)"

lemma unat_saturating_add:
  "unat (saturating_add a b) = min (unat a + unat b) (2 ^ LENGTH('l) - 1)"
  for a b :: "'l::len word"
proof (cases "unat a + unat b < 2 ^ LENGTH('l)")
  case True
  then show ?thesis by (simp add: saturating_add_def unat_word_ariths)
next
  case False
  then show ?thesis by (simp add: saturating_add_def unsigned_minus_1_eq_mask mask_eq_exp_minus_1)
qed

lemma checked_add_Some:
  "checked_add a b = Some c \<longleftrightarrow> unat c = unat a + unat b"
  for a b c :: "'l::len word"
proof
  assume "checked_add a b = Some c"
  then show "unat c = unat a + unat b"
    by (auto simp: checked_add_def unat_word_ariths split: if_splits)
next
  assume c: "unat c = unat a + unat b"
  have "unat c < 2 ^ LENGTH('l)" by (rule unsigned_less)
  with c have lt: "unat a + unat b < 2 ^ LENGTH('l)" by simp
  then have "unat (a + b) = unat c" using c by (simp add: unat_word_ariths)
  then have "a + b = c" by (simp add: word_unat_eq_iff)
  with lt show "checked_add a b = Some c" by (simp add: checked_add_def)
qed

section \<open>Durations\<close>

text \<open>\<open>Duration::whole_seconds\<close> drops the sub-second part: it rounds towards zero.\<close>

definition nanos_per_sec :: int where
  "nanos_per_sec = 1000000000"

definition whole_seconds :: "int \<Rightarrow> int" where
  "whole_seconds d = (if d < 0 then - ((- d) div nanos_per_sec) else d div nanos_per_sec)"

lemma int_div_less_iff: "d div n < w \<longleftrightarrow> d < w * n" if "0 < n" for d n w :: int
proof
  assume "d div n < w"
  then have "(d div n + 1) * n \<le> w * n" using that by (intro mult_right_mono) auto
  moreover have "d < (d div n + 1) * n"
    using pos_mod_bound[OF that, of d] div_mult_mod_eq[of d n] by (simp only: distrib_right mult_1)
  ultimately show "d < w * n" by simp
next
  assume lt: "d < w * n"
  show "d div n < w"
  proof (rule ccontr)
    assume "\<not> d div n < w"
    then have "w * n \<le> d div n * n" using that by (intro mult_right_mono) auto
    also have "\<dots> \<le> d" using pos_mod_sign[OF that, of d] div_mult_mod_eq[of d n] by linarith
    finally show False using lt by simp
  qed
qed

lemma nanos_pos [simp]: "0 < nanos_per_sec"
  by (simp add: nanos_per_sec_def)

lemma whole_seconds_nonneg: "0 \<le> d \<Longrightarrow> 0 \<le> whole_seconds d"
  by (simp add: whole_seconds_def pos_imp_zdiv_nonneg_iff)

lemma whole_seconds_nonpos: "d < 0 \<Longrightarrow> whole_seconds d \<le> 0"
  by (simp add: whole_seconds_def pos_imp_zdiv_nonneg_iff)

lemma whole_seconds_mono: "d \<le> e \<Longrightarrow> whole_seconds d \<le> whole_seconds e"
proof (cases "d < 0 \<longleftrightarrow> e < 0")
  case True
  assume "d \<le> e"
  then show ?thesis using True by (auto simp: whole_seconds_def intro: zdiv_mono1)
next
  case False
  assume "d \<le> e"
  with False have "d < 0" "0 \<le> e" by auto
  then show ?thesis using whole_seconds_nonpos[of d] whole_seconds_nonneg[of e] by simp
qed

lemma whole_seconds_le_iff:
  assumes "0 \<le> w"
  shows "whole_seconds d \<le> w \<longleftrightarrow> d < (w + 1) * nanos_per_sec"
proof (cases "d < 0")
  case True
  have "0 < (w + 1) * nanos_per_sec" using assms by simp
  then show ?thesis using True whole_seconds_nonpos[of d] assms by linarith
next
  case False
  then have "whole_seconds d = d div nanos_per_sec" by (simp add: whole_seconds_def)
  then show ?thesis using int_div_less_iff[of nanos_per_sec d "w + 1"] by auto
qed

lemma whole_seconds_seconds [simp]: "whole_seconds (s * nanos_per_sec) = s"
proof (cases "s * nanos_per_sec < 0")
  case True
  have "(- (s * nanos_per_sec)) div nanos_per_sec = - s"
    using nonzero_mult_div_cancel_right[of nanos_per_sec "- s"] nanos_pos by simp
  then show ?thesis using True by (simp add: whole_seconds_def)
next
  case False
  have "s * nanos_per_sec div nanos_per_sec = s"
    using nanos_pos nonzero_mult_div_cancel_right[of nanos_per_sec s] by linarith
  then show ?thesis using False by (simp add: whole_seconds_def)
qed

section \<open>Vectors\<close>

text \<open>\<open>Iterator::position\<close> and \<open>Vec::remove\<close> (here only called inside the bounds).\<close>

fun position :: "('a \<Rightarrow> bool) \<Rightarrow> 'a list \<Rightarrow> nat option" where
  "position P [] = None"
| "position P (x # xs) = (if P x then Some 0 else map_option Suc (position P xs))"

definition vec_remove :: "nat \<Rightarrow> 'a list \<Rightarrow> 'a list \<times> 'a" where
  "vec_remove n xs = (take n xs @ drop (Suc n) xs, xs ! n)"

lemma position_None: "position P xs = None \<longleftrightarrow> (\<forall>x \<in> set xs. \<not> P x)"
  by (induction xs) auto

lemma position_find: "find P xs = map_option (\<lambda>n. xs ! n) (position P xs)"
  by (induction xs) (auto simp: option.map_comp comp_def)

lemma position_Some:
  "position P xs = Some n \<Longrightarrow> n < length xs \<and> P (xs ! n) \<and> (\<forall>m < n. \<not> P (xs ! m))"
  by (induction xs arbitrary: n) (auto simp: less_Suc_eq_0_disj split: if_splits)

lemma position_remove_distinct:
  assumes "distinct (map f xs)" and "position (\<lambda>x. f x = k) xs = Some n"
  shows "fst (vec_remove n xs) = filter (\<lambda>x. f x \<noteq> k) xs"
  using assms
proof (induction xs arbitrary: n)
  case (Cons x xs)
  show ?case
  proof (cases "f x = k")
    case True
    with Cons.prems have "filter (\<lambda>x. f x \<noteq> k) xs = xs"
      by (metis (mono_tags, lifting) distinct.simps(2) filter_id_conv imageI list.simps(9) set_map)
    with True Cons.prems show ?thesis by (simp add: vec_remove_def)
  next
    case False
    with Cons.prems obtain m where "n = Suc m" "position (\<lambda>x. f x = k) xs = Some m" by auto
    with False Cons show ?thesis by (simp add: vec_remove_def)
  qed
qed simp

end
