(* ===== verification/Rust_Str.thy ===== *)
theory Rust_Str
  imports Prelude
begin

text \<open>
  What the sources use of Rust's \<open>str\<close>: trimming, prefixes and suffixes, splitting, ASCII
  case, slicing on character boundaries, decimal and hexadecimal numbers. A string is its
  list of UTF-8 bytes, so \<open>length\<close> is \<open>str::len\<close> and white space beyond ASCII is
  recognised by its encoding. The round trips at the end (decimal, hexadecimal) carry the
  CRL number through its file and a serial number from issuance to the revocation list.
\<close>

datatype 'a may_panic = Panic | Done 'a

abbreviation code :: "char \<Rightarrow> nat" where
  "code \<equiv> of_char"

section \<open>White space\<close>

text \<open>The characters with Unicode's \<open>White_Space\<close> property, by the number of their bytes.\<close>

definition ws1 :: "nat \<Rightarrow> bool" where
  "ws1 a = (9 \<le> a \<and> a \<le> 13 \<or> a = 32)"

definition ws2 :: "nat \<Rightarrow> nat \<Rightarrow> bool" where
  "ws2 a b = (a = 0xC2 \<and> (b = 0x85 \<or> b = 0xA0))"

definition ws3 :: "nat \<Rightarrow> nat \<Rightarrow> nat \<Rightarrow> bool" where
  "ws3 a b c =
     (a = 0xE1 \<and> b = 0x9A \<and> c = 0x80 \<or>
      a = 0xE2 \<and> b = 0x80 \<and> (0x80 \<le> c \<and> c \<le> 0x8A \<or> c = 0xA8 \<or> c = 0xA9 \<or> c = 0xAF) \<or>
      a = 0xE2 \<and> b = 0x81 \<and> c = 0x9F \<or>
      a = 0xE3 \<and> b = 0x80 \<and> c = 0x80)"

text \<open>The bytes of a leading white space character (0 for none), and of a trailing one when
  the string is read backwards.\<close>

fun ws_front :: "string \<Rightarrow> nat" where
  "ws_front (a # b # c # s) =
     (if ws1 (code a) then 1 else if ws2 (code a) (code b) then 2
      else if ws3 (code a) (code b) (code c) then 3 else 0)"
| "ws_front [a, b] = (if ws1 (code a) then 1 else if ws2 (code a) (code b) then 2 else 0)"
| "ws_front [a] = (if ws1 (code a) then 1 else 0)"
| "ws_front [] = 0"

fun ws_back :: "string \<Rightarrow> nat" where
  "ws_back (c # b # a # s) =
     (if ws1 (code c) then 1 else if ws2 (code b) (code c) then 2
      else if ws3 (code a) (code b) (code c) then 3 else 0)"
| "ws_back [c, b] = (if ws1 (code c) then 1 else if ws2 (code b) (code c) then 2 else 0)"
| "ws_back [c] = (if ws1 (code c) then 1 else 0)"
| "ws_back [] = 0"

function strip_ws :: "(string \<Rightarrow> nat) \<Rightarrow> string \<Rightarrow> string" where
  "strip_ws f s = (if s = [] \<or> f s = 0 then s else strip_ws f (drop (f s) s))"
  by pat_completeness auto
termination
  by (relation "measure (\<lambda>(f, s). length s)") auto

declare strip_ws.simps [simp del]

definition trim :: "string \<Rightarrow> string" where
  "trim s = rev (strip_ws ws_back (rev (strip_ws ws_front s)))"

lemma strip_ws_stop: "f s = 0 \<Longrightarrow> strip_ws f s = s"
  by (subst strip_ws.simps) simp

lemma strip_ws_Nil [simp]: "strip_ws f [] = []"
  by (subst strip_ws.simps) simp

lemma strip_ws_fix: "strip_ws f s = [] \<or> f (strip_ws f s) = 0"
proof (induction f s rule: strip_ws.induct)
  case (1 f s)
  then show ?case by (cases "s = [] \<or> f s = 0") (auto simp: strip_ws.simps[of f s])
qed

lemma trim_Nil [simp]: "trim [] = []"
  by (simp add: trim_def)

lemma trim_id: "ws_front s = 0 \<Longrightarrow> ws_back (rev s) = 0 \<Longrightarrow> trim s = s"
  by (simp add: trim_def strip_ws_stop)

section \<open>ASCII\<close>

definition ascii_char :: "char \<Rightarrow> bool" where
  "ascii_char c = (code c < 128)"

definition to_ascii_lowercase :: "string \<Rightarrow> string" where
  "to_ascii_lowercase s =
     map (\<lambda>c. if 65 \<le> code c \<and> code c \<le> 90 then char_of (code c + 32) else c) s"

definition eq_ignore_ascii_case :: "string \<Rightarrow> string \<Rightarrow> bool" where
  "eq_ignore_ascii_case a b = (to_ascii_lowercase a = to_ascii_lowercase b)"

lemma length_to_ascii_lowercase [simp]: "length (to_ascii_lowercase s) = length s"
  by (simp add: to_ascii_lowercase_def)

lemma to_ascii_lowercase_idem [simp]:
  "to_ascii_lowercase (to_ascii_lowercase s) = to_ascii_lowercase s"
  by (auto simp: to_ascii_lowercase_def)

text \<open>Printable ASCII other than the blank is no part of any white space character.\<close>

definition plain_char :: "char \<Rightarrow> bool" where
  "plain_char c = (33 \<le> code c \<and> code c < 128)"

lemma ws_plain:
  assumes "plain_char a"
  shows "\<not> ws1 (code a)" and "\<not> ws2 (code a) b" and "\<not> ws3 (code a) b c"
    and "\<not> ws2 b (code a)" and "\<not> ws3 b c (code a)"
  using assms by (auto simp: plain_char_def ws1_def ws2_def ws3_def)

lemma ws_front_plain: "plain_char a \<Longrightarrow> ws_front (a # s) = 0"
  by (cases "a # s" rule: ws_front.cases) (auto simp: ws_plain)

lemma ws_back_plain: "plain_char a \<Longrightarrow> ws_back (a # s) = 0"
  by (cases "a # s" rule: ws_back.cases) (auto simp: ws_plain)

lemma trim_plain_ends:
  assumes "plain_char (hd s)" and "plain_char (last s)" and "s \<noteq> []"
  shows "trim s = s"
proof -
  obtain a r where s: "s = a # r" using assms(3) by (cases s) auto
  obtain z q where z: "rev s = z # q" using assms(3) by (cases "rev s") auto
  then have "last s = z" by (metis hd_rev list.sel(1))
  then have "plain_char a" "plain_char z" using assms s by auto
  then have "ws_front s = 0" and "ws_back (rev s) = 0"
    by (simp add: s ws_front_plain, simp only: z ws_back_plain)
  then show ?thesis by (rule trim_id)
qed

lemma trim_plain:
  assumes "\<forall>c \<in> set s. plain_char c"
  shows "trim s = s"
  using assms trim_plain_ends[of s] by (cases "s = []") auto

section \<open>Searching and splitting\<close>

definition starts_with :: "string \<Rightarrow> string \<Rightarrow> bool" where
  "starts_with s p = prefix p s"

definition ends_with :: "string \<Rightarrow> string \<Rightarrow> bool" where
  "ends_with s p = suffix p s"

definition strip_prefix :: "string \<Rightarrow> string \<Rightarrow> string option" where
  "strip_prefix s p = (if prefix p s then Some (drop (length p) s) else None)"

definition strip_suffix :: "string \<Rightarrow> string \<Rightarrow> string option" where
  "strip_suffix s p = (if suffix p s then Some (take (length s - length p) s) else None)"

lemma strip_prefix_Some: "strip_prefix s p = Some t \<longleftrightarrow> s = p @ t"
  by (auto simp: strip_prefix_def prefix_def)

lemma strip_suffix_Some: "strip_suffix s p = Some t \<longleftrightarrow> s = t @ p"
  by (auto simp: strip_suffix_def suffix_def)

fun split_on :: "char \<Rightarrow> string \<Rightarrow> string list" where
  "split_on c [] = [[]]"
| "split_on c (x # xs) =
     (if x = c then [] # split_on c xs
      else (case split_on c xs of [] \<Rightarrow> [[x]] | p # ps \<Rightarrow> (x # p) # ps))"

lemma split_on_not_Nil [simp]: "split_on c s \<noteq> []"
  by (induction s) (auto split: list.splits)

lemma split_on_parts: "p \<in> set (split_on c s) \<Longrightarrow> c \<notin> set p"
  by (induction s arbitrary: p) (auto split: list.splits if_splits)

section \<open>Character boundaries\<close>

definition is_char_boundary :: "string \<Rightarrow> nat \<Rightarrow> bool" where
  "is_char_boundary s i =
     (i = 0 \<or> i = length s \<or> i < length s \<and> \<not> (128 \<le> code (s ! i) \<and> code (s ! i) < 192))"

text \<open>\<open>&s[a..b]\<close>, \<open>None\<close> where the slice panics.\<close>

definition str_slice :: "string \<Rightarrow> nat \<Rightarrow> nat \<Rightarrow> string option" where
  "str_slice s a b =
     (if a \<le> b \<and> b \<le> length s \<and> is_char_boundary s a \<and> is_char_boundary s b
      then Some (take (b - a) (drop a s)) else None)"

section \<open>UTF-8\<close>

definition cont_byte :: "char \<Rightarrow> bool" where
  "cont_byte c = (128 \<le> code c \<and> code c < 192)"

text \<open>\<open>String::from_utf8\<close>'s test, on the well-formed byte sequences of Unicode's table 3-7.\<close>

fun utf8_valid :: "string \<Rightarrow> bool" where
  "utf8_valid [] = True"
| "utf8_valid (a # s) =
     (if code a < 128 then utf8_valid s
      else if 0xC2 \<le> code a \<and> code a \<le> 0xDF then
        (case s of b # s' \<Rightarrow> cont_byte b \<and> utf8_valid s' | [] \<Rightarrow> False)
      else if 0xE0 \<le> code a \<and> code a \<le> 0xEF then
        (case s of b # c # s' \<Rightarrow>
           cont_byte b \<and> cont_byte c \<and> (code a = 0xE0 \<longrightarrow> 0xA0 \<le> code b) \<and>
           (code a = 0xED \<longrightarrow> code b < 0xA0) \<and> utf8_valid s' | _ \<Rightarrow> False)
      else if 0xF0 \<le> code a \<and> code a \<le> 0xF4 then
        (case s of b # c # d # s' \<Rightarrow>
           cont_byte b \<and> cont_byte c \<and> cont_byte d \<and> (code a = 0xF0 \<longrightarrow> 0x90 \<le> code b) \<and>
           (code a = 0xF4 \<longrightarrow> code b < 0x90) \<and> utf8_valid s' | _ \<Rightarrow> False)
      else False)"

lemma utf8_valid_ascii: "\<forall>c \<in> set s. code c < 128 \<Longrightarrow> utf8_valid s"
  by (induction s) auto

section \<open>Decimal numbers\<close>

definition dec_digit :: "nat \<Rightarrow> char" where
  "dec_digit d = char_of (48 + d)"

function show_nat :: "nat \<Rightarrow> string" where
  "show_nat n = (if n < 10 then [dec_digit n] else show_nat (n div 10) @ [dec_digit (n mod 10)])"
  by pat_completeness auto
termination
  by (relation "measure id") auto

declare show_nat.simps [simp del]

fun dec_val :: "nat \<Rightarrow> string \<Rightarrow> nat option" where
  "dec_val acc [] = Some acc"
| "dec_val acc (c # s) =
     (if 48 \<le> code c \<and> code c \<le> 57 then dec_val (10 * acc + (code c - 48)) s else None)"

text \<open>
  \<open>str::parse::<u64>\<close>: an optional plus sign, then at least one digit, and a value that
  fits. (The library fails at the digit where the accumulator overflows; the accumulator
  never shrinks, so that is the same as an overflowing total.)
\<close>

definition parse_u64 :: "string \<Rightarrow> u64 option" where
  "parse_u64 s =
     (let ds = (case s of c # r \<Rightarrow> if c = CHR ''+'' then r else s | [] \<Rightarrow> []) in
      if ds = [] then None
      else case dec_val 0 ds of None \<Rightarrow> None
           | Some n \<Rightarrow> if n < 2 ^ 64 then Some (word_of_int (int n)) else None)"

lemma code_dec_digit: "d < 10 \<Longrightarrow> code (dec_digit d) = 48 + d"
  by (simp add: dec_digit_def)

lemma dec_val_append:
  "dec_val acc (s @ t) = (case dec_val acc s of None \<Rightarrow> None | Some a \<Rightarrow> dec_val a t)"
  by (induction acc s rule: dec_val.induct) auto

lemma dec_val_show_nat: "dec_val 0 (show_nat n) = Some n"
proof (induction n rule: show_nat.induct)
  case (1 n)
  show ?case
  proof (cases "n < 10")
    case True
    then show ?thesis by (simp add: show_nat.simps[of n] code_dec_digit)
  next
    case False
    with 1 show ?thesis
      by (simp add: show_nat.simps[of n] dec_val_append code_dec_digit)
  qed
qed

lemma show_nat_digits: "c \<in> set (show_nat n) \<Longrightarrow> 48 \<le> code c \<and> code c \<le> 57"
proof (induction n rule: show_nat.induct)
  case (1 n)
  then show ?case
    by (cases "n < 10") (auto simp: show_nat.simps[of n] code_dec_digit)
qed

lemma show_nat_not_Nil [simp]: "show_nat n \<noteq> []"
  by (subst show_nat.simps) simp

lemma trim_show_nat [simp]: "trim (show_nat n) = show_nat n"
  by (rule trim_plain) (auto simp: plain_char_def dest: show_nat_digits)

lemma utf8_show_nat [simp]: "utf8_valid (show_nat n)"
  by (rule utf8_valid_ascii) (auto dest: show_nat_digits)

text \<open>Printing a \<open>u64\<close> and parsing it back.\<close>

lemma parse_show_u64: "parse_u64 (show_nat (unat w)) = Some w"
proof -
  obtain c r where cr: "show_nat (unat w) = c # r"
    by (cases "show_nat (unat w)") auto
  then have "code c \<noteq> 43" using show_nat_digits[of c "unat w"] by auto
  then have "c \<noteq> CHR ''+''" by auto
  moreover have "unat w < 2 ^ 64" using unsigned_less[of w] by simp
  ultimately show ?thesis
    using dec_val_show_nat[of "unat w"] by (simp add: parse_u64_def cr)
qed

section \<open>Hexadecimal numbers\<close>

definition hex_digit :: "nat \<Rightarrow> char" where
  "hex_digit d = (if d < 10 then char_of (48 + d) else char_of (87 + d))"

text \<open>\<open>format!("{byte:02x}")\<close>, collected over the bytes.\<close>

definition hex_byte :: "u8 \<Rightarrow> string" where
  "hex_byte b = [hex_digit (unat b div 16), hex_digit (unat b mod 16)]"

definition hex_of_bytes :: "bytes \<Rightarrow> string" where
  "hex_of_bytes bs = concat (map hex_byte bs)"

definition hex_val :: "char \<Rightarrow> nat option" where
  "hex_val c =
     (if 48 \<le> code c \<and> code c \<le> 57 then Some (code c - 48)
      else if 97 \<le> code c \<and> code c \<le> 102 then Some (code c - 87)
      else if 65 \<le> code c \<and> code c \<le> 70 then Some (code c - 55) else None)"

fun hex_acc :: "nat \<Rightarrow> string \<Rightarrow> nat option" where
  "hex_acc acc [] = Some acc"
| "hex_acc acc (c # s) = (case hex_val c of None \<Rightarrow> None | Some d \<Rightarrow> hex_acc (16 * acc + d) s)"

text \<open>\<open>u8::from_str_radix(s, 16)\<close>: a leading plus sign is accepted, a lone sign is not.\<close>

definition parse_hex_u8 :: "string \<Rightarrow> u8 option" where
  "parse_hex_u8 s =
     (let ds = (case s of c # r \<Rightarrow> if c = CHR ''+'' then r else s | [] \<Rightarrow> []) in
      if ds = [] then None
      else case hex_acc 0 ds of None \<Rightarrow> None
           | Some n \<Rightarrow> if n < 2 ^ 8 then Some (word_of_int (int n)) else None)"

lemma code_hex_digit: "d < 16 \<Longrightarrow> code (hex_digit d) = (if d < 10 then 48 + d else 87 + d)"
  by (simp add: hex_digit_def)

lemma hex_val_digit [simp]: "d < 16 \<Longrightarrow> hex_val (hex_digit d) = Some d"
  by (auto simp: hex_val_def code_hex_digit)

lemma hex_digit_not_plus: "d < 16 \<Longrightarrow> hex_digit d \<noteq> CHR ''+''"
  using code_hex_digit[of d] by (auto split: if_splits)

lemma unat_u8: "unat (b :: u8) < 256"
  using unsigned_less[of b] by simp

lemma parse_hex_byte [simp]: "parse_hex_u8 (hex_byte b) = Some b"
proof -
  have d: "unat b div 16 < 16" "unat b mod 16 < 16" using unat_u8[of b] by auto
  have "16 * (unat b div 16) + unat b mod 16 = unat b" by simp
  then show ?thesis
    using d unat_u8[of b] hex_digit_not_plus[OF d(1)]
    by (simp add: parse_hex_u8_def hex_byte_def)
qed

lemma length_hex_byte [simp]: "length (hex_byte b) = 2"
  by (simp add: hex_byte_def)

lemma hex_byte_ascii: "c \<in> set (hex_byte b) \<Longrightarrow> code c < 128"
  using unat_u8[of b] code_hex_digit[of "unat b div 16"] code_hex_digit[of "unat b mod 16"]
  by (auto simp: hex_byte_def)

lemma length_hex_of_bytes [simp]: "length (hex_of_bytes bs) = 2 * length bs"
  by (induction bs) (simp_all add: hex_of_bytes_def)

lemma hex_of_bytes_ascii: "c \<in> set (hex_of_bytes bs) \<Longrightarrow> code c < 128"
  by (auto simp: hex_of_bytes_def dest: hex_byte_ascii)

lemma hex_byte_inj: "hex_byte a = hex_byte b \<Longrightarrow> a = b"
  by (metis option.inject parse_hex_byte)

lemma hex_of_bytes_inj: "hex_of_bytes as = hex_of_bytes bs \<Longrightarrow> as = bs"
proof (induction as arbitrary: bs)
  case Nil
  then show ?case by (cases bs) (auto simp: hex_of_bytes_def hex_byte_def)
next
  case (Cons a as)
  then obtain b bs' where bs: "bs = b # bs'"
    by (cases bs) (auto simp: hex_of_bytes_def hex_byte_def)
  with Cons.prems have "hex_byte a @ hex_of_bytes as = hex_byte b @ hex_of_bytes bs'"
    by (simp add: hex_of_bytes_def)
  then have "hex_byte a = hex_byte b" "hex_of_bytes as = hex_of_bytes bs'" by simp_all
  with Cons.IH bs show ?case by (auto dest: hex_byte_inj)
qed

end
