(* ===== verification/Hash_Map.thy ===== *)
theory Hash_Map
  imports Prelude "HOL-Library.AList" "HOL-Library.Multiset"
begin

text \<open>
  The standard library's \<open>HashMap\<close>: a list of key-value pairs with distinct keys. The
  list's order is the order in which \<open>keys\<close> and \<open>values\<close> iterate, which the standard
  library leaves open; theorems quantify over every well-formed list, hence over every
  order. The locale \<open>hash_map_laws\<close> is the contract the components use: what a lookup
  returns after an insert or a remove. In it the development proves once that a secondary
  index (serial number to id, fingerprint to id) stays consistent with the table it indexes.
\<close>

type_synonym ('k, 'v) hash_map = "('k \<times> 'v) list"

definition hm_ok :: "('k, 'v) hash_map \<Rightarrow> bool" where
  "hm_ok m = distinct (map fst m)"

definition hm_empty :: "('k, 'v) hash_map" where
  "hm_empty = []"

definition hm_get :: "('k, 'v) hash_map \<Rightarrow> 'k \<Rightarrow> 'v option" where
  "hm_get m k = map_of m k"

definition hm_contains :: "('k, 'v) hash_map \<Rightarrow> 'k \<Rightarrow> bool" where
  "hm_contains m k = (hm_get m k \<noteq> None)"

definition hm_insert :: "'k \<Rightarrow> 'v \<Rightarrow> ('k, 'v) hash_map \<Rightarrow> ('k, 'v) hash_map" where
  "hm_insert k v m = AList.update k v m"

definition hm_remove :: "'k \<Rightarrow> ('k, 'v) hash_map \<Rightarrow> ('k, 'v) hash_map" where
  "hm_remove k m = AList.delete k m"

definition hm_keys :: "('k, 'v) hash_map \<Rightarrow> 'k list" where
  "hm_keys m = map fst m"

definition hm_values :: "('k, 'v) hash_map \<Rightarrow> 'v list" where
  "hm_values m = map snd m"

definition hm_len :: "('k, 'v) hash_map \<Rightarrow> nat" where
  "hm_len m = length m"

lemma hm_get_empty [simp]: "hm_get hm_empty k = None"
  by (simp add: hm_get_def hm_empty_def)

lemma hm_get_insert [simp]: "hm_get (hm_insert k v m) k' = (if k' = k then Some v else hm_get m k')"
  by (simp add: hm_get_def hm_insert_def update_conv')

lemma hm_get_remove [simp]: "hm_get (hm_remove k m) k' = (if k' = k then None else hm_get m k')"
  by (simp add: hm_get_def hm_remove_def delete_conv')

lemma hm_ok_empty [simp]: "hm_ok hm_empty"
  by (simp add: hm_ok_def hm_empty_def)

lemma hm_ok_insert [simp]: "hm_ok m \<Longrightarrow> hm_ok (hm_insert k v m)"
  by (simp add: hm_ok_def hm_insert_def distinct_update)

lemma hm_ok_remove [simp]: "hm_ok m \<Longrightarrow> hm_ok (hm_remove k m)"
  by (simp add: hm_ok_def hm_remove_def distinct_delete)

lemma hm_contains_iff: "hm_contains m k \<longleftrightarrow> (\<exists>v. hm_get m k = Some v)"
  by (simp add: hm_contains_def)

lemma set_hm_keys [simp]: "set (hm_keys m) = {k. hm_contains m k}"
proof -
  have "hm_contains m k \<longleftrightarrow> k \<in> dom (map_of m)" for k
    by (auto simp: hm_contains_def hm_get_def)
  then show ?thesis by (simp add: hm_keys_def dom_map_of_conv_image_fst)
qed

lemma distinct_hm_keys [simp]: "hm_ok m \<Longrightarrow> distinct (hm_keys m)"
  by (simp add: hm_keys_def hm_ok_def)

lemma set_hm_values: "hm_ok m \<Longrightarrow> v \<in> set (hm_values m) \<longleftrightarrow> (\<exists>k. hm_get m k = Some v)"
  by (force simp: hm_values_def hm_ok_def hm_get_def)

lemma hm_values_get: "hm_get m k = Some v \<Longrightarrow> v \<in> set (hm_values m)"
  by (force simp: hm_values_def hm_get_def dest: map_of_SomeD)

lemma length_hm_values [simp]: "length (hm_values m) = hm_len m"
  by (simp add: hm_values_def hm_len_def)

lemma hm_len_empty [simp]: "hm_len hm_empty = 0"
  by (simp add: hm_len_def hm_empty_def)

lemma hm_len_card: "hm_ok m \<Longrightarrow> hm_len m = card {k. hm_contains m k}"
  using distinct_card[of "hm_keys m"] by (simp add: hm_keys_def hm_ok_def hm_len_def flip: set_hm_keys)

lemma hm_keys_insert:
  "hm_keys (hm_insert k v m) = (if hm_contains m k then hm_keys m else hm_keys m @ [k])"
proof -
  have "hm_contains m k \<longleftrightarrow> k \<in> set (map fst m)"
    using set_hm_keys[of m] by (simp add: hm_keys_def set_eq_iff del: set_map)
  then show ?thesis by (simp add: hm_keys_def hm_insert_def update_keys del: set_map)
qed

lemma hm_insert_same [simp]: "hm_get m k = Some v \<Longrightarrow> hm_insert k v m = m"
  by (induction m) (auto simp: hm_get_def hm_insert_def split: if_splits)

text \<open>
  Rehashing: the same entries in another iteration order. No lookup can tell.
\<close>

definition hm_rehash :: "('k, 'v) hash_map \<Rightarrow> ('k, 'v) hash_map \<Rightarrow> bool" where
  "hm_rehash m m' = (mset m = mset m')"

lemma hm_rehash_refl [simp]: "hm_rehash m m"
  by (simp add: hm_rehash_def)

lemma hm_rehash_ok: "hm_rehash m m' \<Longrightarrow> hm_ok m' = hm_ok m"
  unfolding hm_rehash_def hm_ok_def by (metis mset_map mset_eq_imp_distinct_iff)

lemma hm_rehash_get:
  assumes "hm_rehash m m'" and "hm_ok m"
  shows "hm_get m' = hm_get m"
proof -
  have "hm_ok m'" using assms by (simp add: hm_rehash_ok)
  moreover have "set m' = set m" using assms(1) by (metis hm_rehash_def set_mset_mset)
  ultimately have "map_of m' = map_of m"
    using assms(2) map_of_inject_set[of m' m] by (simp add: hm_ok_def)
  then show ?thesis by (simp add: hm_get_def fun_eq_iff)
qed

section \<open>The contract\<close>

locale hash_map_laws =
  fixes get :: "'m \<Rightarrow> 'k \<Rightarrow> 'v option"
    and ins :: "'k \<Rightarrow> 'v \<Rightarrow> 'm \<Rightarrow> 'm"
    and rem :: "'k \<Rightarrow> 'm \<Rightarrow> 'm"
    and ok :: "'m \<Rightarrow> bool"
  assumes get_ins: "ok m \<Longrightarrow> get (ins k v m) k' = (if k' = k then Some v else get m k')"
    and get_rem: "ok m \<Longrightarrow> get (rem k m) k' = (if k' = k then None else get m k')"
    and ok_ins: "ok m \<Longrightarrow> ok (ins k v m)"
    and ok_rem: "ok m \<Longrightarrow> ok (rem k m)"
begin

lemma ins_then_get: "ok m \<Longrightarrow> get (ins k v m) k = Some v"
  by (simp add: get_ins)

lemma ins_other: "ok m \<Longrightarrow> k' \<noteq> k \<Longrightarrow> get (ins k v m) k' = get m k'"
  by (simp add: get_ins)

lemma rem_ins_absent: "ok m \<Longrightarrow> get m k = None \<Longrightarrow> get (rem k (ins k v m)) = get m"
  by (rule ext) (simp add: get_rem get_ins ok_ins)

end

interpretation hm: hash_map_laws hm_get hm_insert hm_remove hm_ok
  by unfold_locales auto

section \<open>Secondary indices\<close>

text \<open>
  \<open>index_sound key t ix\<close>: every entry of the index \<open>ix\<close> points to a row of the table
  \<open>t\<close> that carries the indexed key. \<open>index_complete key t ix\<close>: every row of the table that
  has a key is found by it, so the key is unique.
\<close>

definition index_sound :: "('v \<Rightarrow> 's option) \<Rightarrow> ('k, 'v) hash_map \<Rightarrow> ('s, 'k) hash_map \<Rightarrow> bool" where
  "index_sound key t ix =
     (\<forall>s k. hm_get ix s = Some k \<longrightarrow> (\<exists>v. hm_get t k = Some v \<and> key v = Some s))"

definition index_complete :: "('v \<Rightarrow> 's option) \<Rightarrow> ('k, 'v) hash_map \<Rightarrow> ('s, 'k) hash_map \<Rightarrow> bool" where
  "index_complete key t ix =
     (\<forall>s k v. hm_get t k = Some v \<longrightarrow> key v = Some s \<longrightarrow> hm_get ix s = Some k)"

lemma index_sound_empty [simp]: "index_sound key t hm_empty"
  by (simp add: index_sound_def)

lemma index_complete_empty [simp]: "index_complete key hm_empty ix"
  by (simp add: index_complete_def)

lemma index_soundD:
  "index_sound key t ix \<Longrightarrow> hm_get ix s = Some k \<Longrightarrow> \<exists>v. hm_get t k = Some v \<and> key v = Some s"
  by (simp add: index_sound_def)

lemma index_completeD:
  "index_complete key t ix \<Longrightarrow> hm_get t k = Some v \<Longrightarrow> key v = Some s \<Longrightarrow> hm_get ix s = Some k"
  by (auto simp: index_complete_def)

text \<open>A new row under a fresh id, entered in the index.\<close>

lemma index_sound_insert:
  assumes "index_sound key t ix" and "hm_get t k = None" and "key v = Some s"
  shows "index_sound key (hm_insert k v t) (hm_insert s k ix)"
  using assms unfolding index_sound_def by (fastforce split: if_splits)

lemma index_complete_insert:
  assumes "index_complete key t ix" and "hm_get ix s = None" and "key v = Some s"
  shows "index_complete key (hm_insert k v t) (hm_insert s k ix)"
  using assms unfolding index_complete_def by (fastforce split: if_splits)

text \<open>A new row that has no key of this index.\<close>

lemma index_sound_insert_none:
  assumes "index_sound key t ix" and "hm_get t k = None"
  shows "index_sound key (hm_insert k v t) ix"
  using assms unfolding index_sound_def by (fastforce split: if_splits)

text \<open>A row rewritten with the same key.\<close>

lemma index_sound_update:
  assumes "index_sound key t ix" and "hm_get t k = Some v" and "key v' = key v"
  shows "index_sound key (hm_insert k v' t) ix"
  using assms unfolding index_sound_def by (fastforce split: if_splits)

lemma index_complete_update:
  assumes "index_complete key t ix" and "hm_get t k = Some v" and "key v' = key v"
  shows "index_complete key (hm_insert k v' t) ix"
  using assms unfolding index_complete_def by (fastforce split: if_splits)

text \<open>A row removed together with its index entry.\<close>

lemma index_sound_remove:
  assumes "index_sound key t ix" and "hm_get t k = Some v" and "key v = Some s"
  shows "index_sound key (hm_remove k t) (hm_remove s ix)"
  using assms unfolding index_sound_def by (fastforce split: if_splits)

lemma index_sound_remove_none:
  assumes "index_sound key t ix" and "hm_get t k = Some v" and "key v = None"
  shows "index_sound key (hm_remove k t) ix"
  using assms unfolding index_sound_def by (fastforce split: if_splits)

lemma index_key_unique:
  assumes "index_complete key t ix" and "hm_get t k = Some v" and "hm_get t k' = Some v'"
    and "key v = Some s" and "key v' = Some s"
  shows "k = k'"
  using index_completeD[OF assms(1,2,4)] index_completeD[OF assms(1,3,5)] by simp

lemma index_complete_remove:
  assumes "index_complete key t ix" and "hm_get t k = Some v" and "key v = Some s"
  shows "index_complete key (hm_remove k t) (hm_remove s ix)"
  unfolding index_complete_def
proof (intro allI impI)
  fix s' k' v'
  assume k': "hm_get (hm_remove k t) k' = Some v'" and s': "key v' = Some s'"
  then have t: "hm_get t k' = Some v'" and ne: "k' \<noteq> k" by (auto split: if_splits)
  from index_completeD[OF assms(1) t s'] index_key_unique[OF assms(1,2) t assms(3)] ne s'
  show "hm_get (hm_remove s ix) s' = Some k'" by auto
qed

end
