(* ===== verification/File_System.thy ===== *)
theory File_System
  imports Rust_Str Hash_Map
begin

text \<open>
  The part of \<open>std::fs\<close> the server uses. A path is the list of its components; the state
  holds the files' bytes and a plan of faults, one entry for every call, which the
  environment chooses: a call succeeds, fails before it has changed anything, or (a write)
  fails after the file was truncated and part of the content written. An exhausted plan means
  no further fault. Directories are not represented: a missing one is a fault of the write
  that needs it. Theorems quantify over the plan, hence over every failure. The locale
  \<open>replaceable\<close> is the contract on which the atomic replacement of a file (write a temporary
  file, rename it) rests.
\<close>

type_synonym path = "string list"
type_synonym io_error = string

section \<open>Paths\<close>

definition path_join :: "path \<Rightarrow> string \<Rightarrow> path" where
  "path_join p name = p @ [name]"

definition path_parent :: "path \<Rightarrow> path option" where
  "path_parent p = (if p = [] then None else Some (butlast p))"

text \<open>The name up to its last dot, unless that dot is the first character.\<close>

definition file_stem :: "string \<Rightarrow> string" where
  "file_stem name =
     (case position (\<lambda>c. c = CHR ''.'') (rev name) of None \<Rightarrow> name
      | Some n \<Rightarrow> if length name = Suc n then name else take (length name - Suc n) name)"

definition with_extension :: "path \<Rightarrow> string \<Rightarrow> path" where
  "with_extension p ext =
     (if p = [] \<or> last p = ''..'' then p
      else butlast p @ [file_stem (last p) @ (if ext = [] then [] else CHR ''.'' # ext)])"

lemma with_json_tmp_differs:
  assumes "p \<noteq> []" and "last p \<noteq> ''..''"
  shows "with_extension p ''json.tmp'' \<noteq> p"
proof
  assume eq: "with_extension p ''json.tmp'' = p"
  let ?n = "last p"
  have "butlast p @ [file_stem ?n @ ''.json.tmp''] = butlast p @ [?n]"
    using eq assms by (simp add: with_extension_def)
  then have st: "file_stem ?n @ ''.json.tmp'' = ?n" by simp
  show False
  proof (cases "position (\<lambda>c. c = CHR ''.'') (rev ?n)")
    case None
    then have "file_stem ?n = ?n" by (simp add: file_stem_def)
    with st show False by (metis append_self_conv list.distinct(1))
  next
    case (Some k)
    note k = position_Some[OF Some]
    show False
    proof (cases "length ?n = Suc k")
      case True
      then have "file_stem ?n = ?n" using Some by (simp add: file_stem_def)
      with st show False by (metis append_self_conv list.distinct(1))
    next
      case False
      then have fs: "file_stem ?n = take (length ?n - Suc k) ?n" using Some by (simp add: file_stem_def)
      have kl: "k < length ?n" using k by simp
      have "length (file_stem ?n) + 9 = length ?n" using arg_cong[OF st, of length] by simp
      then have k8: "k = 8" using fs kl by simp
      have "rev ?n = ''pmt.nosj.'' @ rev (file_stem ?n)" using arg_cong[OF st, of rev] by simp
      moreover have "(''pmt.nosj.'' @ rev (file_stem ?n)) ! 3 = CHR ''.''" by simp
      ultimately have "rev ?n ! 3 = CHR ''.''" by (simp only:)
      with k k8 show False by auto
    qed
  qed
qed

section \<open>Calls\<close>

datatype fault = NoFault | Fails io_error | FailsPartial io_error nat

record fs =
  fs_files :: "(path, bytes) hash_map"
  fs_faults :: "fault list"

definition next_fault :: "fs \<Rightarrow> fault \<times> fs" where
  "next_fault w = (case fs_faults w of [] \<Rightarrow> (NoFault, w) | f # r \<Rightarrow> (f, w\<lparr>fs_faults := r\<rparr>))"

definition fs_exists :: "path \<Rightarrow> fs \<Rightarrow> fs \<times> bool" where
  "fs_exists p w =
     (case next_fault w of (f, w') \<Rightarrow>
        (w', case f of NoFault \<Rightarrow> hm_contains (fs_files w') p | _ \<Rightarrow> False))"

definition fs_read_to_string :: "path \<Rightarrow> fs \<Rightarrow> fs \<times> (io_error + string)" where
  "fs_read_to_string p w =
     (case next_fault w of (f, w') \<Rightarrow>
        (w', case f of
           NoFault \<Rightarrow>
             (case hm_get (fs_files w') p of None \<Rightarrow> Inl ''No such file or directory''
              | Some bs \<Rightarrow>
                  if utf8_valid (bytes_str bs) then Inr (bytes_str bs)
                  else Inl ''stream did not contain valid UTF-8'')
         | Fails e \<Rightarrow> Inl e | FailsPartial e _ \<Rightarrow> Inl e))"

definition fs_write :: "path \<Rightarrow> bytes \<Rightarrow> fs \<Rightarrow> fs \<times> (io_error + unit)" where
  "fs_write p bs w =
     (case next_fault w of (f, w') \<Rightarrow>
        (case f of
           NoFault \<Rightarrow> (w'\<lparr>fs_files := hm_insert p bs (fs_files w')\<rparr>, Inr ())
         | Fails e \<Rightarrow> (w', Inl e)
         | FailsPartial e n \<Rightarrow> (w'\<lparr>fs_files := hm_insert p (take n bs) (fs_files w')\<rparr>, Inl e)))"

definition fs_rename :: "path \<Rightarrow> path \<Rightarrow> fs \<Rightarrow> fs \<times> (io_error + unit)" where
  "fs_rename a b w =
     (case next_fault w of (f, w') \<Rightarrow>
        (case f of
           NoFault \<Rightarrow>
             (case hm_get (fs_files w') a of None \<Rightarrow> (w', Inl ''No such file or directory'')
              | Some bs \<Rightarrow>
                  (w'\<lparr>fs_files := hm_insert b bs (hm_remove a (fs_files w'))\<rparr>, Inr ()))
         | Fails e \<Rightarrow> (w', Inl e) | FailsPartial e _ \<Rightarrow> (w', Inl e)))"

definition fs_create_dir_all :: "path \<Rightarrow> fs \<Rightarrow> fs \<times> (io_error + unit)" where
  "fs_create_dir_all p w =
     (case next_fault w of (f, w') \<Rightarrow>
        (w', case f of NoFault \<Rightarrow> Inr () | Fails e \<Rightarrow> Inl e | FailsPartial e _ \<Rightarrow> Inl e))"

definition file_at :: "fs \<Rightarrow> path \<Rightarrow> bytes option" where
  "file_at w p = hm_get (fs_files w) p"

section \<open>What the calls do\<close>

lemma file_at_files: "file_at w = file_at w' \<Longrightarrow> hm_get (fs_files w) p = file_at w' p"
  by (metis file_at_def)

lemma next_fault_files [simp]: "fs_files (snd (next_fault w)) = fs_files w"
  by (simp add: next_fault_def split: list.split)

lemma next_fault_at [simp]: "file_at (snd (next_fault w)) = file_at w"
  by (rule ext) (simp add: file_at_def)

lemma next_fault_free: "fs_faults w = [] \<Longrightarrow> next_fault w = (NoFault, w)"
  by (simp add: next_fault_def)

lemma file_at_exists [simp]: "file_at (fst (fs_exists p w)) = file_at w"
  by (simp add: fs_exists_def case_prod_beta)

lemma file_at_read [simp]: "file_at (fst (fs_read_to_string p w)) = file_at w"
  by (simp add: fs_read_to_string_def case_prod_beta)

lemma file_at_create_dir [simp]: "file_at (fst (fs_create_dir_all p w)) = file_at w"
  by (simp add: fs_create_dir_all_def case_prod_beta)

lemma file_at_update [simp]:
  "file_at (w\<lparr>fs_files := hm_insert p bs (fs_files w)\<rparr>) = (file_at w)(p \<mapsto> bs)"
  by (rule ext) (simp add: file_at_def)

lemma fs_write_effect:
  "case fs_write p bs w of (w', r) \<Rightarrow>
     (r = Inr () \<and> file_at w' = (file_at w)(p \<mapsto> bs)) \<or>
     (\<exists>e. r = Inl e \<and> (file_at w' = file_at w \<or> (\<exists>n. file_at w' = (file_at w)(p \<mapsto> take n bs))))"
proof (cases "next_fault w")
  case (Pair f w')
  then have "file_at w' = file_at w" using next_fault_at[of w] by simp
  with Pair show ?thesis by (cases f) (auto simp: fs_write_def)
qed

lemma fs_write_other: "p' \<noteq> p \<Longrightarrow> file_at (fst (fs_write p bs w)) p' = file_at w p'"
  using fs_write_effect[where p = p and bs = bs and w = w] by (auto split: prod.splits)

lemma fs_write_ok: "fs_write p bs w = (w', Inr ()) \<Longrightarrow> file_at w' = (file_at w)(p \<mapsto> bs)"
  using fs_write_effect[where p = p and bs = bs and w = w] by auto

lemma fs_rename_effect:
  "case fs_rename a b w of (w', r) \<Rightarrow>
     (\<exists>bs. r = Inr () \<and> file_at w a = Some bs \<and> file_at w' = (file_at w)(a := None, b \<mapsto> bs)) \<or>
     (\<exists>e. r = Inl e \<and> file_at w' = file_at w)"
proof (cases "next_fault w")
  case (Pair f w')
  then have w': "file_at w' = file_at w" using next_fault_at[of w] by simp
  have "file_at (w'\<lparr>fs_files := hm_insert b bs (hm_remove a (fs_files w'))\<rparr>) =
      (file_at w')(a := None, b \<mapsto> bs)" for bs
    by (rule ext) (simp add: file_at_def)
  moreover have "hm_get (fs_files w') a = file_at w a"
    using fun_cong[OF w', of a] by (simp add: file_at_def)
  ultimately show ?thesis using Pair w'
    by (cases f) (auto simp: fs_rename_def split: option.split)
qed

lemma fs_rename_ok:
  "fs_rename a b w = (w', Inr ()) \<Longrightarrow>
     \<exists>bs. file_at w a = Some bs \<and> file_at w' = (file_at w)(a := None, b \<mapsto> bs)"
  using fs_rename_effect[where a = a and b = b and w = w] by auto

lemma fs_rename_err: "fs_rename a b w = (w', Inl e) \<Longrightarrow> file_at w' = file_at w"
  using fs_rename_effect[where a = a and b = b and w = w] by auto

section \<open>The contract of an atomic replacement\<close>

locale replaceable =
  fixes content :: "'w \<Rightarrow> 'p \<Rightarrow> 'b option"
    and put :: "'p \<Rightarrow> 'b \<Rightarrow> 'w \<Rightarrow> 'w \<times> ('e + unit)"
    and rename :: "'p \<Rightarrow> 'p \<Rightarrow> 'w \<Rightarrow> 'w \<times> ('e + unit)"
  assumes write_other: "p' \<noteq> p \<Longrightarrow> content (fst (put p b w)) p' = content w p'"
    and write_done: "put p b w = (w', Inr ()) \<Longrightarrow> content w' p = Some b"
    and rename_done: "rename p q w = (w', Inr ()) \<Longrightarrow>
      content w' = (content w)(p := None, q := content w p)"
    and rename_failed: "rename p q w = (w', Inl e) \<Longrightarrow> content w' = content w"
begin

definition replace :: "'p \<Rightarrow> 'p \<Rightarrow> 'b \<Rightarrow> 'w \<Rightarrow> 'w \<times> ('e + unit)" where
  "replace tmp p b w =
     (case put tmp b w of (w1, Inl e) \<Rightarrow> (w1, Inl e) | (w1, Inr _) \<Rightarrow> rename tmp p w1)"

lemma replace_done:
  assumes "replace tmp p b w = (w', Inr ())"
  shows "content w' p = Some b"
proof -
  obtain w1 where w: "put tmp b w = (w1, Inr ())" and r: "rename tmp p w1 = (w', Inr ())"
    using assms by (auto simp: replace_def split: prod.splits sum.splits)
  show ?thesis using rename_done[OF r] write_done[OF w] by simp
qed

lemma replace_failed:
  assumes "replace tmp p b w = (w', Inl e)" and "tmp \<noteq> p"
  shows "content w' p = content w p"
proof -
  obtain w1 r1 where w: "put tmp b w = (w1, r1)" by (cases "put tmp b w")
  have c1: "content w1 p = content w p" using write_other[of p tmp b w] assms(2) w by simp
  show ?thesis
  proof (cases r1)
    case (Inl e1)
    with assms(1) w c1 show ?thesis by (simp add: replace_def)
  next
    case (Inr u)
    with assms(1) w have "rename tmp p w1 = (w', Inl e)" by (simp add: replace_def)
    with c1 rename_failed show ?thesis by simp
  qed
qed

lemma replace_atomic:
  "tmp \<noteq> p \<Longrightarrow> content (fst (replace tmp p b w)) p \<in> {content w p, Some b}"
  using replace_done[of tmp p b w] replace_failed[of tmp p b w]
  by (cases "replace tmp p b w"; cases "snd (replace tmp p b w)") auto

lemma replace_other:
  assumes "q \<noteq> p" and "q \<noteq> tmp"
  shows "content (fst (replace tmp p b w)) q = content w q"
proof -
  obtain w1 r1 where w: "put tmp b w = (w1, r1)" by (cases "put tmp b w")
  have c1: "content w1 q = content w q" using write_other[of q tmp b w] assms(2) w by simp
  obtain w2 r2 where r: "rename tmp p w1 = (w2, r2)" by (cases "rename tmp p w1")
  have "content w2 q = content w1 q"
    using r rename_done[of tmp p w1 w2] rename_failed[of tmp p w1 w2] assms by (cases r2) auto
  with c1 w r show ?thesis by (cases r1) (simp_all add: replace_def)
qed

end

interpretation disk: replaceable file_at fs_write fs_rename
  by unfold_locales (auto simp: fs_write_other dest: fs_write_ok fs_rename_ok fs_rename_err)

end
