(* ===== verification/Audit_Log.thy ===== *)
theory Audit_Log
  imports Rust_Str
begin

text \<open>
  The audit log of \<open>daemon-pki-api/src/audit/mod.rs\<close>, and the JSON values (\<open>serde_json::Value\<close>)
  its events and the HTTP responses carry. The store is shared behind an \<open>RwLock\<close>; an
  operation that takes the lock is one atomic step on the list. The locale \<open>append_log\<close> is
  what the issuance service relies on: recording only appends.
\<close>

section \<open>JSON\<close>

datatype json =
  JNull | JBool bool | JNumber int | JString string | JArray "json list" | JObject "(string \<times> json) list"

section \<open>Events\<close>

datatype audit_event_type =
  CertificateIssued | CertificateRenewed | CertificateRevoked | CertificateValidated
| AuthorizationDenied | AuthenticationSucceeded | AuthenticationFailed | PolicyDenied
| SecurityConfigurationChanged

datatype audit_outcome = Success | Denied | Failure

record audit_event =
  ae_id :: uuid
  ae_event_type :: audit_event_type
  ae_outcome :: audit_outcome
  ae_timestamp :: instant
  ae_principal_id :: "uuid option"
  ae_principal_name :: "string option"
  ae_certificate_id :: "uuid option"
  ae_certificate_serial :: "string option"
  ae_resource :: "string option"
  ae_action :: string
  ae_reason :: "string option"
  ae_metadata :: json

definition audit_event_new ::
  "uuid \<Rightarrow> instant \<Rightarrow> audit_event_type \<Rightarrow> audit_outcome \<Rightarrow> string \<Rightarrow> audit_event" where
  "audit_event_new new_id now ty outcome action =
     \<lparr>ae_id = new_id, ae_event_type = ty, ae_outcome = outcome, ae_timestamp = now,
      ae_principal_id = None, ae_principal_name = None, ae_certificate_id = None,
      ae_certificate_serial = None, ae_resource = None, ae_action = action, ae_reason = None,
      ae_metadata = JObject []\<rparr>"

definition with_principal :: "uuid \<Rightarrow> string \<Rightarrow> audit_event \<Rightarrow> audit_event" where
  "with_principal i n e = e\<lparr>ae_principal_id := Some i, ae_principal_name := Some n\<rparr>"

definition with_certificate :: "uuid \<Rightarrow> string \<Rightarrow> audit_event \<Rightarrow> audit_event" where
  "with_certificate i s e = e\<lparr>ae_certificate_id := Some i, ae_certificate_serial := Some s\<rparr>"

definition with_resource :: "string \<Rightarrow> audit_event \<Rightarrow> audit_event" where
  "with_resource r e = e\<lparr>ae_resource := Some r\<rparr>"

definition with_reason :: "string \<Rightarrow> audit_event \<Rightarrow> audit_event" where
  "with_reason r e = e\<lparr>ae_reason := Some r\<rparr>"

definition with_metadata :: "json \<Rightarrow> audit_event \<Rightarrow> audit_event" where
  "with_metadata j e = e\<lparr>ae_metadata := j\<rparr>"

section \<open>The store\<close>

record audit_store =
  as_events :: "audit_event list"

definition audit_store_new :: audit_store where
  "audit_store_new = \<lparr>as_events = []\<rparr>"

definition audit_record :: "audit_event \<Rightarrow> audit_store \<Rightarrow> audit_store" where
  "audit_record e st = st\<lparr>as_events := as_events st @ [e]\<rparr>"

definition audit_list :: "audit_store \<Rightarrow> audit_event list" where
  "audit_list st = as_events st"

definition audit_len :: "audit_store \<Rightarrow> nat" where
  "audit_len st = length (as_events st)"

definition audit_is_empty :: "audit_store \<Rightarrow> bool" where
  "audit_is_empty st = (audit_len st = 0)"

definition audit_clear :: "audit_store \<Rightarrow> audit_store" where
  "audit_clear st = st\<lparr>as_events := []\<rparr>"

section \<open>The contract\<close>

locale append_log =
  fixes record_event :: "'e \<Rightarrow> 's \<Rightarrow> 's"
    and entries :: "'s \<Rightarrow> 'e list"
  assumes record_appends: "entries (record_event e s) = entries s @ [e]"
begin

definition extends :: "'s \<Rightarrow> 's \<Rightarrow> bool" where
  "extends s s' = prefix (entries s) (entries s')"

lemma extends_refl: "extends s s"
  by (simp add: extends_def)

lemma extends_trans: "extends a b \<Longrightarrow> extends b c \<Longrightarrow> extends a c"
  by (auto simp: extends_def)

lemma extends_record: "extends s (record_event e s)"
  by (simp add: extends_def record_appends)

lemma extends_fold: "extends s (fold record_event es s)"
  by (induction es arbitrary: s) (auto intro: extends_refl extends_trans extends_record)

lemma entries_fold: "entries (fold record_event es s) = entries s @ es"
  by (induction es arbitrary: s) (simp_all add: record_appends)

lemma extends_kept: "extends s s' \<Longrightarrow> e \<in> set (entries s) \<Longrightarrow> e \<in> set (entries s')"
  by (auto simp: extends_def prefix_def)

end

interpretation audit: append_log audit_record audit_list
  by unfold_locales (simp add: audit_record_def audit_list_def)

lemma audit_len_record [simp]: "audit_len (audit_record e st) = audit_len st + 1"
  by (simp add: audit_len_def audit_record_def)

lemma audit_is_empty_iff [simp]: "audit_is_empty st \<longleftrightarrow> audit_list st = []"
  by (simp add: audit_is_empty_def audit_len_def audit_list_def)

end
