(* ===== verification/Cert_Store.thy ===== *)
theory Cert_Store
  imports File_System Audit_Log
begin

text \<open>
  \<open>CertificateStore\<close> of \<open>daemon-pki-api/src/certificates.rs\<close>: issued certificates in memory,
  written as a whole to one JSON file after every change. The operations take \<open>&self\<close> and lock
  the map; the model passes the store and the file system and returns both. \<open>serde_json\<close> is
  the record \<open>serde\<close>, an argument. The change in memory comes before the write and is not
  undone when the write fails.
\<close>

section \<open>Records\<close>

record certificate_record =
  cr_id :: uuid
  cr_serial_number :: string
  cr_common_name :: string
  cr_dns_names :: "string list"
  cr_ip_addresses :: "string list"
  cr_client_auth :: bool
  cr_server_auth :: bool
  cr_issuer :: string
  cr_certificate_pem :: string
  cr_issued_at :: instant
  cr_not_after :: "instant option"
  cr_revoked :: bool
  cr_revoked_at :: "instant option"
  cr_revocation_reason :: "string option"

definition certificate_record_new ::
  "uuid \<Rightarrow> instant \<Rightarrow> string \<Rightarrow> string \<Rightarrow> string list \<Rightarrow> string list \<Rightarrow> bool \<Rightarrow> bool \<Rightarrow> string \<Rightarrow> string
   \<Rightarrow> instant option \<Rightarrow> certificate_record" where
  "certificate_record_new new_id now serial cn dns ips client server iss pem na =
     \<lparr>cr_id = new_id, cr_serial_number = serial, cr_common_name = cn, cr_dns_names = dns,
      cr_ip_addresses = ips, cr_client_auth = client, cr_server_auth = server, cr_issuer = iss,
      cr_certificate_pem = pem, cr_issued_at = now, cr_not_after = na, cr_revoked = False,
      cr_revoked_at = None, cr_revocation_reason = None\<rparr>"

section \<open>The store\<close>

type_synonym records = "(uuid, certificate_record) hash_map"
type_synonym serde_error = string

record serde =
  sd_to_string_pretty :: "records \<Rightarrow> serde_error + string"
  sd_from_str :: "string \<Rightarrow> serde_error + records"

datatype certificate_store_error = Io io_error | Serialization serde_error

record certificate_store =
  st_path :: path
  st_records :: records

definition store_default :: certificate_store where
  "store_default = \<lparr>st_path = [''data'', ''pki'', ''certificates.json''], st_records = hm_empty\<rparr>"

definition store_open ::
  "serde \<Rightarrow> path \<Rightarrow> fs \<Rightarrow> fs \<times> (certificate_store_error + certificate_store)" where
  "store_open sd p w =
     (case fs_exists p w of (w1, ex) \<Rightarrow>
        if ex then
          (case fs_read_to_string p w1 of (w2, r) \<Rightarrow>
             (w2, case r of Inl e \<Rightarrow> Inl (Io e)
                  | Inr contents \<Rightarrow>
                      if trim contents = [] then Inr \<lparr>st_path = p, st_records = hm_empty\<rparr>
                      else (case sd_from_str sd contents of Inl e \<Rightarrow> Inl (Serialization e)
                            | Inr m \<Rightarrow> Inr \<lparr>st_path = p, st_records = m\<rparr>)))
        else (w1, Inr \<lparr>st_path = p, st_records = hm_empty\<rparr>))"

definition persist_parent :: "certificate_store \<Rightarrow> fs \<Rightarrow> fs \<times> (io_error + unit)" where
  "persist_parent s w =
     (case path_parent (st_path s) of None \<Rightarrow> (w, Inr ())
      | Some parent \<Rightarrow> if parent \<noteq> [] then fs_create_dir_all parent w else (w, Inr ()))"

definition store_persist ::
  "serde \<Rightarrow> certificate_store \<Rightarrow> fs \<Rightarrow> fs \<times> (certificate_store_error + unit)" where
  "store_persist sd s w =
     (case sd_to_string_pretty sd (st_records s) of Inl e \<Rightarrow> (w, Inl (Serialization e))
      | Inr serialized \<Rightarrow>
          (case persist_parent s w of
             (w1, Inl e) \<Rightarrow> (w1, Inl (Io e))
           | (w1, Inr _) \<Rightarrow>
               (let temporary_path = with_extension (st_path s) ''json.tmp'' in
                case fs_write temporary_path (as_bytes serialized) w1 of
                  (w2, Inl e) \<Rightarrow> (w2, Inl (Io e))
                | (w2, Inr _) \<Rightarrow>
                    (case fs_rename temporary_path (st_path s) w2 of
                       (w3, Inl e) \<Rightarrow> (w3, Inl (Io e))
                     | (w3, Inr _) \<Rightarrow> (w3, Inr ())))))"

definition store_insert ::
  "serde \<Rightarrow> certificate_record \<Rightarrow> certificate_store \<Rightarrow> fs
   \<Rightarrow> (certificate_store \<times> fs) \<times> (certificate_store_error + uuid)" where
  "store_insert sd r s w =
     (let i = cr_id r;
          s' = s\<lparr>st_records := hm_insert i r (st_records s)\<rparr>
      in case store_persist sd s' w of
           (w', Inl e) \<Rightarrow> ((s', w'), Inl e)
         | (w', Inr _) \<Rightarrow> ((s', w'), Inr i))"

definition store_get :: "certificate_store \<Rightarrow> uuid \<Rightarrow> certificate_record option" where
  "store_get s i = hm_get (st_records s) i"

text \<open>\<open>sort_by\<close> is stable and compares \<open>b.issued_at\<close> with \<open>a.issued_at\<close>: newest first.\<close>

definition store_list :: "certificate_store \<Rightarrow> certificate_record list" where
  "store_list s = sort_key (\<lambda>r. - cr_issued_at r) (hm_values (st_records s))"

definition store_revoke ::
  "serde \<Rightarrow> instant \<Rightarrow> uuid \<Rightarrow> string \<Rightarrow> certificate_store \<Rightarrow> fs
   \<Rightarrow> (certificate_store \<times> fs) \<times> (certificate_store_error + certificate_record option)" where
  "store_revoke sd now i reason s w =
     (case hm_get (st_records s) i of None \<Rightarrow> ((s, w), Inr None)
      | Some r \<Rightarrow>
          (let updated = (if \<not> cr_revoked r
                          then r\<lparr>cr_revoked := True, cr_revoked_at := Some now,
                                 cr_revocation_reason := Some reason\<rparr>
                          else r);
               s' = s\<lparr>st_records := hm_insert i updated (st_records s)\<rparr>
           in case store_persist sd s' w of
                (w', Inl e) \<Rightarrow> ((s', w'), Inl e)
              | (w', Inr _) \<Rightarrow> ((s', w'), Inr (Some updated))))"

definition is_revoked_serial :: "certificate_store \<Rightarrow> string \<Rightarrow> bool" where
  "is_revoked_serial s serial =
     list_ex (\<lambda>r. cr_serial_number r = serial \<and> cr_revoked r) (hm_values (st_records s))"

definition store_remove ::
  "serde \<Rightarrow> uuid \<Rightarrow> certificate_store \<Rightarrow> fs
   \<Rightarrow> (certificate_store \<times> fs) \<times> (certificate_store_error + certificate_record option)" where
  "store_remove sd i s w =
     (let removed = hm_get (st_records s) i;
          s' = s\<lparr>st_records := hm_remove i (st_records s)\<rparr>
      in if removed \<noteq> None
         then (case store_persist sd s' w of
                 (w', Inl e) \<Rightarrow> ((s', w'), Inl e)
               | (w', Inr _) \<Rightarrow> ((s', w'), Inr removed))
         else ((s', w), Inr removed))"

definition store_len :: "certificate_store \<Rightarrow> nat" where
  "store_len s = hm_len (st_records s)"

definition store_is_empty :: "certificate_store \<Rightarrow> bool" where
  "store_is_empty s = (store_len s = 0)"

section \<open>Persistence\<close>

definition regular_path :: "path \<Rightarrow> bool" where
  "regular_path p = (p \<noteq> [] \<and> last p \<noteq> ''..'')"

text \<open>Writing the file is the atomic replacement of the contract.\<close>

lemma file_at_parent [simp]: "file_at (fst (persist_parent s w)) = file_at w"
  by (simp add: persist_parent_def split: option.split)

lemma store_persist_cases:
  "store_persist sd s w =
     (case sd_to_string_pretty sd (st_records s) of Inl e \<Rightarrow> (w, Inl (Serialization e))
      | Inr t \<Rightarrow>
          (case persist_parent s w of
             (w1, Inl e) \<Rightarrow> (w1, Inl (Io e))
           | (w1, Inr _) \<Rightarrow>
               (case disk.replace (with_extension (st_path s) ''json.tmp'') (st_path s) (as_bytes t) w1 of
                  (w2, r) \<Rightarrow> (w2, map_err Io r))))"
  by (simp add: store_persist_def disk.replace_def Let_def map_err_def
      split: sum.splits prod.splits)

lemma persist_ok:
  assumes "store_persist sd s w = (w', Inr u)"
  shows "\<exists>t. sd_to_string_pretty sd (st_records s) = Inr t \<and> file_at w' (st_path s) = Some (as_bytes t)"
  using assms disk.replace_done
  by (auto simp: store_persist_cases result_simps split: sum.splits prod.splits)

lemma persist_err:
  assumes "store_persist sd s w = (w', Inl e)" and "regular_path (st_path s)"
  shows "file_at w' (st_path s) = file_at w (st_path s)"
proof -
  have ne: "with_extension (st_path s) ''json.tmp'' \<noteq> st_path s"
    using assms(2) by (simp add: regular_path_def with_json_tmp_differs)
  obtain w1 r1 where p: "persist_parent s w = (w1, r1)" by (cases "persist_parent s w")
  then have w1: "file_at w1 = file_at w" using file_at_parent[of s w] by simp
  show ?thesis
    using assms(1) p w1 disk.replace_failed[OF _ ne]
    by (auto simp: store_persist_cases result_simps split: sum.splits prod.splits)
qed

lemma persist_other:
  assumes "q \<noteq> st_path s" and "q \<noteq> with_extension (st_path s) ''json.tmp''"
  shows "file_at (fst (store_persist sd s w)) q = file_at w q"
proof -
  obtain w1 r1 where p: "persist_parent s w = (w1, r1)" by (cases "persist_parent s w")
  then have w1: "file_at w1 = file_at w" using file_at_parent[of s w] by simp
  show ?thesis
    using p w1 disk.replace_other[OF assms]
    by (auto simp: store_persist_cases split: sum.splits prod.splits) (metis fst_conv)
qed

lemma persist_free:
  assumes "sd_to_string_pretty sd (st_records s) = Inr t" and "fs_faults w = []"
  shows "\<exists>w'. store_persist sd s w = (w', Inr ()) \<and> fs_faults w' = []"
  using assms
  by (auto simp: store_persist_def persist_parent_def fs_create_dir_all_def fs_write_def fs_rename_def next_fault_free
      Let_def split: option.split)

lemma file_at_open [simp]: "file_at (fst (store_open sd p w)) = file_at w"
proof -
  obtain w1 ex where e: "fs_exists p w = (w1, ex)" by (cases "fs_exists p w")
  obtain w2 r where r: "fs_read_to_string p w1 = (w2, r)" by (cases "fs_read_to_string p w1")
  have "file_at w1 = file_at w" using file_at_exists[of p w] e by simp
  moreover have "file_at w2 = file_at w1" using file_at_read[of p w1] r by simp
  ultimately show ?thesis using e r by (simp add: store_open_def)
qed

text \<open>What \<open>serde_json\<close> documents for one map: it can be written and read back, up to the
  order of its entries; the text is not blank and valid UTF-8.\<close>

definition serde_round_trips :: "serde \<Rightarrow> records \<Rightarrow> bool" where
  "serde_round_trips sd m =
     (case sd_to_string_pretty sd m of Inl _ \<Rightarrow> False
      | Inr t \<Rightarrow> trim t \<noteq> [] \<and> utf8_valid t \<and>
          (case sd_from_str sd t of Inl _ \<Rightarrow> False | Inr m' \<Rightarrow> hm_rehash m m'))"

lemma open_persisted:
  assumes "serde_round_trips sd m" and "sd_to_string_pretty sd m = Inr t"
    and "file_at w p = Some (as_bytes t)" and "fs_faults w = []"
  shows "\<exists>m'. store_open sd p w = (w, Inr \<lparr>st_path = p, st_records = m'\<rparr>) \<and> hm_rehash m m'"
  using assms
  by (auto simp: serde_round_trips_def store_open_def fs_exists_def fs_read_to_string_def
      next_fault_free file_at_def hm_contains_def split: sum.splits)

section \<open>Steps\<close>

text \<open>
  What the server does to the store: an insertion under an id that is not in use (ids are
  fresh UUIDs), a revocation, and the map reordering its entries.
\<close>

inductive store_step :: "certificate_store \<Rightarrow> certificate_store \<Rightarrow> bool" where
  ss_insert: "store_get s (cr_id r) = None \<Longrightarrow> store_step s (fst (fst (store_insert sd r s w)))"
| ss_revoke: "store_step s (fst (fst (store_revoke sd now i reason s w)))"
| ss_rehash: "hm_rehash (st_records s) m \<Longrightarrow> store_step s (s\<lparr>st_records := m\<rparr>)"

definition store_ok :: "certificate_store \<Rightarrow> bool" where
  "store_ok s = (hm_ok (st_records s) \<and> (\<forall>i r. store_get s i = Some r \<longrightarrow> cr_id r = i))"

lemma insert_store [simp]:
  "fst (fst (store_insert sd r s w)) = s\<lparr>st_records := hm_insert (cr_id r) r (st_records s)\<rparr>"
  by (simp add: store_insert_def Let_def split: prod.split sum.split)

definition revoked_by :: "instant \<Rightarrow> string \<Rightarrow> certificate_record \<Rightarrow> certificate_record" where
  "revoked_by now reason r =
     (if cr_revoked r then r
      else r\<lparr>cr_revoked := True, cr_revoked_at := Some now, cr_revocation_reason := Some reason\<rparr>)"

lemma revoked_by_simps [simp]:
  "cr_id (revoked_by now reason r) = cr_id r" "cr_revoked (revoked_by now reason r)"
  "cr_serial_number (revoked_by now reason r) = cr_serial_number r"
  by (simp_all add: revoked_by_def)

lemma store_revoke_cases:
  "store_revoke sd now i reason s w =
     (case store_get s i of None \<Rightarrow> ((s, w), Inr None)
      | Some r \<Rightarrow>
          (case store_persist sd (s\<lparr>st_records := hm_insert i (revoked_by now reason r) (st_records s)\<rparr>) w of
             (w', q) \<Rightarrow>
               ((s\<lparr>st_records := hm_insert i (revoked_by now reason r) (st_records s)\<rparr>, w'),
                map_sum id (\<lambda>_. Some (revoked_by now reason r)) q)))"
  by (auto simp: store_revoke_def store_get_def revoked_by_def Let_def split: option.split prod.split sum.split)

lemma revoke_store:
  "fst (fst (store_revoke sd now i reason s w)) =
     (case store_get s i of None \<Rightarrow> s
      | Some r \<Rightarrow> s\<lparr>st_records := hm_insert i (revoked_by now reason r) (st_records s)\<rparr>)"
  by (simp add: store_revoke_cases split: option.split prod.split)

lemma store_step_ok:
  assumes "store_step s s'" and "store_ok s"
  shows "store_ok s'"
  using assms
proof (cases rule: store_step.cases)
  case (ss_insert r sd w)
  with assms(2) show ?thesis by (auto simp: store_ok_def store_get_def split: if_splits)
next
  case (ss_revoke sd now i reason w)
  with assms(2) show ?thesis
    by (auto simp: store_ok_def store_get_def revoke_store split: if_splits option.splits)
next
  case (ss_rehash m)
  with assms(2) show ?thesis by (simp add: store_ok_def store_get_def hm_rehash_ok hm_rehash_get)
qed

lemma store_steps_ok: "store_step\<^sup>*\<^sup>* s s' \<Longrightarrow> store_ok s \<Longrightarrow> store_ok s'"
  by (induction rule: rtranclp_induct) (auto intro: store_step_ok)

lemma store_step_revoked:
  assumes "store_step s s'" and "store_ok s" and "store_get s i = Some r" and "cr_revoked r"
  shows "store_get s' i = Some r"
  using assms
proof (cases rule: store_step.cases)
  case (ss_insert r' sd w)
  with assms show ?thesis by (auto simp: store_get_def)
next
  case (ss_revoke sd now j reason w)
  with assms show ?thesis
    by (auto simp: store_get_def revoke_store revoked_by_def split: option.splits)
next
  case (ss_rehash m)
  with assms show ?thesis by (simp add: store_ok_def store_get_def hm_rehash_get)
qed

lemma store_steps_revoked:
  assumes "store_step\<^sup>*\<^sup>* s s'" and "store_ok s" and "store_get s i = Some r" and "cr_revoked r"
  shows "store_ok s' \<and> store_get s' i = Some r"
  using assms(1)
proof (induction rule: rtranclp_induct)
  case base
  then show ?case using assms by simp
next
  case (step y z)
  then show ?case using store_step_ok[of y z] store_step_revoked[of y z i r] assms(4) by blast
qed

text \<open>A predicate on records that revoking does not change.\<close>

definition stable :: "(certificate_record \<Rightarrow> bool) \<Rightarrow> bool" where
  "stable P = (\<forall>r now reason. P r \<longrightarrow> P (revoked_by now reason r))"

lemma stable_revoked: "cr_revoked x \<Longrightarrow> stable (\<lambda>r. r = x)"
  by (simp add: stable_def revoked_by_def)

definition has_record :: "uuid \<Rightarrow> (certificate_record \<Rightarrow> bool) \<Rightarrow> certificate_store \<Rightarrow> bool" where
  "has_record i P s = (case store_get s i of None \<Rightarrow> False | Some r \<Rightarrow> P r)"

lemma has_record_step:
  assumes "store_step s s'" and "store_ok s" and "has_record i P s" and "stable P"
  shows "has_record i P s'"
  using assms(1)
proof (cases rule: store_step.cases)
  case (ss_insert r sd w)
  then show ?thesis using assms(3) by (auto simp: has_record_def store_get_def)
next
  case (ss_revoke sd now j reason w)
  then show ?thesis using assms(3,4)
    by (auto simp: has_record_def stable_def revoke_store store_get_def split: option.splits)
next
  case (ss_rehash m)
  then show ?thesis using assms(2,3) by (simp add: has_record_def store_ok_def store_get_def hm_rehash_get)
qed

lemma has_record_steps:
  assumes "store_step\<^sup>*\<^sup>* s s'" and "store_ok s" and "has_record i P s" and "stable P"
  shows "store_ok s' \<and> has_record i P s'"
  using assms(1)
proof (induction rule: rtranclp_induct)
  case (step y z)
  then show ?case using store_step_ok[of y z] has_record_step[OF step(2) _ _ assms(4)] by blast
qed (use assms in simp)

section \<open>Samples\<close>

text \<open>A codec for the maps of a given list: a map is written as its position in the list.\<close>

definition sample_serde :: "records list \<Rightarrow> serde" where
  "sample_serde ms =
     \<lparr>sd_to_string_pretty = (\<lambda>m. case position (\<lambda>x. x = m) ms of None \<Rightarrow> Inl ''unknown map''
         | Some n \<Rightarrow> Inr (show_nat n)),
      sd_from_str = (\<lambda>s. case position (\<lambda>n. show_nat n = s) [0..<length ms] of None \<Rightarrow> Inl ''bad text''
         | Some n \<Rightarrow> Inr (ms ! n))\<rparr>"

lemma sample_serde_round_trips: "serde_round_trips (sample_serde [m]) m"
  by (simp add: serde_round_trips_def sample_serde_def)

definition sample_record :: "uuid \<Rightarrow> certificate_record" where
  "sample_record i = certificate_record_new i 5 ''0a'' ''api'' [''api.internal''] [] True True ''ca'' ''PEM'' (Some 100)"

lemma sample_record_simps [simp]:
  "cr_id (sample_record i) = i" "\<not> cr_revoked (sample_record i)" "cr_serial_number (sample_record i) = ''0a''"
  by (simp_all add: sample_record_def certificate_record_new_def)

definition sample_store :: certificate_store where
  "sample_store = \<lparr>st_path = [''certificates.json''], st_records = [(1, sample_record 1)]\<rparr>"

definition sample_fs :: fs where
  "sample_fs = \<lparr>fs_files = hm_empty, fs_faults = []\<rparr>"

lemma sample_store_get: "store_get sample_store i = (if i = 1 then Some (sample_record 1) else None)"
  by (simp add: sample_store_def store_get_def hm_get_def)

lemma sample_store_ok: "store_ok sample_store"
  using sample_store_get by (simp add: store_ok_def) (simp add: sample_store_def hm_ok_def)

lemma sample_path: "regular_path (st_path sample_store)"
  by (simp add: sample_store_def regular_path_def)

section \<open>Properties\<close>

text \<open>
  C23. The store's file is replaced atomically. Whatever fails, and wherever a write is torn, after
  \<open>persist\<close> the file holds either what it held before or the whole new text; it holds the new
  text if \<open>persist\<close> returned Ok, the old contents if it returned an error, and no file but this
  one and its temporary sibling is touched.
\<close>

theorem store_file_replaced_atomically:
  assumes "regular_path (st_path s)" and "sd_to_string_pretty sd (st_records s) = Inr t"
  shows "(\<forall>w'. store_persist sd s w = (w', Inr ()) \<longrightarrow> file_at w' (st_path s) = Some (as_bytes t)) \<and>
    (\<forall>w' e. store_persist sd s w = (w', Inl e) \<longrightarrow> file_at w' (st_path s) = file_at w (st_path s)) \<and>
    (\<forall>q. q \<noteq> st_path s \<longrightarrow> q \<noteq> with_extension (st_path s) ''json.tmp'' \<longrightarrow>
       file_at (fst (store_persist sd s w)) q = file_at w q)"
  using persist_ok[of sd s w] persist_err[of sd s w] persist_other[of _ s sd w] assms by fastforce

theorem store_file_replaced_atomically_witness:
  "file_at (fst (store_persist (sample_serde [st_records sample_store]) sample_store
      (sample_fs\<lparr>fs_faults := [FailsPartial ''disk full'' 0]\<rparr>))) [''certificates.json''] = None"
proof -
  let ?w = "sample_fs\<lparr>fs_faults := [FailsPartial ''disk full'' 0]\<rparr>"
  let ?sd = "sample_serde [st_records sample_store]"
  have "sd_to_string_pretty ?sd (st_records sample_store) = Inr (show_nat 0)"
    by (simp add: sample_serde_def)
  note atomic = store_file_replaced_atomically[OF sample_path this, of ?w]
  have "store_persist ?sd sample_store ?w = (fst (store_persist ?sd sample_store ?w), Inl (Io ''disk full''))"
    by (simp add: store_persist_def sample_serde_def persist_parent_def path_parent_def sample_store_def
        fs_write_def next_fault_def Let_def)
  then have "file_at (fst (store_persist ?sd sample_store ?w)) (st_path sample_store) =
      file_at ?w (st_path sample_store)"
    using atomic by blast
  then show ?thesis by (simp add: sample_store_def file_at_def sample_fs_def)
qed

text \<open>
  An acknowledged change survives a restart. If inserting a record, or revoking one, returns
  Ok, then a store opened afterwards on the same file answers every lookup exactly as the one in
  memory, and returns that very record for its id.
\<close>

theorem acknowledged_change_survives_restart:
  assumes "store_ok s"
    and "store_insert sd r s w = ((s', w'), Inr i) \<or> store_revoke sd now i reason s w = ((s', w'), Inr (Some r))"
    and "serde_round_trips sd (st_records s')" and "fs_faults w' = []"
  shows "\<exists>s''. store_open sd (st_path s) w' = (w', Inr s'') \<and> store_get s'' = store_get s' \<and>
    store_get s'' i = Some r"
proof -
  have s': "store_persist sd s' w = (w', Inr ()) \<and> st_path s' = st_path s \<and> hm_ok (st_records s') \<and>
      store_get s' i = Some r"
    using assms(1,2)
    by (auto simp: store_insert_def store_revoke_cases store_ok_def store_get_def Let_def map_sum_def
        split: prod.splits sum.splits option.splits)
  then obtain t where t: "sd_to_string_pretty sd (st_records s') = Inr t"
    "file_at w' (st_path s) = Some (as_bytes t)" using persist_ok[of sd s' w w'] by auto
  obtain m' where "store_open sd (st_path s) w' = (w', Inr \<lparr>st_path = st_path s, st_records = m'\<rparr>)"
    and "hm_rehash (st_records s') m'"
    using open_persisted[OF assms(3) t assms(4)] by blast
  then show ?thesis using s' by (auto simp: store_get_def hm_rehash_get fun_eq_iff)
qed

theorem acknowledged_change_survives_restart_witness:
  "\<exists>s''. snd (store_open (sample_serde [[(1, sample_record 1), (2, sample_record 2)]])
       [''certificates.json'']
       (snd (fst (store_insert (sample_serde [[(1, sample_record 1), (2, sample_record 2)]])
          (sample_record 2) sample_store sample_fs)))) = Inr s'' \<and>
     store_get s'' 2 = Some (sample_record 2)"
proof -
  let ?m = "[(1, sample_record 1), (2, sample_record 2)]"
  let ?s = "sample_store\<lparr>st_records := ?m\<rparr>"
  let ?t = "[''certificates.json.tmp'']"
  let ?w = "\<lparr>fs_files = hm_insert [''certificates.json''] (as_bytes (show_nat 0))
      (hm_remove ?t (hm_insert ?t (as_bytes (show_nat 0)) hm_empty)), fs_faults = []\<rparr>"
  have m: "hm_insert 2 (sample_record 2) (st_records sample_store) = ?m"
    by (simp add: sample_store_def hm_insert_def)
  have tp: "with_extension [''certificates.json''] ''json.tmp'' = ?t" by code_simp
  have i: "store_insert (sample_serde [?m]) (sample_record 2) sample_store sample_fs = ((?s, ?w), Inr 2)"
    using tp m by (simp add: store_insert_def store_persist_def sample_serde_def persist_parent_def
        path_parent_def sample_store_def sample_fs_def fs_write_def fs_rename_def next_fault_def Let_def)
  have "serde_round_trips (sample_serde [?m]) (st_records ?s)"
    using sample_serde_round_trips by simp
  from acknowledged_change_survives_restart[OF sample_store_ok disjI1[OF i] this]
  show ?thesis using i by (auto simp: sample_store_def)
qed

text \<open>
  C22. Revocation is permanent and keeps its first reason. After a revocation of a stored
  certificate, even one whose write failed, every later step of the server leaves its record
  revoked: exactly as it was if it had been revoked before, otherwise with the instant and the
  reason of this call and nothing else changed; and its serial number counts as revoked.
\<close>

theorem revocation_permanent:
  assumes "store_ok s" and "store_get s i = Some r"
    and "store_step\<^sup>*\<^sup>* (fst (fst (store_revoke sd now i reason s w))) s'"
  shows "store_get s' i = Some (if cr_revoked r then r
      else r\<lparr>cr_revoked := True, cr_revoked_at := Some now, cr_revocation_reason := Some reason\<rparr>) \<and>
    is_revoked_serial s' (cr_serial_number r)"
proof -
  let ?s = "fst (fst (store_revoke sd now i reason s w))"
  have st: "store_step s ?s" by (rule ss_revoke)
  have g: "store_get ?s i = Some (revoked_by now reason r)"
    using assms(2) by (simp add: revoke_store) (simp add: store_get_def)
  have "store_ok s' \<and> store_get s' i = Some (revoked_by now reason r)"
    by (rule store_steps_revoked[OF assms(3) store_step_ok[OF st assms(1)] g]) simp
  moreover from this have "revoked_by now reason r \<in> set (hm_values (st_records s'))"
    by (auto simp: store_get_def intro: hm_values_get)
  then have "is_revoked_serial s' (cr_serial_number r)"
    by (auto simp: is_revoked_serial_def list_ex_iff intro!: bexI[of _ "revoked_by now reason r"])
  ultimately show ?thesis by (simp add: revoked_by_def)
qed

theorem revocation_permanent_witness:
  "is_revoked_serial (fst (fst (store_revoke (sample_serde []) 9 1 ''keyCompromise'' sample_store sample_fs))) ''0a''"
  using revocation_permanent[OF sample_store_ok _ rtranclp.rtrancl_refl, of 1 "sample_record 1"]
  by (simp add: sample_store_get)

text \<open>
  C38. A failed insertion is not taken back: when \<open>insert\<close> returns an error the record is in
  memory (listed, and found by its id) although the file still holds the previous contents, so
  the answer changes with the next restart.
\<close>

theorem failed_insert_stays_in_memory:
  assumes "regular_path (st_path s)" and "store_insert sd r s w = ((s', w'), Inl e)"
  shows "store_get s' (cr_id r) = Some r \<and> r \<in> set (store_list s') \<and>
    file_at w' (st_path s) = file_at w (st_path s)"
proof -
  have p: "store_persist sd s' w = (w', Inl e)"
    and s': "s' = s\<lparr>st_records := hm_insert (cr_id r) r (st_records s)\<rparr>"
    using assms(2) by (auto simp: store_insert_def Let_def split: prod.splits sum.splits)
  have g: "store_get s' (cr_id r) = Some r" by (simp add: s' store_get_def)
  then have "r \<in> set (store_list s')" by (auto simp: store_list_def store_get_def intro: hm_values_get)
  with g persist_err[OF p] assms(1) show ?thesis by (simp add: s')
qed

theorem failed_insert_stays_in_memory_witness:
  "store_get (fst (fst (store_insert (sample_serde []) (sample_record 2) sample_store sample_fs))) 2 =
     Some (sample_record 2)"
proof -
  have "store_insert (sample_serde []) (sample_record 2) sample_store sample_fs =
      ((fst (fst (store_insert (sample_serde []) (sample_record 2) sample_store sample_fs)), sample_fs),
       Inl (Serialization ''unknown map''))"
    by (simp add: store_insert_def store_persist_def sample_serde_def Let_def)
  from failed_insert_stays_in_memory[OF sample_path this] show ?thesis by simp
qed

text \<open>
  C37. A store that cannot look at its file starts empty and then overwrites it. If the existence
  test fails with an I/O error, \<open>open\<close> returns Ok with no records and leaves the file alone; the
  next successful insertion replaces the file by one that holds the new record only.
\<close>

theorem unreadable_store_is_overwritten:
  assumes "fs_faults w = Fails e # fl" and "store_open sd p w = (w1, res)"
    and "store_insert sd r \<lparr>st_path = p, st_records = hm_empty\<rparr> w1 = ((s', w2), Inr i)"
  shows "res = Inr \<lparr>st_path = p, st_records = hm_empty\<rparr> \<and> file_at w1 = file_at w \<and>
    (\<exists>t. sd_to_string_pretty sd [(cr_id r, r)] = Inr t \<and> file_at w2 p = Some (as_bytes t))"
proof -
  have o: "store_open sd p w = (w\<lparr>fs_faults := fl\<rparr>, Inr \<lparr>st_path = p, st_records = hm_empty\<rparr>)"
    using assms(1) by (simp add: store_open_def fs_exists_def next_fault_def)
  have s': "s' = \<lparr>st_path = p, st_records = [(cr_id r, r)]\<rparr>"
    and "store_persist sd s' w1 = (w2, Inr ())"
    using assms(3) by (auto simp: store_insert_def Let_def hm_insert_def hm_empty_def split: prod.splits sum.splits)
  then obtain t where "sd_to_string_pretty sd (st_records s') = Inr t" "file_at w2 (st_path s') = Some (as_bytes t)"
    using persist_ok by blast
  with o s' assms(2) show ?thesis by (auto simp: file_at_def)
qed

theorem unreadable_store_is_overwritten_witness:
  "snd (store_open (sample_serde [[(2, sample_record 2)]]) [''c''] (sample_fs\<lparr>fs_faults := [Fails ''EACCES'']\<rparr>)) =
     Inr \<lparr>st_path = [''c''], st_records = hm_empty\<rparr>"
proof -
  let ?sd = "sample_serde [[(2, sample_record 2)]]"
  let ?s = "\<lparr>st_path = [''c''], st_records = hm_empty\<rparr>"
  have o: "store_open ?sd [''c''] (sample_fs\<lparr>fs_faults := [Fails ''EACCES'']\<rparr>) = (sample_fs, Inr ?s)"
    by (simp add: store_open_def fs_exists_def next_fault_def sample_fs_def)
  have "snd (store_insert ?sd (sample_record 2) ?s sample_fs) = Inr 2"
    by (simp add: store_insert_def store_persist_def sample_serde_def persist_parent_def
        path_parent_def sample_fs_def fs_write_def fs_rename_def next_fault_def Let_def hm_insert_def hm_empty_def
        with_extension_def file_stem_def hm_get_def map_of_delete)
  then obtain s' w2 where i: "store_insert ?sd (sample_record 2) ?s sample_fs = ((s', w2), Inr 2)"
    by (metis prod.collapse)
  show ?thesis using unreadable_store_is_overwritten[OF _ o i] o by simp
qed

text \<open>
  C36. \<open>list\<close> returns every stored record exactly once, newest first: the issue instants do not
  increase along the list, and records of the same instant keep the map's order.
\<close>

theorem store_list_newest_first:
  "mset (store_list s) = mset (hm_values (st_records s)) \<and>
   sorted_wrt (\<lambda>a b. cr_issued_at b \<le> cr_issued_at a) (store_list s) \<and>
   filter (\<lambda>r. cr_issued_at r = t) (store_list s) = filter (\<lambda>r. cr_issued_at r = t) (hm_values (st_records s))"
proof -
  let ?f = "\<lambda>r. - cr_issued_at r"
  have "sorted (map ?f (sort_key ?f (hm_values (st_records s))))" by (rule sorted_sort_key)
  then have "sorted_wrt (\<lambda>a b. cr_issued_at b \<le> cr_issued_at a) (store_list s)"
    by (simp add: store_list_def sorted_map)
  moreover have "filter (\<lambda>r. ?f r = - t) (sort_key ?f xs) = filter (\<lambda>r. ?f r = - t) xs" for xs
    by (rule sort_key_stable)
  ultimately show ?thesis by (simp add: store_list_def)
qed

end
