(* ===== verification/Ip_Addr.thy ===== *)
theory Ip_Addr
  imports Rust_Str
begin

text \<open>
  \<open>std::net::IpAddr\<close> and its \<open>FromStr\<close>, which the issuance service applies to every
  address of a request: four decimal octets, or eight hexadecimal groups with at most one
  \<open>::\<close> and an optional trailing IPv4 address. A reader takes the rest of the text and
  returns the value with what it leaves; a reader that fails leaves the text where it was.
\<close>

datatype ip_addr = V4 "32 word" | V6 "128 word"

type_synonym 'a reader = "string \<Rightarrow> ('a \<times> string) option"

definition to_digit :: "nat \<Rightarrow> char \<Rightarrow> nat option" where
  "to_digit radix c = (case hex_val c of None \<Rightarrow> None | Some d \<Rightarrow> if d < radix then Some d else None)"

text \<open>The digits at the front of the text, at most one more than the reader allows.\<close>

fun read_digits :: "nat \<Rightarrow> nat \<Rightarrow> string \<Rightarrow> nat list \<times> string" where
  "read_digits radix 0 s = ([], s)"
| "read_digits radix (Suc n) [] = ([], [])"
| "read_digits radix (Suc n) (c # s) =
     (case to_digit radix c of None \<Rightarrow> ([], c # s)
      | Some d \<Rightarrow> (case read_digits radix n s of (ds, r) \<Rightarrow> (d # ds, r)))"

definition read_number :: "nat \<Rightarrow> nat \<Rightarrow> bool \<Rightarrow> nat \<Rightarrow> nat reader" where
  "read_number radix max_digits allow_zero_prefix bound s =
     (case read_digits radix (Suc max_digits) s of (ds, r) \<Rightarrow>
        if length ds > max_digits \<or> ds = [] then None
        else if \<not> allow_zero_prefix \<and> hd ds = 0 \<and> length ds > 1 then None
        else let v = foldl (\<lambda>a d. radix * a + d) 0 ds in
             if v < bound then Some (v, r) else None)"

definition read_given_char :: "char \<Rightarrow> string \<Rightarrow> string option" where
  "read_given_char c s = (case s of x # r \<Rightarrow> if x = c then Some r else None | [] \<Rightarrow> None)"

text \<open>An element that is preceded by the separator unless it is the first.\<close>

definition read_separator :: "char \<Rightarrow> nat \<Rightarrow> 'a reader \<Rightarrow> 'a reader" where
  "read_separator c index inner s =
     (if index > 0 then (case read_given_char c s of None \<Rightarrow> None | Some r \<Rightarrow> inner r) else inner s)"

definition read_octet :: "nat \<Rightarrow> nat reader" where
  "read_octet i = read_separator CHR ''.'' i (read_number 10 3 False 256)"

definition read_ipv4_addr :: "nat list reader" where
  "read_ipv4_addr s =
     (case read_octet 0 s of None \<Rightarrow> None | Some (a, r0) \<Rightarrow>
      (case read_octet 1 r0 of None \<Rightarrow> None | Some (b, r1) \<Rightarrow>
       (case read_octet 2 r1 of None \<Rightarrow> None | Some (c, r2) \<Rightarrow>
        (case read_octet 3 r2 of None \<Rightarrow> None | Some (d, r3) \<Rightarrow> Some ([a, b, c, d], r3)))))"

text \<open>
  Up to \<open>left\<close> more groups from position \<open>i\<close>; the boolean says whether the last two came
  from an embedded IPv4 address.
\<close>

fun read_groups :: "nat \<Rightarrow> nat \<Rightarrow> string \<Rightarrow> nat list \<times> bool \<times> string" where
  "read_groups i 0 s = ([], False, s)"
| "read_groups i (Suc left) s =
     (case (if 0 < left then read_separator CHR '':'' i read_ipv4_addr s else None) of
        Some (os, r) \<Rightarrow> ([256 * os ! 0 + os ! 1, 256 * os ! 2 + os ! 3], True, r)
      | None \<Rightarrow>
          (case read_separator CHR '':'' i (read_number 16 4 True 65536) s of
             None \<Rightarrow> ([], False, s)
           | Some (g, r) \<Rightarrow>
               (case read_groups (Suc i) left r of (gs, v4, r') \<Rightarrow> (g # gs, v4, r'))))"

definition groups_val :: "int \<Rightarrow> nat list \<Rightarrow> int" where
  "groups_val base gs = foldl (\<lambda>a g. base * a + int g) 0 gs"

definition read_ipv6_addr :: "nat list reader" where
  "read_ipv6_addr s =
     (case read_groups 0 8 s of (hd_gs, hd_v4, r) \<Rightarrow>
        if length hd_gs = 8 then Some (hd_gs, r)
        else if hd_v4 then None
        else (case read_given_char CHR '':'' r of None \<Rightarrow> None | Some r1 \<Rightarrow>
              (case read_given_char CHR '':'' r1 of None \<Rightarrow> None | Some r2 \<Rightarrow>
               (case read_groups 0 (8 - (length hd_gs + 1)) r2 of (tl_gs, _, r3) \<Rightarrow>
                  Some (hd_gs @ replicate (8 - length hd_gs - length tl_gs) 0 @ tl_gs, r3)))))"

definition parse_ip_addr :: "string \<Rightarrow> ip_addr option" where
  "parse_ip_addr s =
     (case read_ipv4_addr s of
        Some (os, r) \<Rightarrow> if r = [] then Some (V4 (word_of_int (groups_val 256 os))) else None
      | None \<Rightarrow>
          (case read_ipv6_addr s of
             Some (gs, r) \<Rightarrow> if r = [] then Some (V6 (word_of_int (groups_val 65536 gs))) else None
           | None \<Rightarrow> None))"

end
