(* ===== verification/Rcgen.thy ===== *)
theory Rcgen
  imports Ip_Addr
begin

text \<open>
  The interface of the \<open>rcgen\<close> and \<open>pem\<close> crates, as the sources use it: the parameter
  types the code fills in are datatypes and records with the crate's constructor names, and
  the crate's functions are the fields of a record that every definition using them takes as
  its first argument. Nothing is assumed about those functions here. \<open>rc_generate\<close> is the
  key pair the one call of \<open>KeyPair::generate\<close> in an operation returns. An error of the
  crate is its message.
\<close>

type_synonym rcgen_error = string

datatype dn_type = CommonName

datatype san_type = DnsName string | IpAddress ip_addr

datatype basic_constraints = Unconstrained | Constrained nat

datatype is_ca = NoCa | Ca basic_constraints

datatype key_usage_purpose = DigitalSignature | KeyEncipherment | KeyCertSign | CrlSign

datatype extended_key_usage_purpose = ServerAuth | ClientAuth

record certificate_params =
  cp_distinguished_name :: "(dn_type \<times> string) list"
  cp_subject_alt_names :: "san_type list"
  cp_is_ca :: is_ca
  cp_key_usages :: "key_usage_purpose list"
  cp_extended_key_usages :: "extended_key_usage_purpose list"
  cp_use_authority_key_identifier_extension :: bool

text \<open>A generated certificate, by the two encodings the code takes from it.\<close>

record rcgen_certificate =
  crt_pem :: string
  crt_der :: bytes

record ('key, 'iss) rcgen =
  rc_default :: certificate_params
  rc_dns_ok :: "string \<Rightarrow> bool"
  rc_generate :: "rcgen_error + 'key"
  rc_signed_by :: "certificate_params \<Rightarrow> 'key \<Rightarrow> 'iss \<Rightarrow> rcgen_error + rcgen_certificate"
  rc_self_signed :: "certificate_params \<Rightarrow> 'key \<Rightarrow> rcgen_error + rcgen_certificate"
  rc_issuer_new :: "certificate_params \<Rightarrow> 'key \<Rightarrow> 'iss"
  rc_key_from_pem :: "string \<Rightarrow> rcgen_error + 'key"
  rc_issuer_from_ca_cert_pem :: "string \<Rightarrow> 'key \<Rightarrow> rcgen_error + 'iss"
  rc_issuer_key :: "'iss \<Rightarrow> 'key"
  rc_serialize_pem :: "'key \<Rightarrow> string"
  rc_pem_contents :: "string \<Rightarrow> bytes option"

text \<open>
  What a CA kept as PEM relies on: the key encoding can be read back, a CA certificate is
  accepted with the key it was made for and the issuer keeps that key, and the DER in a
  certificate's PEM is the certificate's DER; no PEM is blank.
\<close>

definition pem_faithful :: "('key, 'iss) rcgen \<Rightarrow> bool" where
  "pem_faithful rc =
     ((\<forall>k. rc_key_from_pem rc (rc_serialize_pem rc k) = Inr k \<and> trim (rc_serialize_pem rc k) \<noteq> []) \<and>
      (\<forall>ps k. rc_issuer_key rc (rc_issuer_new rc ps k) = k) \<and>
      (\<forall>ps k crt. rc_self_signed rc ps k = Inr crt \<longrightarrow>
         trim (crt_pem crt) \<noteq> [] \<and> rc_pem_contents rc (crt_pem crt) = Some (crt_der crt) \<and>
         (\<exists>i. rc_issuer_from_ca_cert_pem rc (crt_pem crt) k = Inr i \<and> rc_issuer_key rc i = k)) \<and>
      (\<forall>ps k p crt. rc_signed_by rc ps k p = Inr crt \<longrightarrow>
         trim (crt_pem crt) \<noteq> [] \<and> rc_pem_contents rc (crt_pem crt) = Some (crt_der crt) \<and>
         (\<exists>i. rc_issuer_from_ca_cert_pem rc (crt_pem crt) k = Inr i \<and> rc_issuer_key rc i = k)))"

text \<open>What is written as PEM is a \<open>String\<close>, hence valid UTF-8.\<close>

definition pem_utf8 :: "('key, 'iss) rcgen \<Rightarrow> bool" where
  "pem_utf8 rc =
     ((\<forall>k. utf8_valid (rc_serialize_pem rc k)) \<and>
      (\<forall>ps k crt. rc_self_signed rc ps k = Inr crt \<longrightarrow> utf8_valid (crt_pem crt)) \<and>
      (\<forall>ps k i crt. rc_signed_by rc ps k i = Inr crt \<longrightarrow> utf8_valid (crt_pem crt)))"

text \<open>
  A concrete instance for the witnesses: keys and issuers are numbers, a certificate is the
  bytes of its key and issuer, its PEM those bytes between two letters, the PEM of a key a run
  of letters. Signing always succeeds.
\<close>

definition sample_crt :: "bytes \<Rightarrow> rcgen_certificate" where
  "sample_crt ds = \<lparr>crt_pem = ''P'' @ bytes_str ds @ ''E'', crt_der = ds\<rparr>"

definition sample_rcgen :: "(nat, nat) rcgen" where
  "sample_rcgen =
     \<lparr>rc_default = \<lparr>cp_distinguished_name = [(CommonName, ''rcgen self signed cert'')],
        cp_subject_alt_names = [], cp_is_ca = NoCa, cp_key_usages = [],
        cp_extended_key_usages = [], cp_use_authority_key_identifier_extension = False\<rparr>,
      rc_dns_ok = (\<lambda>s. \<forall>c \<in> set s. code c < 128),
      rc_generate = Inr 7,
      rc_signed_by = (\<lambda>ps k i. Inr (sample_crt [of_nat (k mod 128), of_nat (i mod 128)])),
      rc_self_signed = (\<lambda>ps k. Inr (sample_crt [of_nat (k mod 128)])),
      rc_issuer_new = (\<lambda>ps k. k),
      rc_key_from_pem = (\<lambda>s. Inr (length s - 1)),
      rc_issuer_from_ca_cert_pem = (\<lambda>s k. Inr k),
      rc_issuer_key = (\<lambda>i. i),
      rc_serialize_pem = (\<lambda>k. replicate (k + 1) (CHR ''K'')),
      rc_pem_contents = (\<lambda>s. Some (as_bytes (butlast (tl s))))\<rparr>"

lemma sample_pem_trim: "trim (crt_pem (sample_crt ds)) \<noteq> []"
  using trim_plain_ends[of "crt_pem (sample_crt ds)"] by (simp add: sample_crt_def plain_char_def)

lemma sample_pem_contents: "as_bytes (butlast (tl (crt_pem (sample_crt ds)))) = crt_der (sample_crt ds)"
  by (simp add: sample_crt_def butlast_append)

lemma sample_rcgen_faithful: "pem_faithful sample_rcgen"
proof -
  have "trim (replicate (k + 1) (CHR ''K'')) \<noteq> []" for k
    using trim_plain[of "replicate (k + 1) (CHR ''K'')"] by (simp add: plain_char_def)
  then show ?thesis
    by (simp add: pem_faithful_def sample_rcgen_def sample_pem_contents sample_pem_trim)
qed

lemma code_byte_char: "code (byte_char (of_nat n)) < 128" if "n < 128" for n
proof -
  have "unat b < 2 ^ LENGTH(8)" for b :: u8 by (rule unsigned_less)
  then have "code (byte_char (of_nat n)) = unat (of_nat n :: u8)" by (simp add: byte_char_def)
  also have "\<dots> = n" using that by (simp add: unat_of_nat)
  finally show ?thesis using that by simp
qed

lemma sample_rcgen_utf8: "pem_utf8 sample_rcgen"
  by (auto simp: pem_utf8_def sample_rcgen_def sample_crt_def bytes_str_def code_byte_char intro!: utf8_valid_ascii)

end
