(* ===== verification/Revocation.thy ===== *)
theory Revocation
  imports Rcgen
begin

text \<open>
  Revocation records, the certificate revocation list and the OCSP status:
  \<open>revocation/status.rs\<close>, \<open>revocation/crl.rs\<close> and \<open>revocation/ocsp.rs\<close> of
  \<open>daemon-pki-core\<close>. The signature over the list is the crate's (a parameter); the
  parameters it signs are the code's.
\<close>

section \<open>Status and records\<close>

datatype revocation_reason =
  Unspecified | KeyCompromise | CaCompromise | AffiliationChanged | Superseded
| CessationOfOperation | CertificateHold | RemoveFromCrl | PrivilegeWithdrawn | AaCompromise

datatype revocation_status = StGood | StRevoked revocation_reason instant uuid | StUnknown

definition is_revoked :: "revocation_status \<Rightarrow> bool" where
  "is_revoked s = (case s of StRevoked _ _ _ \<Rightarrow> True | _ \<Rightarrow> False)"

record revocation_record =
  rr_certificate_id :: uuid
  rr_serial_number :: string
  rr_reason :: revocation_reason
  rr_revoked_at :: instant
  rr_revoked_by :: uuid
  rr_invalidity_date :: "instant option"
  rr_comment :: "string option"

definition revocation_record_new ::
  "instant \<Rightarrow> uuid \<Rightarrow> string \<Rightarrow> revocation_reason \<Rightarrow> uuid \<Rightarrow> revocation_record" where
  "revocation_record_new now cid serial reason by_id =
     \<lparr>rr_certificate_id = cid, rr_serial_number = serial, rr_reason = reason, rr_revoked_at = now,
      rr_revoked_by = by_id, rr_invalidity_date = None, rr_comment = None\<rparr>"

definition with_invalidity_date :: "instant \<Rightarrow> revocation_record \<Rightarrow> revocation_record" where
  "with_invalidity_date d r = r\<lparr>rr_invalidity_date := Some d\<rparr>"

definition with_comment :: "string \<Rightarrow> revocation_record \<Rightarrow> revocation_record" where
  "with_comment c r = r\<lparr>rr_comment := Some c\<rparr>"

section \<open>OCSP\<close>

record ocsp_status =
  oc_status :: revocation_status
  oc_produced_at :: instant
  oc_this_update :: instant
  oc_next_update :: "instant option"

definition ocsp_good :: "instant \<Rightarrow> ocsp_status" where
  "ocsp_good now = \<lparr>oc_status = StGood, oc_produced_at = now, oc_this_update = now, oc_next_update = None\<rparr>"

definition ocsp_revoked :: "instant \<Rightarrow> revocation_status \<Rightarrow> ocsp_status" where
  "ocsp_revoked now s = \<lparr>oc_status = s, oc_produced_at = now, oc_this_update = now, oc_next_update = None\<rparr>"

definition ocsp_unknown :: "instant \<Rightarrow> ocsp_status" where
  "ocsp_unknown now =
     \<lparr>oc_status = StUnknown, oc_produced_at = now, oc_this_update = now, oc_next_update = None\<rparr>"

section \<open>The list\<close>

record crl_entry =
  ce_serial_number :: string
  ce_reason :: revocation_reason
  ce_revoked_at :: instant

record certificate_revocation_list =
  crl_id :: uuid
  crl_issuer :: string
  crl_generated_at :: instant
  crl_next_update :: instant
  crl_entries :: "crl_entry list"

definition crl_new :: "uuid \<Rightarrow> instant \<Rightarrow> string \<Rightarrow> instant \<Rightarrow> certificate_revocation_list" where
  "crl_new new_id now iss next_update =
     \<lparr>crl_id = new_id, crl_issuer = iss, crl_generated_at = now, crl_next_update = next_update,
      crl_entries = []\<rparr>"

definition add_record ::
  "revocation_record \<Rightarrow> certificate_revocation_list \<Rightarrow> certificate_revocation_list" where
  "add_record r crl = crl\<lparr>crl_entries := crl_entries crl @
     [\<lparr>ce_serial_number = rr_serial_number r, ce_reason = rr_reason r, ce_revoked_at = rr_revoked_at r\<rparr>]\<rparr>"

definition crl_len :: "certificate_revocation_list \<Rightarrow> nat" where
  "crl_len crl = length (crl_entries crl)"

definition crl_is_empty :: "certificate_revocation_list \<Rightarrow> bool" where
  "crl_is_empty crl = (crl_entries crl = [])"

definition contains_serial :: "string \<Rightarrow> certificate_revocation_list \<Rightarrow> bool" where
  "contains_serial s crl = list_ex (\<lambda>e. ce_serial_number e = s) (crl_entries crl)"

section \<open>Signing\<close>

datatype rcgen_revocation_reason =
  RcUnspecified | RcKeyCompromise | RcCaCompromise | RcAffiliationChanged | RcSuperseded
| RcCessationOfOperation | RcCertificateHold | RcRemoveFromCrl | RcPrivilegeWithdrawn | RcAaCompromise

datatype serial_number = SerialBytes bytes | SerialU64 u64

datatype key_id_method = Sha256

record revoked_cert_params =
  rv_serial_number :: serial_number
  rv_revocation_time :: instant
  rv_reason_code :: "rcgen_revocation_reason option"
  rv_invalidity_date :: "instant option"

record crl_params =
  lp_this_update :: instant
  lp_next_update :: instant
  lp_crl_number :: serial_number
  lp_issuing_distribution_point :: "unit option"
  lp_revoked_certs :: "revoked_cert_params list"
  lp_key_identifier_method :: key_id_method

datatype crl_error = Generation rcgen_error | InvalidSerialNumber

definition map_reason :: "revocation_reason \<Rightarrow> rcgen_revocation_reason" where
  "map_reason r =
     (case r of Unspecified \<Rightarrow> RcUnspecified | KeyCompromise \<Rightarrow> RcKeyCompromise
      | CaCompromise \<Rightarrow> RcCaCompromise | AffiliationChanged \<Rightarrow> RcAffiliationChanged
      | Superseded \<Rightarrow> RcSuperseded | CessationOfOperation \<Rightarrow> RcCessationOfOperation
      | CertificateHold \<Rightarrow> RcCertificateHold | RemoveFromCrl \<Rightarrow> RcRemoveFromCrl
      | PrivilegeWithdrawn \<Rightarrow> RcPrivilegeWithdrawn | AaCompromise \<Rightarrow> RcAaCompromise)"

text \<open>
  The iterator of \<open>hex_to_bytes\<close> over the even indices: a slice off a character boundary
  panics, and \<open>collect\<close> stops at the first pair that is no number.
\<close>

fun hex_collect :: "string \<Rightarrow> nat list \<Rightarrow> bytes option may_panic" where
  "hex_collect s [] = Done (Some [])"
| "hex_collect s (i # is) =
     (case str_slice s i (i + 2) of None \<Rightarrow> Panic
      | Some t \<Rightarrow>
          (case parse_hex_u8 t of None \<Rightarrow> Done None
           | Some b \<Rightarrow>
               (case hex_collect s is of Panic \<Rightarrow> Panic
                | Done r \<Rightarrow> Done (map_option (\<lambda>bs. b # bs) r))))"

definition hex_to_bytes :: "string \<Rightarrow> bytes option may_panic" where
  "hex_to_bytes s =
     (if s = [] \<or> length s mod 2 \<noteq> 0 then Done None
      else hex_collect s (map (\<lambda>k. 2 * k) [0..<length s div 2]))"

fun revoked_params :: "crl_entry list \<Rightarrow> (crl_error + revoked_cert_params list) may_panic" where
  "revoked_params [] = Done (Inr [])"
| "revoked_params (e # es) =
     (case hex_to_bytes (ce_serial_number e) of Panic \<Rightarrow> Panic
      | Done None \<Rightarrow> Done (Inl InvalidSerialNumber)
      | Done (Some bs) \<Rightarrow>
          (let p = \<lparr>rv_serial_number = SerialBytes bs, rv_revocation_time = ce_revoked_at e,
                    rv_reason_code = Some (map_reason (ce_reason e)), rv_invalidity_date = None\<rparr>
           in case revoked_params es of Panic \<Rightarrow> Panic
              | Done (Inl err) \<Rightarrow> Done (Inl err)
              | Done (Inr ps) \<Rightarrow> Done (Inr (p # ps))))"

text \<open>\<open>sign\<close> is \<open>CertificateRevocationListParams::signed_by\<close>, giving the list's DER.\<close>

definition signed_der ::
  "(crl_params \<Rightarrow> 'iss \<Rightarrow> rcgen_error + bytes) \<Rightarrow> 'iss \<Rightarrow> u64 \<Rightarrow> certificate_revocation_list
   \<Rightarrow> (crl_error + bytes) may_panic" where
  "signed_der sign iss crl_number crl =
     (case revoked_params (crl_entries crl) of Panic \<Rightarrow> Panic
      | Done (Inl e) \<Rightarrow> Done (Inl e)
      | Done (Inr revoked_certs) \<Rightarrow>
          (let ps = \<lparr>lp_this_update = crl_generated_at crl, lp_next_update = crl_next_update crl,
                     lp_crl_number = SerialU64 crl_number, lp_issuing_distribution_point = None,
                     lp_revoked_certs = revoked_certs, lp_key_identifier_method = Sha256\<rparr>
           in Done (map_err Generation (sign ps iss))))"

section \<open>Lemmas\<close>

definition ascii :: "string \<Rightarrow> bool" where
  "ascii s = (\<forall>c \<in> set s. code c < 128)"

lemma ascii_slice:
  assumes "ascii s" and "i + 2 \<le> length s"
  shows "str_slice s i (i + 2) = Some (take 2 (drop i s))"
proof -
  have "is_char_boundary s j" if "j \<le> length s" for j
  proof (cases "j < length s")
    case True
    then have "code (s ! j) < 128" using assms(1) nth_mem by (simp add: ascii_def)
    with True show ?thesis by (simp add: is_char_boundary_def)
  qed (use that in \<open>simp add: is_char_boundary_def\<close>)
  with assms(2) show ?thesis by (simp add: str_slice_def)
qed

lemma hex_collect_hex:
  assumes "ascii pre"
  shows "hex_collect (pre @ hex_of_bytes bs) (map (\<lambda>k. length pre + 2 * k) [0..<length bs]) = Done (Some bs)"
  using assms
proof (induction bs arbitrary: pre)
  case (Cons b bs)
  let ?s = "pre @ hex_of_bytes (b # bs)"
  have s: "?s = (pre @ hex_byte b) @ hex_of_bytes bs" by (simp add: hex_of_bytes_def)
  have asc: "ascii (pre @ hex_byte b)" using Cons.prems by (auto simp: ascii_def dest: hex_byte_ascii)
  have "ascii ?s" using Cons.prems by (auto simp: ascii_def dest: hex_of_bytes_ascii)
  then have sl: "str_slice ?s (length pre) (length pre + 2) = Some (hex_byte b)"
    by (subst ascii_slice) (simp_all add: hex_of_bytes_def)
  have ix: "map (\<lambda>k. length pre + 2 * k) [0..<length (b # bs)] =
      length pre # map (\<lambda>k. length (pre @ hex_byte b) + 2 * k) [0..<length bs]"
    by (simp add: upt_conv_Cons map_Suc_upt[symmetric] comp_def del: upt_Suc)
  show ?case
    unfolding ix hex_collect.simps sl
    using Cons.IH[OF asc] by (simp only: option.case parse_hex_byte s) simp
qed simp

lemma hex_round_trip: "bs \<noteq> [] \<Longrightarrow> hex_to_bytes (hex_of_bytes bs) = Done (Some bs)"
  using hex_collect_hex[of "[]" bs]
  by (simp add: hex_to_bytes_def ascii_def) (auto simp: hex_of_bytes_def hex_byte_def)

lemma hex_collect_ascii:
  assumes "ascii s" and "\<forall>i \<in> set is. i + 2 \<le> length s"
  shows "hex_collect s is \<noteq> Panic"
  using assms
  by (induction "is")
    (auto simp: ascii_slice simp del: add_2_eq_Suc' split: option.split may_panic.split)

lemma hex_to_bytes_ascii:
  assumes "ascii s"
  shows "hex_to_bytes s \<noteq> Panic"
proof -
  have "\<forall>i \<in> set (map (\<lambda>k. 2 * k) [0..<length s div 2]). i + 2 \<le> length s" by auto
  then show ?thesis using hex_collect_ascii[OF assms] by (simp add: hex_to_bytes_def)
qed

lemma hex_collect_length:
  "hex_collect s is = Done (Some bs) \<Longrightarrow> length bs = length is"
  by (induction "is" arbitrary: bs) (auto split: option.splits may_panic.splits)

lemma hex_to_bytes_length:
  "hex_to_bytes s = Done (Some bs) \<Longrightarrow> s \<noteq> [] \<and> length s = 2 * length bs"
  by (auto simp: hex_to_bytes_def split: if_splits dest: hex_collect_length)

definition entry_ok :: "crl_entry \<Rightarrow> bytes \<Rightarrow> bool" where
  "entry_ok e bs = (hex_to_bytes (ce_serial_number e) = Done (Some bs))"

definition revoked_param :: "crl_entry \<Rightarrow> bytes \<Rightarrow> revoked_cert_params" where
  "revoked_param e bs = \<lparr>rv_serial_number = SerialBytes bs, rv_revocation_time = ce_revoked_at e,
     rv_reason_code = Some (map_reason (ce_reason e)), rv_invalidity_date = None\<rparr>"

lemma revoked_params_intro:
  "list_all2 entry_ok es bss \<Longrightarrow> revoked_params es = Done (Inr (map2 revoked_param es bss))"
  by (induction rule: list_all2_induct) (simp_all add: entry_ok_def revoked_param_def Let_def)

lemma revoked_params_elim:
  "revoked_params es = Done (Inr ps) \<Longrightarrow> \<exists>bss. list_all2 entry_ok es bss"
proof (induction es arbitrary: ps)
  case (Cons e es)
  from Cons.prems obtain bs qs where bs: "hex_to_bytes (ce_serial_number e) = Done (Some bs)"
    and qs: "revoked_params es = Done (Inr qs)"
    by (auto simp: Let_def split: may_panic.splits option.splits sum.splits)
  obtain bss where "list_all2 entry_ok es bss" using Cons.IH[OF qs] by blast
  moreover have "entry_ok e bs" using bs by (simp only: entry_ok_def)
  ultimately have "list_all2 entry_ok (e # es) (bs # bss)" by (simp only: list_all2_Cons)
  then show ?case by blast
qed (use list_all2_Nil in blast)

lemma revoked_params_ok:
  "revoked_params es = Done (Inr ps) \<longleftrightarrow>
     (\<exists>bss. list_all2 entry_ok es bss \<and> ps = map2 revoked_param es bss)"
  using revoked_params_elim[of es ps] revoked_params_intro[of es] by fastforce

lemma revoked_params_member:
  assumes "revoked_params es = Done (Inr ps)" and "e \<in> set es"
    and "hex_to_bytes (ce_serial_number e) = Done (Some bs)"
  shows "revoked_param e bs \<in> set ps"
  using assms
proof (induction es arbitrary: ps)
  case (Cons x es)
  from Cons.prems(1) obtain b qs where b: "hex_to_bytes (ce_serial_number x) = Done (Some b)"
    and qs: "revoked_params es = Done (Inr qs)" and ps: "ps = revoked_param x b # qs"
    by (auto simp: Let_def revoked_param_def split: may_panic.splits option.splits sum.splits)
  show ?case using Cons.IH[OF qs] Cons.prems(2,3) b ps by auto
qed simp

lemma revoked_params_bad:
  "revoked_params es = Done (Inl e) \<Longrightarrow> e = InvalidSerialNumber"
  by (induction es) (auto simp: Let_def split: may_panic.splits option.splits sum.splits)

lemma revoked_params_ascii:
  "\<forall>e \<in> set es. ascii (ce_serial_number e) \<Longrightarrow> revoked_params es \<noteq> Panic"
  by (induction es)
    (auto simp: hex_to_bytes_ascii Let_def split: may_panic.splits option.splits sum.splits)

lemma signed_der_params:
  assumes "signed_der signer iss n crl = Done (Inr der)"
  shows "\<exists>ps. revoked_params (crl_entries crl) = Done (Inr (lp_revoked_certs ps)) \<and> signer ps iss = Inr der"
proof -
  obtain rs where "revoked_params (crl_entries crl) = Done (Inr rs)"
    and "signer \<lparr>lp_this_update = crl_generated_at crl, lp_next_update = crl_next_update crl,
        lp_crl_number = SerialU64 n, lp_issuing_distribution_point = None, lp_revoked_certs = rs,
        lp_key_identifier_method = Sha256\<rparr> iss = Inr der"
    using assms by (auto simp: signed_der_def Let_def result_simps split: may_panic.splits sum.splits)
  then show ?thesis
    by (intro exI[of _ "\<lparr>lp_this_update = crl_generated_at crl, lp_next_update = crl_next_update crl,
        lp_crl_number = SerialU64 n, lp_issuing_distribution_point = None, lp_revoked_certs = rs,
        lp_key_identifier_method = Sha256\<rparr>"]) simp
qed

lemma map_reason_inj: "map_reason a = map_reason b \<longleftrightarrow> a = b"
  by (cases a; cases b) (simp_all add: map_reason_def)

section \<open>Properties\<close>

text \<open>
  Serial numbers survive the journey from an issued certificate into a revocation list:
  decoding the lower-case hexadecimal text the issuance service stores gives back the bytes,
  different bytes have different texts, no ASCII text makes the decoder panic, and what it
  accepts has an even, positive length and twice as many characters as bytes.
\<close>

theorem serial_hex_round_trip:
  assumes "bs \<noteq> []" and "ascii s" and "hex_to_bytes u = Done (Some ds)"
  shows "hex_to_bytes (hex_of_bytes bs) = Done (Some bs) \<and>
    (hex_of_bytes bs = hex_of_bytes cs \<longleftrightarrow> bs = cs) \<and>
    hex_to_bytes s \<noteq> Panic \<and>
    u \<noteq> [] \<and> length u = 2 * length ds"
  using hex_round_trip[OF assms(1)] hex_of_bytes_inj[of bs cs] hex_to_bytes_ascii[OF assms(2)]
    hex_to_bytes_length[OF assms(3)] by auto

theorem serial_hex_round_trip_witness:
  "hex_to_bytes (hex_of_bytes [15, 160]) = Done (Some [15, 160])"
proof -
  have "hex_to_bytes ''0FA0'' = Done (Some [15, 160])" by code_simp
  from serial_hex_round_trip[of "[15, 160]" "''zz''", OF _ _ this] show ?thesis
    by (simp add: ascii_def)
qed

text \<open>
  A revocation list is signed with exactly its entries. Signing succeeds with some bytes if
  and only if every entry's serial number decodes and the signer accepts, for the list's own
  dates and the given number, the entries in order, each with its decoded serial, its revocation
  time and its own reason; one entry whose serial does not decode makes the whole list fail, and
  nothing is signed then.
\<close>

theorem signed_list_has_exactly_the_entries:
  "signed_der signer iss n crl = Done (Inr der) \<longleftrightarrow>
     (\<exists>bss. list_all2 (\<lambda>e bs. hex_to_bytes (ce_serial_number e) = Done (Some bs)) (crl_entries crl) bss \<and>
        signer \<lparr>lp_this_update = crl_generated_at crl, lp_next_update = crl_next_update crl,
             lp_crl_number = SerialU64 n, lp_issuing_distribution_point = None,
             lp_revoked_certs =
               map2 (\<lambda>e bs. \<lparr>rv_serial_number = SerialBytes bs, rv_revocation_time = ce_revoked_at e,
                       rv_reason_code = Some (map_reason (ce_reason e)), rv_invalidity_date = None\<rparr>)
                 (crl_entries crl) bss,
             lp_key_identifier_method = Sha256\<rparr> iss = Inr der)"
  (is "_ = ?R")
proof -
  have eok: "entry_ok = (\<lambda>e bs. hex_to_bytes (ce_serial_number e) = Done (Some bs))"
    by (intro ext) (simp add: entry_ok_def)
  have rp: "revoked_param = (\<lambda>e bs. \<lparr>rv_serial_number = SerialBytes bs, rv_revocation_time = ce_revoked_at e,
     rv_reason_code = Some (map_reason (ce_reason e)), rv_invalidity_date = None\<rparr>)"
    by (intro ext) (simp add: revoked_param_def)
  have "signed_der signer iss n crl = Done (Inr der) \<longleftrightarrow>
      (\<exists>ps. revoked_params (crl_entries crl) = Done (Inr ps) \<and>
        signer \<lparr>lp_this_update = crl_generated_at crl, lp_next_update = crl_next_update crl,
             lp_crl_number = SerialU64 n, lp_issuing_distribution_point = None,
             lp_revoked_certs = ps, lp_key_identifier_method = Sha256\<rparr> iss = Inr der)"
    by (auto simp: signed_der_def Let_def result_simps split: may_panic.splits sum.splits)
  also have "\<dots> \<longleftrightarrow> ?R" unfolding revoked_params_ok eok rp by blast
  finally show ?thesis .
qed

text \<open>
  C29. One serial number that is no hexadecimal text blocks the whole list: if some entry's serial
  fails to decode and all serials are ASCII, then signing fails with \<open>InvalidSerialNumber\<close>
  whatever the other entries are, for every signer and every CRL number.
\<close>

theorem bad_serial_blocks_list:
  assumes "\<forall>e \<in> set (crl_entries crl). ascii (ce_serial_number e)"
    and "e \<in> set (crl_entries crl)" and "hex_to_bytes (ce_serial_number e) = Done None"
  shows "signed_der signer iss n crl = Done (Inl InvalidSerialNumber)"
proof -
  have "revoked_params (crl_entries crl) \<noteq> Done (Inr ps)" for ps
  proof
    assume "revoked_params (crl_entries crl) = Done (Inr ps)"
    then obtain bss where "list_all2 entry_ok (crl_entries crl) bss"
      by (auto dest: revoked_params_elim)
    then obtain bs where "entry_ok e bs" using assms(2) by (auto simp: list_all2_conv_all_nth in_set_conv_nth)
    with assms(3) show False by (simp add: entry_ok_def)
  qed
  then show ?thesis using revoked_params_ascii[OF assms(1)] revoked_params_bad
    by (auto simp: signed_der_def split: may_panic.splits sum.splits)
qed

theorem bad_serial_blocks_list_witness:
  "signed_der (\<lambda>ps i. Inr []) (0::nat) 1
     \<lparr>crl_id = 1, crl_issuer = ''ca'', crl_generated_at = 0, crl_next_update = 7,
      crl_entries = [\<lparr>ce_serial_number = ''0a'', ce_reason = KeyCompromise, ce_revoked_at = 3\<rparr>,
        \<lparr>ce_serial_number = ''zz'', ce_reason = Superseded, ce_revoked_at = 4\<rparr>]\<rparr> =
   Done (Inl InvalidSerialNumber)"
proof -
  have bad: "hex_to_bytes ''zz'' = Done None" by code_simp
  show ?thesis
    by (rule bad_serial_blocks_list[where e = "\<lparr>ce_serial_number = ''zz'', ce_reason = Superseded, ce_revoked_at = 4\<rparr>"])
      (simp_all add: ascii_def bad)
qed

end
