(* ===== verification/Crl_Manager.thy ===== *)
theory Crl_Manager
  imports Cert_Store Revocation
begin

text \<open>
  \<open>CrlManager\<close> of \<open>daemon-pki-api/src/crl.rs\<close>: it numbers, fills, signs and stores the
  revocation list. \<open>anyhow\<close>'s errors are told apart by the context the code attaches. The
  manager holds no lock, so the steps of two calls may interleave; a call is modelled as one
  pass over the file system.
\<close>

section \<open>Reasons\<close>

definition parse_reason :: "string \<Rightarrow> revocation_reason" where
  "parse_reason value =
     (let v = to_ascii_lowercase (trim value) in
      if v \<in> set [''keycompromise'', ''key_compromise'', ''key compromise''] then KeyCompromise
      else if v \<in> set [''cacompromise'', ''ca_compromise'', ''ca compromise''] then CaCompromise
      else if v \<in> set [''affiliationchanged'', ''affiliation_changed'', ''affiliation changed'']
      then AffiliationChanged
      else if v = ''superseded'' then Superseded
      else if v \<in> set [''cessationofoperation'', ''cessation_of_operation'', ''cessation of operation'']
      then CessationOfOperation
      else if v \<in> set [''certificatehold'', ''certificate_hold'', ''certificate hold''] then CertificateHold
      else if v \<in> set [''removefromcrl'', ''remove_from_crl'', ''remove from crl''] then RemoveFromCrl
      else if v \<in> set [''privilegelwithdrawn'', ''privilegewithdrawn'', ''privilege_withdrawn'', ''privilege withdrawn'']
      then PrivilegeWithdrawn
      else if v \<in> set [''aacompromise'', ''aa_compromise'', ''aa compromise''] then AaCompromise
      else Unspecified)"

section \<open>Numbering\<close>

datatype crl_manager_error =
  CmReadNumber io_error | CmInvalidNumber | CmNumberExhausted | CmPersistNumber io_error
| CmSign crl_error | CmPersistCrl io_error

definition crl_number_path :: "path \<Rightarrow> path" where
  "crl_number_path dir = path_join dir ''crl-number''"

definition crl_der_path :: "path \<Rightarrow> path" where
  "crl_der_path dir = path_join dir ''intermediate-ca.crl.der''"

definition current_crl_number :: "path \<Rightarrow> fs \<Rightarrow> fs \<times> (crl_manager_error + u64)" where
  "current_crl_number p w =
     (case fs_exists p w of (w1, ex) \<Rightarrow>
        if ex then
          (case fs_read_to_string p w1 of
             (w2, Inl e) \<Rightarrow> (w2, Inl (CmReadNumber e))
           | (w2, Inr v) \<Rightarrow> (w2, ok_or (parse_u64 (trim v)) CmInvalidNumber))
        else (w1, Inr 0))"

definition next_crl_number :: "path \<Rightarrow> fs \<Rightarrow> fs \<times> (crl_manager_error + u64)" where
  "next_crl_number dir w =
     (let p = crl_number_path dir in
      case current_crl_number p w of
        (w1, Inl e) \<Rightarrow> (w1, Inl e)
      | (w1, Inr current) \<Rightarrow>
          (case checked_add current 1 of None \<Rightarrow> (w1, Inl CmNumberExhausted)
           | Some n \<Rightarrow>
               (case fs_write p (as_bytes (show_nat (unat n))) w1 of
                  (w2, Inl e) \<Rightarrow> (w2, Inl (CmPersistNumber e))
                | (w2, Inr _) \<Rightarrow> (w2, Inr n))))"

section \<open>Generation\<close>

definition record_of_certificate :: "instant \<Rightarrow> certificate_record \<Rightarrow> revocation_record" where
  "record_of_certificate now c =
     \<lparr>rr_certificate_id = cr_id c, rr_serial_number = cr_serial_number c,
      rr_reason = parse_reason (case cr_revocation_reason c of None \<Rightarrow> ''unspecified'' | Some s \<Rightarrow> s),
      rr_revoked_at = (case cr_revoked_at c of None \<Rightarrow> now | Some t \<Rightarrow> t),
      rr_revoked_by = uuid_nil, rr_invalidity_date = None, rr_comment = None\<rparr>"

fun add_revoked ::
  "instant \<Rightarrow> certificate_record list \<Rightarrow> certificate_revocation_list \<Rightarrow> certificate_revocation_list"
where
  "add_revoked now [] crl = crl"
| "add_revoked now (c # cs) crl =
     (if \<not> cr_revoked c then add_revoked now cs crl
      else add_revoked now cs (add_record (record_of_certificate now c) crl))"

definition seven_days :: int where
  "seven_days = 7 * 24 * 3600 * nanos_per_sec"

text \<open>\<open>now\<close> is the reading for \<open>next_update\<close>, \<open>t\<close> the one in \<open>CertificateRevocationList::new\<close>.\<close>

definition crl_for_store ::
  "uuid \<Rightarrow> instant \<Rightarrow> instant \<Rightarrow> certificate_store \<Rightarrow> certificate_revocation_list" where
  "crl_for_store new_id now t s =
     add_revoked now (store_list s)
       (crl_new new_id t ''Daemon PKI Intermediate CA'' (now + seven_days))"

definition generate_and_persist ::
  "(crl_params \<Rightarrow> 'iss \<Rightarrow> rcgen_error + bytes) \<Rightarrow> 'iss \<Rightarrow> path \<Rightarrow> uuid \<Rightarrow> instant \<Rightarrow> instant
   \<Rightarrow> certificate_store \<Rightarrow> fs \<Rightarrow> (fs \<times> (crl_manager_error + bytes)) may_panic" where
  "generate_and_persist signer iss dir new_id now t s w =
     (case next_crl_number dir w of
        (w1, Inl e) \<Rightarrow> Done (w1, Inl e)
      | (w1, Inr crl_number) \<Rightarrow>
          (case signed_der signer iss crl_number (crl_for_store new_id now t s) of
             Panic \<Rightarrow> Panic
           | Done (Inl e) \<Rightarrow> Done (w1, Inl (CmSign e))
           | Done (Inr der) \<Rightarrow>
               (case fs_write (crl_der_path dir) der w1 of
                  (w2, Inl e) \<Rightarrow> Done (w2, Inl (CmPersistCrl e))
                | (w2, Inr _) \<Rightarrow> Done (w2, Inr der))))"

section \<open>Lemmas\<close>

definition entry_of :: "instant \<Rightarrow> certificate_record \<Rightarrow> crl_entry" where
  "entry_of now c =
     \<lparr>ce_serial_number = cr_serial_number c,
      ce_reason = parse_reason (case cr_revocation_reason c of None \<Rightarrow> ''unspecified'' | Some s \<Rightarrow> s),
      ce_revoked_at = (case cr_revoked_at c of None \<Rightarrow> now | Some t \<Rightarrow> t)\<rparr>"

lemma add_revoked_entries:
  "crl_entries (add_revoked now cs crl) = crl_entries crl @ map (entry_of now) (filter cr_revoked cs)"
  by (induction cs arbitrary: crl) (auto simp: add_record_def record_of_certificate_def entry_of_def)

lemma crl_for_store_entries:
  "crl_entries (crl_for_store i now t s) = map (entry_of now) (filter cr_revoked (store_list s))"
  by (simp add: crl_for_store_def add_revoked_entries crl_new_def)

lemma set_store_list [simp]: "set (store_list s) = set (hm_values (st_records s))"
  by (simp add: store_list_def)

lemma crl_contains_iff: "contains_serial sn (crl_for_store i now t s) \<longleftrightarrow> is_revoked_serial s sn"
  by (auto simp: contains_serial_def is_revoked_serial_def list_ex_iff crl_for_store_entries entry_of_def)

text \<open>The number the file stands for: 0 where there is none.\<close>

definition stored_number :: "path \<Rightarrow> fs \<Rightarrow> u64 option" where
  "stored_number dir w =
     (case file_at w (crl_number_path dir) of None \<Rightarrow> Some 0
      | Some bs \<Rightarrow> if utf8_valid (bytes_str bs) then parse_u64 (trim (bytes_str bs)) else None)"

definition exists_works :: "fs \<Rightarrow> bool" where
  "exists_works w = (fst (next_fault w) = NoFault)"

lemma current_crl_number_ok:
  assumes "exists_works w" and "current_crl_number (crl_number_path dir) w = (w1, Inr c)"
  shows "stored_number dir w = Some c"
proof -
  obtain w0 where w0: "next_fault w = (NoFault, w0)" using assms(1) by (cases "next_fault w") (simp add: exists_works_def)
  then have f0: "file_at w0 = file_at w" using next_fault_at[of w] by simp
  note g = file_at_files[OF f0]
  obtain f w00 where w00: "next_fault w0 = (f, w00)" by (cases "next_fault w0")
  then have "file_at w00 = file_at w" using next_fault_at[of w0] f0 by simp
  note g2 = file_at_files[OF this]
  show ?thesis using assms(2)
    by (auto simp: current_crl_number_def fs_exists_def w0 fs_read_to_string_def w00 g g2 hm_contains_def
        stored_number_def result_simps split: if_splits fault.splits option.splits)
qed

lemma file_at_current [simp]: "file_at (fst (current_crl_number p w)) = file_at w"
proof -
  obtain w1 ex where e: "fs_exists p w = (w1, ex)" by (cases "fs_exists p w")
  obtain w2 r where r: "fs_read_to_string p w1 = (w2, r)" by (cases "fs_read_to_string p w1")
  have "file_at w1 = file_at w" using file_at_exists[of p w] e by simp
  moreover have "file_at w2 = file_at w1" using file_at_read[of p w1] r by simp
  ultimately show ?thesis using e r by (simp add: current_crl_number_def split: sum.split)
qed

lemma stored_number_cong:
  "file_at w' (crl_number_path dir) = file_at w (crl_number_path dir) \<Longrightarrow> stored_number dir w' = stored_number dir w"
  by (simp add: stored_number_def)

lemma stored_number_written:
  "file_at w (crl_number_path dir) = Some (as_bytes (show_nat (unat n))) \<Longrightarrow> stored_number dir w = Some n"
  by (simp add: stored_number_def parse_show_u64)

lemma next_crl_number_ok:
  assumes "next_crl_number dir w = (w', Inr n)"
  shows "\<exists>c w1. current_crl_number (crl_number_path dir) w = (w1, Inr c) \<and> unat n = unat c + 1 \<and>
    stored_number dir w' = Some n \<and> (\<forall>q. q \<noteq> crl_number_path dir \<longrightarrow> file_at w' q = file_at w q)"
proof -
  from assms obtain c w1 where c: "current_crl_number (crl_number_path dir) w = (w1, Inr c)"
    and n: "checked_add c 1 = Some n"
    and wr: "fs_write (crl_number_path dir) (as_bytes (show_nat (unat n))) w1 = (w', Inr ())"
    by (auto simp: next_crl_number_def Let_def split: prod.splits sum.splits option.splits)
  have "file_at w1 = file_at w" using file_at_current[of "crl_number_path dir" w] c by simp
  then have "file_at w' = (file_at w)(crl_number_path dir \<mapsto> as_bytes (show_nat (unat n)))"
    using fs_write_ok[OF wr] by simp
  then show ?thesis using c n stored_number_written[of w' dir n] by (auto simp: checked_add_Some)
qed

lemma generate_signs:
  assumes "generate_and_persist signer iss dir new_id now t s w = Done (w', Inr der)"
  shows "\<exists>ps. revoked_params (crl_entries (crl_for_store new_id now t s)) = Done (Inr (lp_revoked_certs ps)) \<and>
    signer ps iss = Inr der"
proof -
  obtain n where "signed_der signer iss n (crl_for_store new_id now t s) = Done (Inr der)"
    using assms by (auto simp: generate_and_persist_def split: prod.splits sum.splits may_panic.splits)
  then show ?thesis by (rule signed_der_params)
qed

lemma crl_paths_differ: "crl_der_path dir \<noteq> crl_number_path dir"
  by (simp add: crl_der_path_def crl_number_path_def path_join_def)

lemma generate_published:
  assumes "generate_and_persist signer iss dir new_id now t s w = Done (w', Inr der)"
  shows "\<exists>n crl. signed_der signer iss n crl = Done (Inr der) \<and>
    crl_entries crl = map (entry_of now) (filter cr_revoked (store_list s)) \<and>
    (\<forall>sn. contains_serial sn crl \<longleftrightarrow> is_revoked_serial s sn) \<and>
    file_at w' (crl_der_path dir) = Some der \<and> stored_number dir w' = Some n"
proof -
  obtain w1 n where n: "next_crl_number dir w = (w1, Inr n)"
    and sg: "signed_der signer iss n (crl_for_store new_id now t s) = Done (Inr der)"
    and wr: "fs_write (crl_der_path dir) der w1 = (w', Inr ())"
    using assms by (auto simp: generate_and_persist_def split: prod.splits sum.splits may_panic.splits)
  have st: "stored_number dir w1 = Some n" using next_crl_number_ok[OF n] by blast
  have "file_at w' = (file_at w1)(crl_der_path dir \<mapsto> der)" by (rule fs_write_ok[OF wr])
  then have "stored_number dir w' = Some n" and "file_at w' (crl_der_path dir) = Some der"
    using st stored_number_cong[of w' dir w1] crl_paths_differ[of dir] by simp_all
  then show ?thesis using sg crl_for_store_entries[of new_id now t s] crl_contains_iff[of _ new_id now t s]
    by blast
qed

lemma generate_other:
  assumes "generate_and_persist signer iss dir new_id now t s w = Done (w', r)"
    and "q \<noteq> crl_number_path dir" and "q \<noteq> crl_der_path dir"
  shows "file_at w' q = file_at w q"
proof -
  have n: "file_at w1 q = file_at w q" if "next_crl_number dir w = (w1, x)" for w1 x
  proof -
    obtain w0 c where c: "current_crl_number (crl_number_path dir) w = (w0, c)"
      by (cases "current_crl_number (crl_number_path dir) w")
    then have w0: "file_at w0 = file_at w" using file_at_current[of "crl_number_path dir" w] by simp
    have wr: "file_at w2 q = file_at w0 q" if "fs_write (crl_number_path dir) bs w0 = (w2, y)" for bs w2 y
      using fs_write_other[OF assms(2), of bs w0] that by simp
    show ?thesis using that w0
      by (auto simp: next_crl_number_def Let_def c split: sum.splits option.splits prod.splits dest!: wr)
  qed
  have wr: "file_at w2 q = file_at w1 q" if "fs_write (crl_der_path dir) bs w1 = (w2, y)" for bs w1 w2 y
    using fs_write_other[OF assms(3), of bs w1] that by simp
  show ?thesis using assms(1)
    by (auto simp: generate_and_persist_def split: prod.splits sum.splits may_panic.splits dest!: n wr)
qed

text \<open>Where nothing fails, the number goes up by one and the list is written.\<close>

lemma next_crl_number_free:
  assumes "fs_faults w = []" and "stored_number dir w = Some c" and "checked_add c 1 = Some n"
  shows "\<exists>w'. next_crl_number dir w = (w', Inr n) \<and> fs_faults w' = [] \<and> stored_number dir w' = Some n"
proof -
  let ?p = "crl_number_path dir"
  have "current_crl_number ?p w = (w, Inr c)"
    using assms(1,2)
    by (auto simp: current_crl_number_def fs_exists_def fs_read_to_string_def next_fault_free hm_contains_def
        stored_number_def file_at_def split: option.splits if_splits)
  moreover obtain w' where w': "fs_write ?p (as_bytes (show_nat (unat n))) w = (w', Inr ())" "fs_faults w' = []"
    using assms(1) by (simp add: fs_write_def next_fault_free)
  moreover have "stored_number dir w' = Some n"
    using fs_write_ok[OF w'(1)] by (intro stored_number_written) simp
  ultimately show ?thesis using assms(3) by (simp add: next_crl_number_def)
qed

lemma generate_free:
  assumes "fs_faults w = []" and "stored_number dir w = Some c" and "checked_add c 1 = Some n"
    and "signed_der signer iss n (crl_for_store i now t s) = Done (Inr der)"
  shows "\<exists>w'. generate_and_persist signer iss dir i now t s w = Done (w', Inr der) \<and> fs_faults w' = [] \<and>
    stored_number dir w' = Some n"
proof -
  obtain w1 where w1: "next_crl_number dir w = (w1, Inr n)" "fs_faults w1 = []" "stored_number dir w1 = Some n"
    using next_crl_number_free[OF assms(1-3)] by blast
  obtain w2 where w2: "fs_write (crl_der_path dir) der w1 = (w2, Inr ())" "fs_faults w2 = []"
    using w1(2) by (simp add: fs_write_def next_fault_free)
  have "stored_number dir w2 = stored_number dir w1"
    using fs_write_ok[OF w2(1)] crl_paths_differ[of dir] by (intro stored_number_cong) simp
  with w1 w2 assms(4) show ?thesis by (simp add: generate_and_persist_def)
qed

section \<open>Properties\<close>

text \<open>
  C11. The published list is the set of revoked certificates. If a refresh returns bytes, then the
  list it signed has one entry for each revoked record of the store and no other, newest first,
  each with the record's serial number, its parsed reason and its revocation instant; so a
  serial is on the list exactly when the store counts it as revoked. The bytes are what is in
  the CRL file, and the number signed is the one in the number file.
\<close>

theorem published_list_is_the_revoked_set:
  assumes "generate_and_persist signer iss dir new_id now t s w = Done (w', Inr der)"
  shows "\<exists>n crl. signed_der signer iss n crl = Done (Inr der) \<and>
    crl_entries crl = map (entry_of now) (filter cr_revoked (store_list s)) \<and>
    (\<forall>sn. contains_serial sn crl \<longleftrightarrow> is_revoked_serial s sn) \<and>
    file_at w' (crl_der_path dir) = Some der \<and> stored_number dir w' = Some n"
  by (rule generate_published[OF assms])

definition sample_revoked_store :: certificate_store where
  "sample_revoked_store = fst (fst (store_revoke (sample_serde []) 9 1 ''keyCompromise'' sample_store sample_fs))"

lemma sample_revoked_values:
  "hm_values (st_records sample_revoked_store) = [(sample_record 1)\<lparr>cr_revoked := True, cr_revoked_at := Some 9,
     cr_revocation_reason := Some ''keyCompromise''\<rparr>]"
  by (simp add: sample_revoked_store_def revoke_store sample_store_get)
    (simp add: sample_store_def hm_insert_def hm_values_def revoked_by_def)

lemma sample_generate:
  "\<exists>w'. generate_and_persist (\<lambda>ps i. Inr [1, 2]) (0::nat) [''d''] 4 10 11 sample_revoked_store sample_fs =
     Done (w', Inr [1, 2])"
proof -
  have h: "hex_to_bytes ''0a'' = Done (Some [10])" by code_simp
  have n: "\<exists>w1. next_crl_number [''d''] sample_fs = (w1, Inr 1) \<and> fs_faults w1 = []"
    by (simp add: next_crl_number_def current_crl_number_def fs_exists_def next_fault_def sample_fs_def
        checked_add_def fs_write_def hm_contains_def Let_def)
  then obtain w1 where w1: "next_crl_number [''d''] sample_fs = (w1, Inr 1)" "fs_faults w1 = []" by blast
  have sg: "signed_der (\<lambda>ps i. Inr [1, 2]) (0::nat) 1 (crl_for_store 4 10 11 sample_revoked_store) = Done (Inr [1, 2])"
    by (simp add: signed_der_def crl_for_store_entries store_list_def sample_revoked_values entry_of_def h Let_def)
  show ?thesis using w1 by (simp add: generate_and_persist_def sg fs_write_def next_fault_def)
qed

theorem published_list_is_the_revoked_set_witness:
  "\<exists>n crl. signed_der (\<lambda>ps i. Inr [1, 2]) (0::nat) n crl = Done (Inr [1, 2]) \<and>
     is_revoked_serial sample_revoked_store ''0a'' \<and> contains_serial ''0a'' crl"
proof -
  obtain w' where "generate_and_persist (\<lambda>ps i. Inr [1, 2]) (0::nat) [''d''] 4 10 11 sample_revoked_store sample_fs =
     Done (w', Inr [1, 2])" using sample_generate by blast
  note published = published_list_is_the_revoked_set[OF this]
  have "is_revoked_serial sample_revoked_store ''0a''"
    by (simp add: is_revoked_serial_def sample_revoked_values)
  then show ?thesis using published by blast
qed


definition sample_number_fs :: "fault list \<Rightarrow> fs" where
  "sample_number_fs fl = \<lparr>fs_files = [([''d'', ''crl-number''], as_bytes ''12'')], fs_faults = fl\<rparr>"

lemma show_numbers: "show_nat 13 = ''13''" "show_nat 12 = ''12''" "show_nat 1 = ''1''" "show_nat 2 = ''2''"
  by code_simp+

lemma parse_number:
  assumes "show_nat (unat n) = s"
  shows "parse_u64 (trim s) = Some n" and "utf8_valid s"
  using assms parse_show_u64[of n] trim_show_nat[of "unat n"] utf8_show_nat[of "unat n"] by auto

lemma parse_12: "parse_u64 (trim ''12'') = Some 12" "utf8_valid ''12''"
  by (rule parse_number, simp only: unat_numeral, simp add: show_numbers) (rule utf8_valid_ascii, simp)

lemma parse_1: "parse_u64 (trim ''1'') = Some 1" "utf8_valid ''1''"
  by (rule parse_number, simp add: show_numbers[simplified]) (rule utf8_valid_ascii, simp)

lemma sample_next_number: "\<exists>w'. next_crl_number [''d''] (sample_number_fs []) = (w', Inr 13)"
  using parse_12 show_numbers
  by (simp add: next_crl_number_def current_crl_number_def fs_exists_def next_fault_def sample_number_fs_def
      fs_read_to_string_def crl_number_path_def path_join_def hm_contains_def hm_get_def checked_add_def
      fs_write_def Let_def)


text \<open>
  The counter is not crash-safe. The number file is written in place, so a write that is torn
  after the first digit of 13 leaves 1, and the next refresh signs its list as number 2 although
  number 12 is already published; and a failing existence test makes the count start again at 1
  whatever is stored.
\<close>

theorem crl_number_can_go_back:
  assumes "fs_faults w = Fails e # []"
  shows "(\<exists>w'. next_crl_number dir w = (w', Inr 1)) \<and>
    (\<exists>w1 w2. stored_number [''d''] (sample_number_fs [NoFault, NoFault, FailsPartial ''ENOSPC'' 1]) = Some 12 \<and>
       next_crl_number [''d''] (sample_number_fs [NoFault, NoFault, FailsPartial ''ENOSPC'' 1]) =
         (w1, Inl (CmPersistNumber ''ENOSPC'')) \<and>
       next_crl_number [''d''] w1 = (w2, Inr 2))"
proof -
  let ?w = "sample_number_fs [NoFault, NoFault, FailsPartial ''ENOSPC'' 1]"
  let ?w1 = "\<lparr>fs_files = [([''d'', ''crl-number''], as_bytes ''1'')], fs_faults = []\<rparr>"
  have t: "take (Suc 0) (as_bytes ''13'') = as_bytes ''1''" by (simp add: as_bytes_def)
  have "\<exists>w'. next_crl_number dir w = (w', Inr 1)"
    using assms by (simp add: next_crl_number_def current_crl_number_def fs_exists_def next_fault_def
        checked_add_def fs_write_def Let_def)
  moreover have "stored_number [''d''] ?w = Some 12"
    using parse_12 by (simp add: stored_number_def sample_number_fs_def file_at_def hm_get_def
        crl_number_path_def path_join_def)
  moreover have "next_crl_number [''d''] ?w = (?w1, Inl (CmPersistNumber ''ENOSPC''))"
    using parse_12 t show_numbers
    by (simp add: next_crl_number_def current_crl_number_def fs_exists_def next_fault_def sample_number_fs_def
      fs_read_to_string_def crl_number_path_def path_join_def hm_contains_def hm_get_def checked_add_def
      fs_write_def hm_insert_def Let_def)
  moreover have "\<exists>w2. next_crl_number [''d''] ?w1 = (w2, Inr 2)"
    using parse_1 show_numbers by (simp add: next_crl_number_def current_crl_number_def fs_exists_def next_fault_def
      fs_read_to_string_def crl_number_path_def path_join_def hm_contains_def hm_get_def checked_add_def
      fs_write_def hm_insert_def Let_def)
  ultimately show ?thesis by blast
qed

theorem crl_number_can_go_back_witness:
  "\<exists>w'. next_crl_number [''d''] (sample_number_fs [Fails ''EACCES'']) = (w', Inr 1)"
  using crl_number_can_go_back[of "sample_number_fs [Fails ''EACCES'']" "''EACCES''" "[''d'']"]
  by (simp add: sample_number_fs_def)

text \<open>The three spellings of a reason: joined, with underscores, with blanks.\<close>

fun reason_words :: "revocation_reason \<Rightarrow> string list" where
  "reason_words Unspecified = [''unspecified'']"
| "reason_words KeyCompromise = [''key'', ''compromise'']"
| "reason_words CaCompromise = [''ca'', ''compromise'']"
| "reason_words AffiliationChanged = [''affiliation'', ''changed'']"
| "reason_words Superseded = [''superseded'']"
| "reason_words CessationOfOperation = [''cessation'', ''of'', ''operation'']"
| "reason_words CertificateHold = [''certificate'', ''hold'']"
| "reason_words RemoveFromCrl = [''remove'', ''from'', ''crl'']"
| "reason_words PrivilegeWithdrawn = [''privilege'', ''withdrawn'']"
| "reason_words AaCompromise = [''aa'', ''compromise'']"

fun join_words :: "string \<Rightarrow> string list \<Rightarrow> string" where
  "join_words sep [] = []"
| "join_words sep [v] = v"
| "join_words sep (v # vs) = v @ sep @ join_words sep vs"

text \<open>
  C39. Every reason can be named. A text that, after trimming and up to ASCII case, is one of the
  ten reasons written as one word, with underscores or with blanks parses to that reason; any
  other text, save one misspelling (\<open>privilegelwithdrawn\<close>), parses to \<open>Unspecified\<close>.
\<close>

theorem parse_reason_names:
  assumes "sep \<in> {'''', ''_'', '' ''}"
    and "eq_ignore_ascii_case (trim v) (join_words sep (reason_words r))"
  shows "parse_reason v = r \<and>
    (parse_reason u = Unspecified \<or> to_ascii_lowercase (trim u) = ''privilegelwithdrawn'' \<or>
     (\<exists>q sep'. sep' \<in> {'''', ''_'', '' ''} \<and> to_ascii_lowercase (trim u) = join_words sep' (reason_words q) \<and>
        parse_reason u = q))"
proof -
  have low: "to_ascii_lowercase (join_words sep' (reason_words q)) = join_words sep' (reason_words q)"
    if "sep' \<in> {'''', ''_'', '' ''}" for sep' q
    using that by (cases q) (auto simp: to_ascii_lowercase_def)
  have "to_ascii_lowercase (trim v) = join_words sep (reason_words r)"
    using assms low by (simp add: eq_ignore_ascii_case_def)
  then have "parse_reason v = r" using assms(1) by (cases r) (auto simp: parse_reason_def)
  moreover have "parse_reason u = Unspecified \<or> to_ascii_lowercase (trim u) = ''privilegelwithdrawn'' \<or>
     (\<exists>q sep'. sep' \<in> {'''', ''_'', '' ''} \<and> to_ascii_lowercase (trim u) = join_words sep' (reason_words q) \<and>
        parse_reason u = q)"
  proof (cases "parse_reason u = Unspecified \<or> to_ascii_lowercase (trim u) = ''privilegelwithdrawn''")
    case False
    then have "\<exists>sep' \<in> {'''', ''_'', '' ''}. to_ascii_lowercase (trim u) = join_words sep' (reason_words (parse_reason u))"
      by (auto simp: parse_reason_def Let_def split: if_splits)
    then show ?thesis by blast
  qed blast
  ultimately show ?thesis by blast
qed

theorem parse_reason_names_witness: "parse_reason ''Key_Compromise'' = KeyCompromise"
proof -
  have "eq_ignore_ascii_case (trim ''Key_Compromise'') (join_words ''_'' (reason_words KeyCompromise))"
    by code_simp
  from parse_reason_names[OF _ this] show ?thesis by simp
qed

end
