(* ===== verification/Metadata.thy ===== *)
theory Metadata
  imports Ip_Addr Hash_Map
begin

text \<open>
  \<open>daemon-pki-core/src/certificate/metadata.rs\<close>: the lifecycle states of a certificate, the
  identity it was issued for and its inventory record. An operation that reads the clock takes
  the reading as its first argument, one argument per call of \<open>OffsetDateTime::now_utc\<close>;
  \<open>Uuid::new_v4\<close> is an argument in the same way.
\<close>

datatype certificate_state = Active | Expiring | RenewalPending | Renewed | Revoked | Expired

definition is_usable :: "certificate_state \<Rightarrow> bool" where
  "is_usable s = (case s of Active \<Rightarrow> True | Expiring \<Rightarrow> True | _ \<Rightarrow> False)"

definition is_terminal :: "certificate_state \<Rightarrow> bool" where
  "is_terminal s = (case s of Revoked \<Rightarrow> True | Expired \<Rightarrow> True | _ \<Rightarrow> False)"

text \<open>
  The states are finitely many, so that facts about every pair of states are decided by
  evaluation.
\<close>

instantiation certificate_state :: enum
begin

definition enum_certificate_state :: "certificate_state list" where
  "enum_certificate_state = [Active, Expiring, RenewalPending, Renewed, Revoked, Expired]"

definition enum_all_certificate_state :: "(certificate_state \<Rightarrow> bool) \<Rightarrow> bool" where
  "enum_all_certificate_state P =
     (P Active \<and> P Expiring \<and> P RenewalPending \<and> P Renewed \<and> P Revoked \<and> P Expired)"

definition enum_ex_certificate_state :: "(certificate_state \<Rightarrow> bool) \<Rightarrow> bool" where
  "enum_ex_certificate_state P =
     (P Active \<or> P Expiring \<or> P RenewalPending \<or> P Renewed \<or> P Revoked \<or> P Expired)"

instance
proof
  show "(UNIV :: certificate_state set) = set enum_class.enum"
    unfolding enum_certificate_state_def by (auto intro: certificate_state.exhaust)
  show "distinct (enum_class.enum :: certificate_state list)"
    by (simp add: enum_certificate_state_def)
  show "enum_class.enum_all P = Ball UNIV P" for P :: "certificate_state \<Rightarrow> bool"
    unfolding enum_all_certificate_state_def by (auto intro: certificate_state.exhaust; metis certificate_state.exhaust)
  show "enum_class.enum_ex P = Bex UNIV P" for P :: "certificate_state \<Rightarrow> bool"
    unfolding enum_ex_certificate_state_def by (auto; metis certificate_state.exhaust)
qed

end

lemma usable_simps [simp]:
  "is_usable Active" "is_usable Expiring" "\<not> is_usable RenewalPending"
  "\<not> is_usable Renewed" "\<not> is_usable Revoked" "\<not> is_usable Expired"
  by (simp_all add: is_usable_def)

lemma terminal_simps [simp]:
  "\<not> is_terminal Active" "\<not> is_terminal Expiring" "\<not> is_terminal RenewalPending"
  "\<not> is_terminal Renewed" "is_terminal Revoked" "is_terminal Expired"
  by (simp_all add: is_terminal_def)

lemma is_usable_iff: "is_usable s \<longleftrightarrow> s = Active \<or> s = Expiring"
  by (cases s) simp_all

lemma is_terminal_iff: "is_terminal s \<longleftrightarrow> s = Revoked \<or> s = Expired"
  by (cases s) simp_all

section \<open>Records\<close>

record certificate_identity =
  ci_common_name :: "string option"
  ci_dns_names :: "string list"
  ci_ip_addresses :: "ip_addr list"
  ci_client_auth :: bool
  ci_server_auth :: bool

record certificate_metadata =
  cm_id :: uuid
  cm_serial_number :: string
  cm_issuer :: string
  cm_subject :: string
  cm_identity :: certificate_identity
  cm_state :: certificate_state
  cm_not_before :: instant
  cm_not_after :: instant
  cm_fingerprint_sha256 :: "string option"
  cm_created_at :: instant
  cm_updated_at :: instant
  cm_renewal_window_seconds :: int
  cm_workload_id :: "string option"
  cm_device_id :: "string option"
  cm_service_id :: "string option"
  cm_tags :: "string list"

definition metadata_new ::
  "uuid \<Rightarrow> instant \<Rightarrow> string \<Rightarrow> string \<Rightarrow> string \<Rightarrow> certificate_identity \<Rightarrow> instant \<Rightarrow> instant
   \<Rightarrow> certificate_metadata" where
  "metadata_new new_id now serial iss subj ident nb na =
     \<lparr> cm_id = new_id, cm_serial_number = serial, cm_issuer = iss, cm_subject = subj,
       cm_identity = ident, cm_state = Active, cm_not_before = nb, cm_not_after = na,
       cm_fingerprint_sha256 = None, cm_created_at = now, cm_updated_at = now,
       cm_renewal_window_seconds = 2592000, cm_workload_id = None, cm_device_id = None,
       cm_service_id = None, cm_tags = [] \<rparr>"

definition expires_at :: "certificate_metadata \<Rightarrow> instant" where
  "expires_at c = cm_not_after c"

definition lifetime_seconds :: "certificate_metadata \<Rightarrow> int" where
  "lifetime_seconds c = whole_seconds (cm_not_after c - cm_not_before c)"

definition remaining_seconds :: "instant \<Rightarrow> certificate_metadata \<Rightarrow> int" where
  "remaining_seconds now c = whole_seconds (cm_not_after c - now)"

definition renewal_due :: "instant \<Rightarrow> certificate_metadata \<Rightarrow> bool" where
  "renewal_due now c =
     (remaining_seconds now c \<le> cm_renewal_window_seconds c \<and> is_usable (cm_state c))"

definition mark_fingerprint :: "instant \<Rightarrow> string \<Rightarrow> certificate_metadata \<Rightarrow> certificate_metadata" where
  "mark_fingerprint now fp c = c\<lparr>cm_fingerprint_sha256 := Some fp, cm_updated_at := now\<rparr>"

definition add_tag :: "instant \<Rightarrow> string \<Rightarrow> certificate_metadata \<Rightarrow> certificate_metadata" where
  "add_tag now tag c =
     (if tag \<notin> set (cm_tags c) then c\<lparr>cm_tags := cm_tags c @ [tag], cm_updated_at := now\<rparr> else c)"

definition assign_workload :: "instant \<Rightarrow> string \<Rightarrow> certificate_metadata \<Rightarrow> certificate_metadata" where
  "assign_workload now w c = c\<lparr>cm_workload_id := Some w, cm_updated_at := now\<rparr>"

definition assign_device :: "instant \<Rightarrow> string \<Rightarrow> certificate_metadata \<Rightarrow> certificate_metadata" where
  "assign_device now d c = c\<lparr>cm_device_id := Some d, cm_updated_at := now\<rparr>"

definition assign_service :: "instant \<Rightarrow> string \<Rightarrow> certificate_metadata \<Rightarrow> certificate_metadata" where
  "assign_service now s c = c\<lparr>cm_service_id := Some s, cm_updated_at := now\<rparr>"

section \<open>Lemmas\<close>

lemma renewal_due_usable: "renewal_due now c \<Longrightarrow> is_usable (cm_state c)"
  by (simp add: renewal_due_def)

text \<open>As time passes a certificate that is due stays due.\<close>

lemma renewal_due_mono:
  assumes "renewal_due t c" and "t \<le> t'"
  shows "renewal_due t' c"
proof -
  have "remaining_seconds t' c \<le> remaining_seconds t c"
    unfolding remaining_seconds_def using assms(2) by (intro whole_seconds_mono) simp
  with assms(1) show ?thesis by (auto simp: renewal_due_def)
qed

text \<open>The renewal window, as an instant: the code's seconds round towards zero.\<close>

lemma renewal_due_iff:
  assumes "0 \<le> cm_renewal_window_seconds c"
  shows "renewal_due now c \<longleftrightarrow>
    is_usable (cm_state c) \<and>
    cm_not_after c - (cm_renewal_window_seconds c + 1) * nanos_per_sec < now"
proof -
  have "remaining_seconds now c \<le> cm_renewal_window_seconds c \<longleftrightarrow>
        cm_not_after c - now < (cm_renewal_window_seconds c + 1) * nanos_per_sec"
    unfolding remaining_seconds_def by (rule whole_seconds_le_iff[OF assms])
  then show ?thesis unfolding renewal_due_def by linarith
qed

lemma add_tag_distinct: "distinct (cm_tags c) \<Longrightarrow> distinct (cm_tags (add_tag now tag c))"
  by (simp add: add_tag_def)

lemma add_tag_mem: "set (cm_tags (add_tag now tag c)) = insert tag (set (cm_tags c))"
  by (auto simp: add_tag_def)

end
