(* ===== verification/Lifecycle.thy ===== *)
theory Lifecycle
  imports Metadata
begin

text \<open>
  \<open>LifecycleManager\<close> of \<open>daemon-pki-core/src/certificate/lifecycle.rs\<close>: the transition
  table, the evaluation of one certificate against the clock and the renewal action. The
  operations take \<open>&mut CertificateMetadata\<close>; the model returns the new record with the
  result, and an error leaves the record as it was. The locale \<open>terminal_machine\<close> is the
  contract of a state machine with terminal states, which this component and the identity
  registry both promise.
\<close>

section \<open>Machines with terminal states\<close>

locale terminal_machine =
  fixes step :: "'s \<Rightarrow> 'c \<Rightarrow> 's"
    and terminal :: "'s \<Rightarrow> bool"
  assumes terminal_stays: "terminal s \<Longrightarrow> terminal (step s c)"
begin

fun run :: "'s \<Rightarrow> 'c list \<Rightarrow> 's" where
  "run s [] = s"
| "run s (c # cs) = run (step s c) cs"

lemma run_append: "run s (as @ bs) = run (run s as) bs"
  by (induction as arbitrary: s) auto

lemma run_terminal: "terminal s \<Longrightarrow> terminal (run s cs)"
  by (induction cs arbitrary: s) (auto intro: terminal_stays)

lemma run_terminal_later: "terminal (run s as) \<Longrightarrow> terminal (run s (as @ bs))"
  by (simp add: run_append run_terminal)

end

section \<open>Transitions\<close>

datatype lifecycle_error =
  InvalidTransition certificate_state certificate_state
| TerminalState certificate_state

fun allowed :: "certificate_state \<Rightarrow> certificate_state \<Rightarrow> bool" where
  "allowed Active Expiring = True"
| "allowed Active RenewalPending = True"
| "allowed Active Revoked = True"
| "allowed Active Expired = True"
| "allowed Expiring RenewalPending = True"
| "allowed Expiring Revoked = True"
| "allowed Expiring Expired = True"
| "allowed RenewalPending Renewed = True"
| "allowed RenewalPending Revoked = True"
| "allowed RenewalPending Expired = True"
| "allowed Renewed Active = True"
| "allowed Renewed Expiring = True"
| "allowed Renewed RenewalPending = True"
| "allowed Renewed Revoked = True"
| "allowed Renewed Expired = True"
| "allowed _ _ = False"

definition transition ::
  "instant \<Rightarrow> certificate_metadata \<Rightarrow> certificate_state \<Rightarrow> lifecycle_error + certificate_metadata" where
  "transition now c next =
     (let current = cm_state c in
      if current = next then Inr c
      else if is_terminal current then Inl (TerminalState current)
      else if \<not> allowed current next then Inl (InvalidTransition current next)
      else Inr (c\<lparr>cm_state := next, cm_updated_at := now\<rparr>))"

lemma allowed_not_terminal: "allowed s s' \<Longrightarrow> \<not> is_terminal s"
  by (cases s) simp_all

lemma allowed_irrefl: "\<not> allowed s s"
  by (cases s) simp_all

lemma allowed_expired: "\<not> is_terminal s \<Longrightarrow> allowed s Expired"
  by (cases s) simp_all

lemma allowed_revoked: "\<not> is_terminal s \<Longrightarrow> allowed s Revoked"
  by (cases s) simp_all

lemma allowed_renewed: "allowed s Renewed \<longleftrightarrow> s = RenewalPending"
  by (cases s) simp_all

lemma transition_same [simp]: "cm_state c = next \<Longrightarrow> transition now c next = Inr c"
  by (simp add: transition_def)

lemma transition_ok:
  "transition now c next = Inr c' \<longleftrightarrow>
     cm_state c = next \<and> c' = c \<or>
     allowed (cm_state c) next \<and> c' = c\<lparr>cm_state := next, cm_updated_at := now\<rparr>"
  using allowed_not_terminal[of "cm_state c" "next"] allowed_irrefl[of "cm_state c"]
  by (auto simp: transition_def Let_def)

lemma transition_error:
  "transition now c next = Inl e \<longleftrightarrow>
     cm_state c \<noteq> next \<and>
     (is_terminal (cm_state c) \<and> e = TerminalState (cm_state c) \<or>
      \<not> is_terminal (cm_state c) \<and> \<not> allowed (cm_state c) next \<and>
      e = InvalidTransition (cm_state c) next)"
  by (auto simp: transition_def Let_def)

lemma transition_frame:
  assumes "transition now c next = Inr c'"
  shows "cm_state c' = next" and "cm_id c' = cm_id c"
    and "cm_serial_number c' = cm_serial_number c"
    and "cm_fingerprint_sha256 c' = cm_fingerprint_sha256 c"
    and "cm_not_after c' = cm_not_after c"
    and "cm_identity c' = cm_identity c"
    and "c'\<lparr>cm_state := cm_state c, cm_updated_at := cm_updated_at c\<rparr> = c"
  using assms by (auto simp: transition_ok)

text \<open>One requested transition as a machine step: a refused request leaves the state.\<close>

definition request_transition :: "certificate_state \<Rightarrow> certificate_state \<Rightarrow> certificate_state" where
  "request_transition s next = (if allowed s next then next else s)"

lemma request_transition_transition:
  "(case transition now c next of Inl _ \<Rightarrow> cm_state c | Inr c' \<Rightarrow> cm_state c')
     = request_transition (cm_state c) next"
  using allowed_irrefl[of "cm_state c"] allowed_not_terminal[of "cm_state c" "next"]
  by (auto simp: request_transition_def transition_def Let_def)

interpretation lifecycle: terminal_machine request_transition is_terminal
  by unfold_locales (auto simp: request_transition_def dest: allowed_not_terminal)

interpretation revocation: terminal_machine request_transition "\<lambda>s. s = Revoked"
  by unfold_locales (simp add: request_transition_def)

interpretation expiry: terminal_machine request_transition "\<lambda>s. s = Expired"
  by unfold_locales (simp add: request_transition_def)

section \<open>Evaluation against the clock\<close>

text \<open>
  \<open>evaluate\<close> reads the clock once for the expiry test, once in \<open>renewal_due\<close> and once in
  a transition; \<open>readings\<close> are its readings in the order it makes them.
\<close>

type_synonym readings = "instant \<times> instant \<times> instant"

definition evaluate ::
  "readings \<Rightarrow> certificate_metadata \<Rightarrow> lifecycle_error + certificate_metadata \<times> certificate_state" where
  "evaluate rd c =
     (case rd of (t1, t2, t3) \<Rightarrow>
        if t1 \<ge> cm_not_after c then
          (if cm_state c \<noteq> Expired then
             (case transition t2 c Expired of Inl e \<Rightarrow> Inl e | Inr c' \<Rightarrow> Inr (c', cm_state c'))
           else Inr (c, cm_state c))
        else if renewal_due t2 c \<and> cm_state c = Active then
          (case transition t3 c Expiring of Inl e \<Rightarrow> Inl e | Inr c' \<Rightarrow> Inr (c', cm_state c'))
        else Inr (c, cm_state c))"

text \<open>What the evaluation comes to: the state it should leave, \<open>None\<close> where it refuses.\<close>

definition evaluated_state :: "readings \<Rightarrow> certificate_metadata \<Rightarrow> certificate_state option" where
  "evaluated_state rd c =
     (case rd of (t1, t2, t3) \<Rightarrow>
        if cm_not_after c \<le> t1 then (if cm_state c = Revoked then None else Some Expired)
        else if cm_state c = Active \<and> remaining_seconds t2 c \<le> cm_renewal_window_seconds c
        then Some Expiring else Some (cm_state c))"

lemma evaluate_ok:
  "evaluate rd c = Inr (c', s) \<Longrightarrow>
     evaluated_state rd c = Some s \<and> cm_state c' = s \<and>
     c'\<lparr>cm_state := cm_state c, cm_updated_at := cm_updated_at c\<rparr> = c"
  by (cases rd; cases "cm_state c")
    (auto simp: evaluate_def evaluated_state_def transition_def Let_def renewal_due_def
          split: if_splits sum.splits)

lemma evaluate_error:
  "evaluate rd c = Inl e \<longleftrightarrow> evaluated_state rd c = None \<and> e = TerminalState Revoked"
  by (cases rd; cases "cm_state c")
    (auto simp: evaluate_def evaluated_state_def transition_def Let_def renewal_due_def
          split: if_splits sum.splits)

lemma evaluated_state_None:
  "evaluated_state (t1, t2, t3) c = None \<longleftrightarrow> cm_state c = Revoked \<and> cm_not_after c \<le> t1"
  by (simp add: evaluated_state_def)

lemma evaluate_frame:
  assumes "evaluate rd c = Inr (c', s)"
  shows "cm_id c' = cm_id c" and "cm_serial_number c' = cm_serial_number c"
    and "cm_fingerprint_sha256 c' = cm_fingerprint_sha256 c"
proof -
  have eq: "c'\<lparr>cm_state := cm_state c, cm_updated_at := cm_updated_at c\<rparr> = c"
    using evaluate_ok[OF assms] by simp
  show "cm_id c' = cm_id c" using arg_cong[OF eq, of cm_id] by simp
  show "cm_serial_number c' = cm_serial_number c"
    using arg_cong[OF eq, of cm_serial_number] by simp
  show "cm_fingerprint_sha256 c' = cm_fingerprint_sha256 c"
    using arg_cong[OF eq, of cm_fingerprint_sha256] by simp
qed

section \<open>Renewal action\<close>

datatype renewal_action_kind = NoAction | Renew | Revoke

definition requires_action :: "renewal_action_kind \<Rightarrow> bool" where
  "requires_action a = (case a of NoAction \<Rightarrow> False | _ \<Rightarrow> True)"

text \<open>The clock is read only for an active certificate (the match guard).\<close>

definition renewal_action :: "instant \<Rightarrow> certificate_metadata \<Rightarrow> renewal_action_kind" where
  "renewal_action now c =
     (case cm_state c of
        Active \<Rightarrow> if renewal_due now c then Renew else NoAction
      | Expiring \<Rightarrow> Renew
      | RenewalPending \<Rightarrow> Renew
      | Expired \<Rightarrow> Revoke
      | Revoked \<Rightarrow> Revoke
      | Renewed \<Rightarrow> NoAction)"

lemma requires_action_iff: "requires_action a \<longleftrightarrow> a \<noteq> NoAction"
  by (cases a) (simp_all add: requires_action_def)

lemma renewal_action_terminal: "renewal_action now c = Revoke \<longleftrightarrow> is_terminal (cm_state c)"
  by (cases "cm_state c") (simp_all add: renewal_action_def)

end
