(* ===== verification/Inventory.thy ===== *)
theory Inventory
  imports Lifecycle
begin

text \<open>
  \<open>CertificateInventory\<close> of \<open>daemon-pki-core/src/certificate/inventory.rs\<close>: certificate
  records by id, with an index by serial number and one by fingerprint. An operation on
  \<open>&mut self\<close> returns the new inventory beside its result, since some of them change the
  inventory before they fail. The invariant \<open>inventory_ok\<close> is what every operation keeps;
  \<open>inventory_step\<close> collects the operations, and \<open>abs_inventory\<close> forgets the indices.
\<close>

datatype inventory_error =
  AlreadyExists uuid
| InvNotFound uuid
| DuplicateSerial string
| DuplicateFingerprint string
| LifecycleErr lifecycle_error

record certificate_inventory =
  certificates :: "(uuid, certificate_metadata) hash_map"
  serial_index :: "(string, uuid) hash_map"
  fingerprint_index :: "(string, uuid) hash_map"

definition inventory_new :: certificate_inventory where
  "inventory_new =
     \<lparr>certificates = hm_empty, serial_index = hm_empty, fingerprint_index = hm_empty\<rparr>"

section \<open>Operations\<close>

definition inv_register ::
  "certificate_inventory \<Rightarrow> certificate_metadata \<Rightarrow> certificate_inventory \<times> (inventory_error + uuid)"
where
  "inv_register iv c =
     (let cid = cm_id c; serial = cm_serial_number c; fingerprint = cm_fingerprint_sha256 c in
      if hm_contains (certificates iv) cid then (iv, Inl (AlreadyExists cid))
      else if hm_contains (serial_index iv) serial then (iv, Inl (DuplicateSerial serial))
      else
        (let iv1 = iv\<lparr>serial_index := hm_insert serial cid (serial_index iv)\<rparr>;
             iv2 = (case fingerprint of None \<Rightarrow> iv1
                     | Some fp \<Rightarrow> iv1\<lparr>fingerprint_index := hm_insert fp cid (fingerprint_index iv1)\<rparr>);
             iv3 = iv2\<lparr>certificates := hm_insert cid c (certificates iv2)\<rparr>
         in (iv3, Inr cid)))"

definition inv_get :: "certificate_inventory \<Rightarrow> uuid \<Rightarrow> inventory_error + certificate_metadata" where
  "inv_get iv i = ok_or (hm_get (certificates iv) i) (InvNotFound i)"

text \<open>
  \<open>get_mut\<close> hands out the stored record; writing through it is \<open>inv_put\<close>, which touches
  the table and neither index.
\<close>

definition inv_get_mut :: "certificate_inventory \<Rightarrow> uuid \<Rightarrow> inventory_error + certificate_metadata" where
  "inv_get_mut iv i = ok_or (hm_get (certificates iv) i) (InvNotFound i)"

definition inv_put :: "certificate_inventory \<Rightarrow> uuid \<Rightarrow> certificate_metadata \<Rightarrow> certificate_inventory" where
  "inv_put iv i c = iv\<lparr>certificates := hm_insert i c (certificates iv)\<rparr>"

definition inv_register_renewal ::
  "instant \<Rightarrow> certificate_inventory \<Rightarrow> uuid \<Rightarrow> certificate_metadata
   \<Rightarrow> certificate_inventory \<times> (inventory_error + uuid)" where
  "inv_register_renewal now iv previous_id replacement =
     (case inv_get_mut iv previous_id of Inl e \<Rightarrow> (iv, Inl e)
      | Inr previous \<Rightarrow>
          (case transition now previous Renewed of Inl e \<Rightarrow> (iv, Inl (LifecycleErr e))
           | Inr previous' \<Rightarrow>
               (let iv' = inv_put iv previous_id previous';
                    replacement' = replacement\<lparr>
                      cm_state := Active,
                      cm_workload_id := cm_workload_id previous',
                      cm_device_id := cm_device_id previous',
                      cm_service_id := cm_service_id previous',
                      cm_tags := cm_tags previous'\<rparr>
                in inv_register iv' replacement')))"

definition inv_find_by_serial ::
  "certificate_inventory \<Rightarrow> string \<Rightarrow> inventory_error + certificate_metadata" where
  "inv_find_by_serial iv serial =
     and_then (ok_or (hm_get (serial_index iv) serial) (InvNotFound uuid_nil)) (inv_get iv)"

definition inv_find_by_fingerprint ::
  "certificate_inventory \<Rightarrow> string \<Rightarrow> inventory_error + certificate_metadata" where
  "inv_find_by_fingerprint iv fingerprint =
     and_then (ok_or (hm_get (fingerprint_index iv) fingerprint) (InvNotFound uuid_nil)) (inv_get iv)"

definition inv_id_by_fingerprint ::
  "certificate_inventory \<Rightarrow> string \<Rightarrow> inventory_error + uuid" where
  "inv_id_by_fingerprint iv fingerprint =
     ok_or (hm_get (fingerprint_index iv) fingerprint) (InvNotFound uuid_nil)"

definition inv_remove ::
  "certificate_inventory \<Rightarrow> uuid \<Rightarrow> certificate_inventory \<times> (inventory_error + certificate_metadata)"
where
  "inv_remove iv i =
     (case hm_get (certificates iv) i of None \<Rightarrow> (iv, Inl (InvNotFound i))
      | Some c \<Rightarrow>
          (let iv1 = iv\<lparr>certificates := hm_remove i (certificates iv)\<rparr>;
               iv2 = iv1\<lparr>serial_index := hm_remove (cm_serial_number c) (serial_index iv1)\<rparr>;
               iv3 = (case cm_fingerprint_sha256 c of None \<Rightarrow> iv2
                       | Some fp \<Rightarrow> iv2\<lparr>fingerprint_index := hm_remove fp (fingerprint_index iv2)\<rparr>)
           in (iv3, Inr c)))"

definition inv_len :: "certificate_inventory \<Rightarrow> nat" where
  "inv_len iv = hm_len (certificates iv)"

definition inv_is_empty :: "certificate_inventory \<Rightarrow> bool" where
  "inv_is_empty iv = (certificates iv = [])"

definition inv_all :: "certificate_inventory \<Rightarrow> certificate_metadata list" where
  "inv_all iv = hm_values (certificates iv)"

definition inv_by_state :: "certificate_inventory \<Rightarrow> certificate_state \<Rightarrow> certificate_metadata list" where
  "inv_by_state iv s = filter (\<lambda>c. cm_state c = s) (hm_values (certificates iv))"

text \<open>
  \<open>renewal_due\<close> reads the clock once for each record it visits: \<open>rd n\<close> is the reading for
  the \<open>n\<close>-th.
\<close>

definition inv_renewal_candidates ::
  "(nat \<Rightarrow> instant) \<Rightarrow> certificate_inventory \<Rightarrow> certificate_metadata list" where
  "inv_renewal_candidates rd iv =
     map snd (filter (\<lambda>(n, c). renewal_due (rd n) c) (enumerate 0 (hm_values (certificates iv))))"

text \<open>
  The loop of \<open>evaluate_lifecycle\<close>: the keys are collected first, then every record is
  evaluated in place; the first error leaves the loop and what was written stays written.
  \<open>rd i\<close> are the clock readings for the record \<open>i\<close> (each key is visited once).
\<close>

fun eval_ids ::
  "(uuid \<Rightarrow> readings) \<Rightarrow> uuid list \<Rightarrow> nat \<Rightarrow> certificate_inventory
   \<Rightarrow> certificate_inventory \<times> (inventory_error + nat)" where
  "eval_ids rd [] changed iv = (iv, Inr changed)"
| "eval_ids rd (i # ids) changed iv =
     (case hm_get (certificates iv) i of None \<Rightarrow> (iv, Inl (InvNotFound i))
      | Some c \<Rightarrow>
          (case evaluate (rd i) c of Inl e \<Rightarrow> (iv, Inl (LifecycleErr e))
           | Inr (c', _) \<Rightarrow>
               eval_ids rd ids (if cm_state c \<noteq> cm_state c' then changed + 1 else changed)
                 (inv_put iv i c')))"

definition inv_evaluate_lifecycle ::
  "(uuid \<Rightarrow> readings) \<Rightarrow> certificate_inventory \<Rightarrow> certificate_inventory \<times> (inventory_error + nat)"
where
  "inv_evaluate_lifecycle rd iv = eval_ids rd (hm_keys (certificates iv)) 0 iv"

definition inv_revoke ::
  "instant \<Rightarrow> certificate_inventory \<Rightarrow> uuid \<Rightarrow> certificate_inventory \<times> (inventory_error + unit)" where
  "inv_revoke now iv i =
     (case inv_get_mut iv i of Inl e \<Rightarrow> (iv, Inl e)
      | Inr c \<Rightarrow> (case transition now c Revoked of Inl e \<Rightarrow> (iv, Inl (LifecycleErr e))
                  | Inr c' \<Rightarrow> (inv_put iv i c', Inr ())))"

definition inv_mark_renewed ::
  "instant \<Rightarrow> certificate_inventory \<Rightarrow> uuid \<Rightarrow> certificate_inventory \<times> (inventory_error + unit)" where
  "inv_mark_renewed now iv i =
     (case inv_get_mut iv i of Inl e \<Rightarrow> (iv, Inl e)
      | Inr c \<Rightarrow> (case transition now c Renewed of Inl e \<Rightarrow> (iv, Inl (LifecycleErr e))
                  | Inr c' \<Rightarrow> (inv_put iv i c', Inr ())))"

record inventory_state_counts =
  n_active :: nat
  n_expiring :: nat
  n_renewal_pending :: nat
  n_renewed :: nat
  n_revoked :: nat
  n_expired :: nat

definition counts_default :: inventory_state_counts where
  "counts_default = \<lparr>n_active = 0, n_expiring = 0, n_renewal_pending = 0, n_renewed = 0,
     n_revoked = 0, n_expired = 0\<rparr>"

definition counts_add :: "certificate_metadata \<Rightarrow> inventory_state_counts \<Rightarrow> inventory_state_counts" where
  "counts_add c k =
     (case cm_state c of
        Active \<Rightarrow> k\<lparr>n_active := n_active k + 1\<rparr>
      | Expiring \<Rightarrow> k\<lparr>n_expiring := n_expiring k + 1\<rparr>
      | RenewalPending \<Rightarrow> k\<lparr>n_renewal_pending := n_renewal_pending k + 1\<rparr>
      | Renewed \<Rightarrow> k\<lparr>n_renewed := n_renewed k + 1\<rparr>
      | Revoked \<Rightarrow> k\<lparr>n_revoked := n_revoked k + 1\<rparr>
      | Expired \<Rightarrow> k\<lparr>n_expired := n_expired k + 1\<rparr>)"

definition inv_state_counts :: "certificate_inventory \<Rightarrow> inventory_state_counts" where
  "inv_state_counts iv = fold counts_add (hm_values (certificates iv)) counts_default"

definition counts_total :: "inventory_state_counts \<Rightarrow> nat" where
  "counts_total k = n_active k + n_expiring k + n_renewal_pending k + n_renewed k + n_revoked k + n_expired k"

end
