(* ===== verification/Inventory_Inv.thy ===== *)
theory Inventory_Inv
  imports Inventory
begin

text \<open>
  The invariant of the certificate inventory, its preservation by every operation, the
  reachable inventories, and the abstract inventory (a map from ids to records) that the
  indexed one refines. The fingerprint index is only \<open>index_sound\<close>: \<open>register\<close> does not
  test it for a duplicate, so it need not be complete.
\<close>

section \<open>The invariant\<close>

abbreviation serial_key :: "certificate_metadata \<Rightarrow> string option" where
  "serial_key c \<equiv> Some (cm_serial_number c)"

definition inventory_ok :: "certificate_inventory \<Rightarrow> bool" where
  "inventory_ok iv =
     (hm_ok (certificates iv) \<and> hm_ok (serial_index iv) \<and> hm_ok (fingerprint_index iv) \<and>
      (\<forall>i c. hm_get (certificates iv) i = Some c \<longrightarrow> cm_id c = i) \<and>
      index_sound serial_key (certificates iv) (serial_index iv) \<and>
      index_complete serial_key (certificates iv) (serial_index iv) \<and>
      index_sound cm_fingerprint_sha256 (certificates iv) (fingerprint_index iv))"

lemma inventory_okD:
  assumes "inventory_ok iv"
  shows "hm_ok (certificates iv)" and "hm_ok (serial_index iv)" and "hm_ok (fingerprint_index iv)"
    and "hm_get (certificates iv) i = Some c \<Longrightarrow> cm_id c = i"
    and "index_sound serial_key (certificates iv) (serial_index iv)"
    and "index_complete serial_key (certificates iv) (serial_index iv)"
    and "index_sound cm_fingerprint_sha256 (certificates iv) (fingerprint_index iv)"
  using assms by (simp_all add: inventory_ok_def)

lemma inventory_okI:
  assumes "hm_ok (certificates iv)" and "hm_ok (serial_index iv)" and "hm_ok (fingerprint_index iv)"
    and "\<And>i c. hm_get (certificates iv) i = Some c \<Longrightarrow> cm_id c = i"
    and "index_sound serial_key (certificates iv) (serial_index iv)"
    and "index_complete serial_key (certificates iv) (serial_index iv)"
    and "index_sound cm_fingerprint_sha256 (certificates iv) (fingerprint_index iv)"
  shows "inventory_ok iv"
  using assms by (simp add: inventory_ok_def)

lemma inventory_ok_new: "inventory_ok inventory_new"
  by (rule inventory_okI) (simp_all add: inventory_new_def)

text \<open>Writing a record back with its id, serial number and fingerprint unchanged.\<close>

lemma inventory_ok_put:
  assumes ok: "inventory_ok iv" and c: "hm_get (certificates iv) i = Some c"
    and "cm_id c' = cm_id c" and "cm_serial_number c' = cm_serial_number c"
    and "cm_fingerprint_sha256 c' = cm_fingerprint_sha256 c"
  shows "inventory_ok (inv_put iv i c')"
proof (rule inventory_okI)
  note okD = inventory_okD[OF ok]
  show "hm_ok (certificates (inv_put iv i c'))" using okD(1) by (simp add: inv_put_def)
  show "hm_ok (serial_index (inv_put iv i c'))" using okD(2) by (simp add: inv_put_def)
  show "hm_ok (fingerprint_index (inv_put iv i c'))" using okD(3) by (simp add: inv_put_def)
  show "index_sound serial_key (certificates (inv_put iv i c')) (serial_index (inv_put iv i c'))"
    using index_sound_update[OF okD(5) c] assms(4) by (simp add: inv_put_def)
  show "index_complete serial_key (certificates (inv_put iv i c')) (serial_index (inv_put iv i c'))"
    using index_complete_update[OF okD(6) c] assms(4) by (simp add: inv_put_def)
  show "index_sound cm_fingerprint_sha256 (certificates (inv_put iv i c'))
      (fingerprint_index (inv_put iv i c'))"
    using index_sound_update[OF okD(7) c] assms(5) by (simp add: inv_put_def)
  show "cm_id d = j" if "hm_get (certificates (inv_put iv i c')) j = Some d" for j d
    using that okD(4) c assms(3) by (auto simp: inv_put_def split: if_splits)
qed

lemma inventory_ok_transition:
  assumes "inventory_ok iv" and "hm_get (certificates iv) i = Some c"
    and "transition now c next = Inr c'"
  shows "inventory_ok (inv_put iv i c')"
  using assms transition_frame[OF assms(3)] by (intro inventory_ok_put) auto

section \<open>Registration\<close>

text \<open>The inventory a successful registration leaves.\<close>

definition registered :: "certificate_inventory \<Rightarrow> certificate_metadata \<Rightarrow> certificate_inventory" where
  "registered iv c =
     \<lparr>certificates = hm_insert (cm_id c) c (certificates iv),
      serial_index = hm_insert (cm_serial_number c) (cm_id c) (serial_index iv),
      fingerprint_index =
        (case cm_fingerprint_sha256 c of None \<Rightarrow> fingerprint_index iv
         | Some fp \<Rightarrow> hm_insert fp (cm_id c) (fingerprint_index iv))\<rparr>"

lemma inv_register_cases:
  "inv_register iv c =
     (if hm_contains (certificates iv) (cm_id c) then (iv, Inl (AlreadyExists (cm_id c)))
      else if hm_contains (serial_index iv) (cm_serial_number c)
      then (iv, Inl (DuplicateSerial (cm_serial_number c)))
      else (registered iv c, Inr (cm_id c)))"
  by (auto simp: inv_register_def registered_def Let_def split: option.splits)

lemma inventory_ok_registered:
  assumes ok: "inventory_ok iv" and new: "hm_get (certificates iv) (cm_id c) = None"
    and ser: "hm_get (serial_index iv) (cm_serial_number c) = None"
  shows "inventory_ok (registered iv c)"
proof (rule inventory_okI)
  note okD = inventory_okD[OF ok]
  show "hm_ok (certificates (registered iv c))" using okD(1) by (simp add: registered_def)
  show "hm_ok (serial_index (registered iv c))" using okD(2) by (simp add: registered_def)
  show "hm_ok (fingerprint_index (registered iv c))"
    using okD(3) by (simp add: registered_def split: option.split)
  show "index_sound serial_key (certificates (registered iv c)) (serial_index (registered iv c))"
    using index_sound_insert[OF okD(5) new] by (simp add: registered_def)
  show "index_complete serial_key (certificates (registered iv c)) (serial_index (registered iv c))"
    using index_complete_insert[OF okD(6) ser] by (simp add: registered_def)
  show "index_sound cm_fingerprint_sha256 (certificates (registered iv c))
      (fingerprint_index (registered iv c))"
    using index_sound_insert[OF okD(7) new] index_sound_insert_none[OF okD(7) new]
    by (simp add: registered_def split: option.split)
  show "cm_id d = j" if "hm_get (certificates (registered iv c)) j = Some d" for j d
    using that okD(4) by (auto simp: registered_def split: if_splits)
qed

lemma inventory_ok_register: "inventory_ok iv \<Longrightarrow> inventory_ok (fst (inv_register iv c))"
  by (simp add: inv_register_cases hm_contains_def inventory_ok_registered)

lemma inv_register_ok:
  "inv_register iv c = (iv', Inr i) \<longleftrightarrow>
     hm_get (certificates iv) (cm_id c) = None \<and>
     hm_get (serial_index iv) (cm_serial_number c) = None \<and> iv' = registered iv c \<and> i = cm_id c"
  by (auto simp: inv_register_cases hm_contains_def)

lemma inv_register_err:
  "inv_register iv c = (iv', Inl e) \<Longrightarrow> iv' = iv"
  by (auto simp: inv_register_cases split: if_splits)

lemma inv_get_mut_simps:
  "inv_get_mut iv i = Inr c \<longleftrightarrow> hm_get (certificates iv) i = Some c"
  "inv_get_mut iv i = Inl e \<longleftrightarrow> hm_get (certificates iv) i = None \<and> e = InvNotFound i"
  by (simp_all add: inv_get_mut_def result_simps)

lemma inventory_ok_renewal:
  assumes ok: "inventory_ok iv"
  shows "inventory_ok (fst (inv_register_renewal now iv p r))"
proof (cases "inv_get_mut iv p")
  case (Inl e)
  then show ?thesis using ok by (simp add: inv_register_renewal_def)
next
  case (Inr c)
  then have c: "hm_get (certificates iv) p = Some c" by (simp add: inv_get_mut_simps)
  show ?thesis
  proof (cases "transition now c Renewed")
    case (Inl e)
    then show ?thesis using ok Inr by (simp add: inv_register_renewal_def)
  next
    case t: (Inr c')
    from inventory_ok_transition[OF ok c t] show ?thesis
      using Inr t by (simp add: inv_register_renewal_def Let_def inventory_ok_register)
  qed
qed

section \<open>Removal, revocation, evaluation\<close>

definition removed :: "certificate_inventory \<Rightarrow> uuid \<Rightarrow> certificate_metadata \<Rightarrow> certificate_inventory" where
  "removed iv i c =
     \<lparr>certificates = hm_remove i (certificates iv),
      serial_index = hm_remove (cm_serial_number c) (serial_index iv),
      fingerprint_index =
        (case cm_fingerprint_sha256 c of None \<Rightarrow> fingerprint_index iv
         | Some fp \<Rightarrow> hm_remove fp (fingerprint_index iv))\<rparr>"

lemma inv_remove_cases:
  "inv_remove iv i =
     (case hm_get (certificates iv) i of None \<Rightarrow> (iv, Inl (InvNotFound i))
      | Some c \<Rightarrow> (removed iv i c, Inr c))"
  by (auto simp: inv_remove_def removed_def Let_def split: option.splits)

lemma inventory_ok_removed:
  assumes ok: "inventory_ok iv" and c: "hm_get (certificates iv) i = Some c"
  shows "inventory_ok (removed iv i c)"
proof (rule inventory_okI)
  note okD = inventory_okD[OF ok]
  show "hm_ok (certificates (removed iv i c))" using okD(1) by (simp add: removed_def)
  show "hm_ok (serial_index (removed iv i c))" using okD(2) by (simp add: removed_def)
  show "hm_ok (fingerprint_index (removed iv i c))"
    using okD(3) by (simp add: removed_def split: option.split)
  show "index_sound serial_key (certificates (removed iv i c)) (serial_index (removed iv i c))"
    using index_sound_remove[OF okD(5) c] by (simp add: removed_def)
  show "index_complete serial_key (certificates (removed iv i c)) (serial_index (removed iv i c))"
    using index_complete_remove[OF okD(6) c] by (simp add: removed_def)
  show "index_sound cm_fingerprint_sha256 (certificates (removed iv i c))
      (fingerprint_index (removed iv i c))"
    using index_sound_remove[OF okD(7) c] index_sound_remove_none[OF okD(7) c]
    by (simp add: removed_def split: option.split)
  show "cm_id d = j" if "hm_get (certificates (removed iv i c)) j = Some d" for j d
    using that okD(4) by (auto simp: removed_def split: if_splits)
qed

lemma inventory_ok_remove: "inventory_ok iv \<Longrightarrow> inventory_ok (fst (inv_remove iv i))"
  by (auto simp: inv_remove_cases inventory_ok_removed split: option.split)

lemma inventory_ok_revoke: "inventory_ok iv \<Longrightarrow> inventory_ok (fst (inv_revoke now iv i))"
  by (auto simp: inv_revoke_def inv_get_mut_simps split: sum.split intro: inventory_ok_transition)

lemma inventory_ok_mark_renewed: "inventory_ok iv \<Longrightarrow> inventory_ok (fst (inv_mark_renewed now iv i))"
  by (auto simp: inv_mark_renewed_def inv_get_mut_simps split: sum.split intro: inventory_ok_transition)

lemma inventory_ok_eval_ids: "inventory_ok iv \<Longrightarrow> inventory_ok (fst (eval_ids rd ids n iv))"
proof (induction rd ids n iv rule: eval_ids.induct)
  case (2 rd i ids n iv)
  show ?case
  proof (cases "hm_get (certificates iv) i")
    case (Some c)
    show ?thesis
    proof (cases "evaluate (rd i) c")
      case (Inr r)
      then obtain c' s where r: "evaluate (rd i) c = Inr (c', s)" by (cases r) auto
      have "inventory_ok (inv_put iv i c')"
        by (rule inventory_ok_put[OF 2(2) Some]) (simp_all add: evaluate_frame[OF r])
      with 2(1)[OF Some r refl] show ?thesis by (simp add: Some r)
    qed (use 2 Some in simp)
  qed (use 2 in simp)
qed simp

lemma inventory_ok_evaluate_lifecycle:
  "inventory_ok iv \<Longrightarrow> inventory_ok (fst (inv_evaluate_lifecycle rd iv))"
  by (simp add: inv_evaluate_lifecycle_def inventory_ok_eval_ids)

lemmas inventory_ok_ops =
  inventory_ok_register inventory_ok_renewal inventory_ok_remove inventory_ok_revoke
  inventory_ok_mark_renewed inventory_ok_evaluate_lifecycle

end
