(* ===== verification/Inventory_Props.thy ===== *)
theory Inventory_Props
  imports Inventory_Inv
begin

text \<open>
  What the certificate inventory promises: the reachable inventories and their invariant,
  lookups, the refinement of an inventory without indices, the evaluation of every record
  against the clock, revocation, and three places where the code falls short of its intent.
\<close>

section \<open>Reachable inventories\<close>

text \<open>
  One rule per public operation. \<open>st_write\<close> is a write through \<open>get_mut\<close> that keeps the id,
  the serial number and the fingerprint and changes the state by a transition only;
  \<open>st_rehash\<close> is the standard library reordering its tables.
\<close>

inductive inventory_step :: "certificate_inventory \<Rightarrow> certificate_inventory \<Rightarrow> bool" where
  st_register: "inventory_step iv (fst (inv_register iv c))"
| st_renewal: "inventory_step iv (fst (inv_register_renewal now iv p r))"
| st_remove: "inventory_step iv (fst (inv_remove iv i))"
| st_revoke: "inventory_step iv (fst (inv_revoke now iv i))"
| st_mark_renewed: "inventory_step iv (fst (inv_mark_renewed now iv i))"
| st_evaluate: "inventory_step iv (fst (inv_evaluate_lifecycle rd iv))"
| st_write: "inv_get_mut iv i = Inr c \<Longrightarrow> cm_id c' = cm_id c \<Longrightarrow>
    cm_serial_number c' = cm_serial_number c \<Longrightarrow>
    cm_fingerprint_sha256 c' = cm_fingerprint_sha256 c \<Longrightarrow>
    cm_state c' = request_transition (cm_state c) s \<Longrightarrow> inventory_step iv (inv_put iv i c')"
| st_rehash: "hm_rehash (certificates iv) (certificates iv') \<Longrightarrow>
    hm_rehash (serial_index iv) (serial_index iv') \<Longrightarrow>
    hm_rehash (fingerprint_index iv) (fingerprint_index iv') \<Longrightarrow> inventory_step iv iv'"

inductive inventory_reachable :: "certificate_inventory \<Rightarrow> bool" where
  reach_new: "inventory_reachable inventory_new"
| reach_step: "inventory_reachable iv \<Longrightarrow> inventory_step iv iv' \<Longrightarrow> inventory_reachable iv'"

lemma inventory_ok_rehash:
  assumes "inventory_ok iv" and "hm_rehash (certificates iv) (certificates iv')"
    and "hm_rehash (serial_index iv) (serial_index iv')"
    and "hm_rehash (fingerprint_index iv) (fingerprint_index iv')"
  shows "inventory_ok iv'"
  using assms
  by (simp add: inventory_ok_def hm_rehash_ok hm_rehash_get index_sound_def index_complete_def)

lemma inventory_step_ok: "inventory_step iv iv' \<Longrightarrow> inventory_ok iv \<Longrightarrow> inventory_ok iv'"
  by (induction rule: inventory_step.induct)
    (auto intro: inventory_ok_ops inventory_ok_put inventory_ok_rehash simp: inv_get_mut_simps)

lemma reachable_ok: "inventory_reachable iv \<Longrightarrow> inventory_ok iv"
  by (induction rule: inventory_reachable.induct)
    (auto intro: inventory_ok_new inventory_step_ok)

section \<open>Sample records\<close>

text \<open>Records the witnesses below are built from.\<close>

definition sample_identity :: certificate_identity where
  "sample_identity = \<lparr>ci_common_name = Some ''api'', ci_dns_names = [''api.internal''],
     ci_ip_addresses = [], ci_client_auth = True, ci_server_auth = True\<rparr>"

definition sample_cert :: "uuid \<Rightarrow> string \<Rightarrow> instant \<Rightarrow> certificate_metadata" where
  "sample_cert i serial na =
     metadata_new i 0 serial ''ca'' ''api'' sample_identity 0 na"

lemma sample_cert_simps [simp]:
  "cm_id (sample_cert i s na) = i" "cm_serial_number (sample_cert i s na) = s"
  "cm_state (sample_cert i s na) = Active" "cm_not_after (sample_cert i s na) = na"
  "cm_fingerprint_sha256 (sample_cert i s na) = None"
  by (simp_all add: sample_cert_def metadata_new_def)

definition sample_inventory :: certificate_inventory where
  "sample_inventory =
     fst (inv_register (fst (inv_register inventory_new (sample_cert 1 ''01'' 100)))
            (sample_cert 2 ''02'' 100))"

lemma sample_reachable: "inventory_reachable sample_inventory"
  unfolding sample_inventory_def
  by (intro reach_step[OF _ st_register] reach_new)

lemma sample_get:
  "hm_get (certificates sample_inventory) i =
     (if i = 2 then Some (sample_cert 2 ''02'' 100)
      else if i = 1 then Some (sample_cert 1 ''01'' 100) else None)"
  by (simp add: sample_inventory_def inv_register_cases registered_def inventory_new_def
        hm_contains_def)

section \<open>Lookups\<close>

lemma find_by_serial_iff:
  assumes "inventory_ok iv"
  shows "inv_find_by_serial iv s = Inr c \<longleftrightarrow>
    (\<exists>i. hm_get (certificates iv) i = Some c \<and> cm_serial_number c = s)"
  using index_soundD[OF inventory_okD(5)[OF assms]] index_completeD[OF inventory_okD(6)[OF assms]]
  by (fastforce simp: inv_find_by_serial_def inv_get_def result_simps)

lemma find_by_serial_none:
  assumes "inventory_ok iv"
  shows "inv_find_by_serial iv s = Inl e \<longleftrightarrow>
    (\<forall>i c. hm_get (certificates iv) i = Some c \<longrightarrow> cm_serial_number c \<noteq> s) \<and> e = InvNotFound uuid_nil"
  using index_soundD[OF inventory_okD(5)[OF assms]] index_completeD[OF inventory_okD(6)[OF assms]]
  by (fastforce simp: inv_find_by_serial_def inv_get_def result_simps)

lemma find_by_fingerprint_sound:
  assumes "inventory_ok iv" and "inv_find_by_fingerprint iv f = Inr c"
  shows "hm_get (certificates iv) (cm_id c) = Some c \<and> cm_fingerprint_sha256 c = Some f"
  using index_soundD[OF inventory_okD(7)[OF assms(1)]] assms(2) inventory_okD(4)[OF assms(1)]
  by (fastforce simp: inv_find_by_fingerprint_def inv_get_def result_simps)

text \<open>
  C30. In every reachable inventory the lookup by serial number is exact: it returns a record if
  and only if that record is tracked and carries the serial number, so no two tracked records
  share one; it fails with \<open>NotFound(nil)\<close> exactly when no tracked record carries it. And
  every record is filed under its own id.
\<close>

theorem inventory_serial_lookup_exact:
  assumes "inventory_reachable iv"
  shows "(inv_find_by_serial iv s = Inr c \<longleftrightarrow> inv_get iv (cm_id c) = Inr c \<and> cm_serial_number c = s) \<and>
    (inv_find_by_serial iv s = Inl e \<longleftrightarrow>
       e = InvNotFound uuid_nil \<and> (\<nexists>i d. inv_get iv i = Inr d \<and> cm_serial_number d = s)) \<and>
    (inv_get iv i = Inr d \<longrightarrow> cm_id d = i)"
  using find_by_serial_iff[OF reachable_ok[OF assms]] find_by_serial_none[OF reachable_ok[OF assms]]
    inventory_okD(4)[OF reachable_ok[OF assms]]
  by (auto simp: inv_get_def result_simps)

theorem inventory_serial_lookup_exact_witness:
  "inv_find_by_serial sample_inventory ''01'' = Inr (sample_cert 1 ''01'' 100)"
  using inventory_serial_lookup_exact[OF sample_reachable, of "''01''" "sample_cert 1 ''01'' 100"]
  by (simp add: inv_get_def sample_get)



section \<open>Refinement of the inventory without indices\<close>

type_synonym abs_inventory_state = "uuid \<rightharpoonup> certificate_metadata"

definition abs_inventory :: "certificate_inventory \<Rightarrow> abs_inventory_state" where
  "abs_inventory iv = hm_get (certificates iv)"

definition abs_register ::
  "abs_inventory_state \<Rightarrow> certificate_metadata \<Rightarrow> abs_inventory_state \<times> (inventory_error + uuid)" where
  "abs_register A c =
     (if cm_id c \<in> dom A then (A, Inl (AlreadyExists (cm_id c)))
      else if cm_serial_number c \<in> cm_serial_number ` ran A
      then (A, Inl (DuplicateSerial (cm_serial_number c)))
      else (A(cm_id c \<mapsto> c), Inr (cm_id c)))"

definition abs_remove ::
  "abs_inventory_state \<Rightarrow> uuid \<Rightarrow> abs_inventory_state \<times> (inventory_error + certificate_metadata)" where
  "abs_remove A i =
     (case A i of None \<Rightarrow> (A, Inl (InvNotFound i)) | Some c \<Rightarrow> (A(i := None), Inr c))"

definition abs_register_renewal ::
  "instant \<Rightarrow> abs_inventory_state \<Rightarrow> uuid \<Rightarrow> certificate_metadata
   \<Rightarrow> abs_inventory_state \<times> (inventory_error + uuid)" where
  "abs_register_renewal now A p r =
     (case A p of None \<Rightarrow> (A, Inl (InvNotFound p))
      | Some c \<Rightarrow>
          if cm_state c = Renewed \<or> cm_state c = RenewalPending then
            (let c' = (if cm_state c = Renewed then c else c\<lparr>cm_state := Renewed, cm_updated_at := now\<rparr>)
             in abs_register (A(p \<mapsto> c'))
                  (r\<lparr>cm_state := Active, cm_workload_id := cm_workload_id c,
                     cm_device_id := cm_device_id c, cm_service_id := cm_service_id c,
                     cm_tags := cm_tags c\<rparr>))
          else (A, Inl (LifecycleErr
                  (if is_terminal (cm_state c) then TerminalState (cm_state c)
                   else InvalidTransition (cm_state c) Renewed))))"

lemma abs_inventory_put [simp]: "abs_inventory (inv_put iv i c) = (abs_inventory iv)(i \<mapsto> c)"
  by (rule ext) (simp add: abs_inventory_def inv_put_def)

lemma serial_taken:
  assumes "inventory_ok iv"
  shows "s \<in> cm_serial_number ` ran (abs_inventory iv) \<longleftrightarrow> hm_contains (serial_index iv) s"
proof
  assume "s \<in> cm_serial_number ` ran (abs_inventory iv)"
  then obtain i c where "hm_get (certificates iv) i = Some c" "cm_serial_number c = s"
    by (auto simp: abs_inventory_def ran_def)
  then show "hm_contains (serial_index iv) s"
    using index_completeD[OF inventory_okD(6)[OF assms]] by (simp add: hm_contains_iff)
next
  assume "hm_contains (serial_index iv) s"
  then obtain i where "hm_get (serial_index iv) s = Some i" by (auto simp: hm_contains_iff)
  then obtain c where "hm_get (certificates iv) i = Some c" "cm_serial_number c = s"
    using index_soundD[OF inventory_okD(5)[OF assms]] by fastforce
  then show "s \<in> cm_serial_number ` ran (abs_inventory iv)"
    by (force simp: abs_inventory_def ran_def)
qed

lemma abs_register_refines:
  assumes "inventory_ok iv"
  shows "abs_register (abs_inventory iv) c =
    (abs_inventory (fst (inv_register iv c)), snd (inv_register iv c))"
proof -
  have "cm_id c \<in> dom (abs_inventory iv) \<longleftrightarrow> hm_contains (certificates iv) (cm_id c)"
    by (auto simp: abs_inventory_def hm_contains_def)
  moreover have "abs_inventory (registered iv c) = (abs_inventory iv)(cm_id c \<mapsto> c)"
    by (rule ext) (simp add: abs_inventory_def registered_def)
  ultimately show ?thesis
    by (simp add: abs_register_def inv_register_cases serial_taken[OF assms])
qed

lemma abs_remove_refines:
  "abs_remove (abs_inventory iv) i =
    (abs_inventory (fst (inv_remove iv i)), snd (inv_remove iv i))"
proof (cases "hm_get (certificates iv) i")
  case (Some c)
  have "abs_inventory (removed iv i c) = (abs_inventory iv)(i := None)"
    by (rule ext) (simp add: abs_inventory_def removed_def)
  with Some show ?thesis by (simp add: abs_remove_def inv_remove_cases abs_inventory_def)
qed (simp add: abs_remove_def inv_remove_cases abs_inventory_def)

lemma abs_renewal_refines:
  assumes ok: "inventory_ok iv"
  shows "abs_register_renewal now (abs_inventory iv) p r =
    (abs_inventory (fst (inv_register_renewal now iv p r)), snd (inv_register_renewal now iv p r))"
proof (cases "hm_get (certificates iv) p")
  case None
  then show ?thesis
    by (simp add: abs_register_renewal_def inv_register_renewal_def inv_get_mut_def abs_inventory_def)
next
  case (Some c)
  then have gm: "inv_get_mut iv p = Inr c" and A: "abs_inventory iv p = Some c"
    by (simp_all add: inv_get_mut_def abs_inventory_def)
  show ?thesis
  proof (cases "transition now c Renewed")
    case (Inl e)
    then have "\<not> (cm_state c = Renewed \<or> cm_state c = RenewalPending)"
      by (auto simp: transition_error)
    moreover have "e = (if is_terminal (cm_state c) then TerminalState (cm_state c)
        else InvalidTransition (cm_state c) Renewed)"
      using Inl by (auto simp: transition_error)
    ultimately show ?thesis
      by (simp add: abs_register_renewal_def inv_register_renewal_def Inl gm A)
  next
    case (Inr c')
    then have st: "cm_state c = Renewed \<or> cm_state c = RenewalPending"
      and c': "c' = (if cm_state c = Renewed then c else c\<lparr>cm_state := Renewed, cm_updated_at := now\<rparr>)"
      by (auto simp: transition_ok allowed_renewed)
    have fr: "cm_workload_id c' = cm_workload_id c" "cm_device_id c' = cm_device_id c"
      "cm_service_id c' = cm_service_id c" "cm_tags c' = cm_tags c"
      by (simp_all add: c')
    from abs_register_refines[OF inventory_ok_transition[OF ok Some Inr]] show ?thesis
      by (simp add: abs_register_renewal_def inv_register_renewal_def gm A Inr st Let_def fr
            flip: c')
  qed
qed

text \<open>
  C32. The indexed inventory refines a plain map from ids to records. Registering, removing and
  renewing do to the map, and return, exactly what the abstract operations do, where the
  abstract registration refuses an id in the map's domain and a serial number some record of
  the map carries; a renewal needs the predecessor to be pending (or already renewed), marks
  it renewed and registers the successor as active with the predecessor's associations.
\<close>

theorem inventory_refines_map:
  assumes "inventory_reachable iv"
  shows "abs_register (abs_inventory iv) c =
      (abs_inventory (fst (inv_register iv c)), snd (inv_register iv c)) \<and>
    abs_remove (abs_inventory iv) i =
      (abs_inventory (fst (inv_remove iv i)), snd (inv_remove iv i)) \<and>
    abs_register_renewal now (abs_inventory iv) p r =
      (abs_inventory (fst (inv_register_renewal now iv p r)), snd (inv_register_renewal now iv p r))"
  using reachable_ok[OF assms] abs_register_refines abs_remove_refines abs_renewal_refines by blast

theorem inventory_refines_map_witness:
  "abs_register (abs_inventory sample_inventory) (sample_cert 3 ''01'' 5) =
     (abs_inventory sample_inventory, Inl (DuplicateSerial ''01''))"
proof -
  have "hm_contains (serial_index sample_inventory) ''01''"
    using index_completeD[OF inventory_okD(6)[OF reachable_ok[OF sample_reachable]], of 1]
    by (simp add: hm_contains_iff sample_get)
  then have "inv_register sample_inventory (sample_cert 3 ''01'' 5) =
      (sample_inventory, Inl (DuplicateSerial ''01''))"
    by (simp add: inv_register_cases sample_get hm_contains_def)
  then show ?thesis
    using inventory_refines_map[OF sample_reachable, of "sample_cert 3 ''01'' 5"] by simp
qed

end
