(* ===== verification/Inventory_Eval.thy ===== *)
theory Inventory_Eval
  imports Inventory_Props
begin

text \<open>
  The sweep \<open>evaluate_lifecycle\<close> over the whole inventory, the counters, the permanence of
  a revocation, and the fingerprint index after a duplicate registration.
\<close>

section \<open>The sweep\<close>

text \<open>The record a sweep with readings \<open>r\<close> stops at: revoked, and past its expiry.\<close>

definition blocks_sweep :: "readings \<Rightarrow> certificate_metadata \<Rightarrow> bool" where
  "blocks_sweep r c = (cm_state c = Revoked \<and> cm_not_after c \<le> fst r)"

lemma blocks_sweep_iff: "blocks_sweep r c \<longleftrightarrow> evaluated_state r c = None"
  by (cases r) (simp add: blocks_sweep_def evaluated_state_None)

definition state_at :: "certificate_inventory \<Rightarrow> uuid \<Rightarrow> certificate_state option" where
  "state_at iv i = map_option cm_state (hm_get (certificates iv) i)"

lemma get_inv_put [simp]:
  "hm_get (certificates (inv_put iv i c)) j = (if j = i then Some c else hm_get (certificates iv) j)"
  by (simp add: inv_put_def)

lemma eval_ids_ok:
  assumes "eval_ids rd ids n iv = (iv', Inr m)" and "distinct ids"
  shows "(\<forall>j. j \<notin> set ids \<longrightarrow> hm_get (certificates iv') j = hm_get (certificates iv) j) \<and>
    (\<forall>j \<in> set ids. \<exists>c c' s. hm_get (certificates iv) j = Some c \<and>
       hm_get (certificates iv') j = Some c' \<and> evaluate (rd j) c = Inr (c', s)) \<and>
    m = n + length (filter (\<lambda>j. state_at iv j \<noteq> state_at iv' j) ids)"
  using assms
proof (induction ids arbitrary: n iv)
  case (Cons i ids)
  then obtain c where c: "hm_get (certificates iv) i = Some c" by (auto split: option.splits)
  with Cons.prems(1) obtain c' s where e: "evaluate (rd i) c = Inr (c', s)"
    by (auto split: sum.splits)
  let ?iv = "inv_put iv i c'" and ?n = "if cm_state c \<noteq> cm_state c' then n + 1 else n"
  have rec: "eval_ids rd ids ?n ?iv = (iv', Inr m)" using Cons.prems(1) c e by simp
  from Cons.prems(2) have ni: "i \<notin> set ids" and d: "distinct ids" by auto
  note IH = Cons.IH[OF rec d]
  from IH ni have gi: "hm_get (certificates iv') i = Some c'" by auto
  have "filter (\<lambda>j. state_at ?iv j \<noteq> state_at iv' j) ids =
        filter (\<lambda>j. state_at iv j \<noteq> state_at iv' j) ids"
    using ni by (intro filter_cong) (auto simp: state_at_def)
  then have "m = n + length (filter (\<lambda>j. state_at iv j \<noteq> state_at iv' j) (i # ids))"
    using IH c gi by (simp add: state_at_def)
  moreover have "\<exists>c c' s. hm_get (certificates iv) j = Some c \<and>
      hm_get (certificates iv') j = Some c' \<and> evaluate (rd j) c = Inr (c', s)"
    if "j \<in> set (i # ids)" for j
    using that IH c e gi ni by (cases "j = i") (simp_all, force)
  ultimately show ?case using IH by auto
qed simp

definition some_blocks :: "(uuid \<Rightarrow> readings) \<Rightarrow> uuid list \<Rightarrow> certificate_inventory \<Rightarrow> bool" where
  "some_blocks rd ids iv =
     (\<exists>j c. j \<in> set ids \<and> hm_get (certificates iv) j = Some c \<and> blocks_sweep (rd j) c)"

lemma some_blocks_put: "i \<notin> set ids \<Longrightarrow> some_blocks rd ids (inv_put iv i c) = some_blocks rd ids iv"
  unfolding some_blocks_def by (rule ex_cong1, rule ex_cong1) auto

lemma some_blocks_Cons:
  "hm_get (certificates iv) i = Some c \<Longrightarrow>
     some_blocks rd (i # ids) iv \<longleftrightarrow> blocks_sweep (rd i) c \<or> some_blocks rd ids iv"
  unfolding some_blocks_def by auto

lemma eval_ids_err:
  assumes "distinct ids" and "\<forall>j \<in> set ids. hm_get (certificates iv) j \<noteq> None"
  shows "if some_blocks rd ids iv
         then snd (eval_ids rd ids n iv) = Inl (LifecycleErr (TerminalState Revoked))
         else is_ok (snd (eval_ids rd ids n iv))"
  using assms
proof (induction ids arbitrary: n iv)
  case Nil
  then show ?case by (simp add: some_blocks_def)
next
  case (Cons i ids)
  then obtain c where c: "hm_get (certificates iv) i = Some c" by auto
  show ?case
  proof (cases "evaluate (rd i) c")
    case (Inl e)
    then have "e = TerminalState Revoked" and "blocks_sweep (rd i) c"
      by (simp_all add: evaluate_error blocks_sweep_iff)
    then show ?thesis using c Inl by (simp add: some_blocks_Cons)
  next
    case (Inr r)
    then obtain c' s where e: "evaluate (rd i) c = Inr (c', s)" by (cases r) auto
    then have nb: "\<not> blocks_sweep (rd i) c" using evaluate_ok[OF e] by (simp add: blocks_sweep_iff)
    from Cons.prems have ni: "i \<notin> set ids" and d: "distinct ids"
      and k: "\<forall>j \<in> set ids. hm_get (certificates (inv_put iv i c')) j \<noteq> None" by auto
    from Cons.IH[OF d k] show ?thesis
      using c e nb ni by (simp add: some_blocks_Cons some_blocks_put)
  qed
qed

lemma sweep_keys:
  assumes "inventory_ok iv"
  shows "distinct (hm_keys (certificates iv))"
    and "\<forall>j \<in> set (hm_keys (certificates iv)). hm_get (certificates iv) j \<noteq> None"
  using inventory_okD(1)[OF assms] by (simp_all add: hm_contains_def)

lemma sample_revoked:
  "inv_revoke 50 sample_inventory 1 =
     (inv_put sample_inventory 1
        (sample_cert 1 ''01'' 100\<lparr>cm_state := Revoked, cm_updated_at := 50\<rparr>), Inr ())"
  by (simp add: inv_revoke_def inv_get_mut_def sample_get transition_def)

text \<open>
  C35. A sweep fails if and only if some tracked record is revoked and past its expiry, and then
  with \<open>TerminalState(Revoked)\<close>: one revoked certificate that has run out makes every later
  sweep fail, whatever the iteration order, and the records behind it are not evaluated.
\<close>

theorem evaluate_lifecycle_blocked_iff:
  assumes "inventory_reachable iv"
  shows "((\<exists>e. snd (inv_evaluate_lifecycle rd iv) = Inl e) \<longleftrightarrow>
      (\<exists>i c. inv_get iv i = Inr c \<and> cm_state c = Revoked \<and> cm_not_after c \<le> fst (rd i))) \<and>
    (\<forall>e. snd (inv_evaluate_lifecycle rd iv) = Inl e \<longrightarrow> e = LifecycleErr (TerminalState Revoked))"
proof -
  note k = sweep_keys[OF reachable_ok[OF assms]]
  have "some_blocks rd (hm_keys (certificates iv)) iv \<longleftrightarrow>
      (\<exists>i c. inv_get iv i = Inr c \<and> cm_state c = Revoked \<and> cm_not_after c \<le> fst (rd i))"
    by (auto simp: some_blocks_def inv_get_def result_simps hm_contains_iff blocks_sweep_def)
  then show ?thesis
    using eval_ids_err[OF k, of rd 0] unfolding inv_evaluate_lifecycle_def
    by (cases "snd (eval_ids rd (hm_keys (certificates iv)) 0 iv)") (auto split: if_splits)
qed

theorem evaluate_lifecycle_blocked_iff_witness:
  "\<exists>e. snd (inv_evaluate_lifecycle (\<lambda>_. (100, 100, 100)) (fst (inv_revoke 50 sample_inventory 1))) = Inl e"
proof -
  have "inventory_reachable (fst (inv_revoke 50 sample_inventory 1))"
    by (rule reach_step[OF sample_reachable st_revoke])
  from evaluate_lifecycle_blocked_iff[OF this, of "\<lambda>_. (100, 100, 100)"] show ?thesis
    unfolding sample_revoked by (fastforce simp: inv_get_def)
qed

text \<open>
  A sweep that succeeds has evaluated every record against the readings it made for it: a
  record at or past its expiry is expired, an active one within its renewal window is expiring,
  every other record keeps its state; nothing but the state and the update time is touched, no
  record appears or disappears, and the count returned is the number of records whose state
  changed.
\<close>

theorem evaluate_lifecycle_evaluates_all:
  assumes "inventory_reachable iv" and "inv_evaluate_lifecycle rd iv = (iv', Inr n)"
  shows "(\<forall>i c. inv_get iv i = Inr c \<longrightarrow>
      (\<exists>c'. inv_get iv' i = Inr c' \<and> evaluated_state (rd i) c = Some (cm_state c') \<and>
        c'\<lparr>cm_state := cm_state c, cm_updated_at := cm_updated_at c\<rparr> = c)) \<and>
    (\<forall>i. is_ok (inv_get iv' i) = is_ok (inv_get iv i)) \<and>
    n = card {i. state_at iv i \<noteq> state_at iv' i}"
proof -
  let ?ks = "hm_keys (certificates iv)"
  note k = sweep_keys[OF reachable_ok[OF assms(1)]]
  from eval_ids_ok[OF assms(2)[unfolded inv_evaluate_lifecycle_def] k(1)]
  have out: "\<forall>j. j \<notin> set ?ks \<longrightarrow> hm_get (certificates iv') j = hm_get (certificates iv) j"
    and ins: "\<forall>j \<in> set ?ks. \<exists>c c' s. hm_get (certificates iv) j = Some c \<and>
       hm_get (certificates iv') j = Some c' \<and> evaluate (rd j) c = Inr (c', s)"
    and n: "n = length (filter (\<lambda>j. state_at iv j \<noteq> state_at iv' j) ?ks)" by auto
  have ev: "\<exists>c'. inv_get iv' i = Inr c' \<and> evaluated_state (rd i) c = Some (cm_state c') \<and>
      c'\<lparr>cm_state := cm_state c, cm_updated_at := cm_updated_at c\<rparr> = c"
    if "inv_get iv i = Inr c" for i c
  proof -
    from that have c: "hm_get (certificates iv) i = Some c" by (simp add: inv_get_def result_simps)
    then have "i \<in> set ?ks" by (simp add: hm_contains_iff)
    with ins c obtain c' s where "hm_get (certificates iv') i = Some c'" "evaluate (rd i) c = Inr (c', s)"
      by fastforce
    then show ?thesis using evaluate_ok[of "rd i" c c' s] by (simp add: inv_get_def)
  qed
  have dom: "is_ok (inv_get iv' i) = is_ok (inv_get iv i)" for i
    using out ins by (cases "i \<in> set ?ks") (fastforce simp: inv_get_def)+
  have "{i. state_at iv i \<noteq> state_at iv' i} = set (filter (\<lambda>j. state_at iv j \<noteq> state_at iv' j) ?ks)"
    using out by (auto simp: state_at_def)
  then have "n = card {i. state_at iv i \<noteq> state_at iv' i}"
    using n k(1) distinct_card[of "filter (\<lambda>j. state_at iv j \<noteq> state_at iv' j) ?ks"] by simp
  with ev dom show ?thesis by blast
qed

lemma sample_keys: "hm_keys (certificates sample_inventory) = [1, 2]"
  by (simp add: sample_inventory_def inv_register_cases registered_def inventory_new_def
        hm_contains_def hm_keys_insert) (simp add: hm_keys_def hm_empty_def)

lemma sample_sweep:
  "snd (inv_evaluate_lifecycle (\<lambda>_. (100, 100, 100)) sample_inventory) = Inr 2"
  by (simp add: inv_evaluate_lifecycle_def sample_keys sample_get evaluate_def transition_def)

theorem evaluate_lifecycle_evaluates_all_witness:
  "2 = card {i. state_at sample_inventory i \<noteq>
      state_at (fst (inv_evaluate_lifecycle (\<lambda>_. (100, 100, 100)) sample_inventory)) i}"
proof -
  let ?rd = "\<lambda>_. (100, 100, 100)"
  have "inv_evaluate_lifecycle ?rd sample_inventory =
      (fst (inv_evaluate_lifecycle ?rd sample_inventory), Inr 2)"
    by (simp add: prod_eq_iff sample_sweep)
  from evaluate_lifecycle_evaluates_all[OF sample_reachable this] show ?thesis by blast
qed

section \<open>Terminal states are permanent\<close>

text \<open>
  Every operation moves the state of a tracked record by transitions only, or removes the
  record.
\<close>

definition moves_by_transitions :: "certificate_inventory \<Rightarrow> certificate_inventory \<Rightarrow> bool" where
  "moves_by_transitions iv iv' =
     (\<forall>i s. state_at iv i = Some s \<longrightarrow> (\<exists>cs. state_at iv' i = Some (lifecycle.run s cs)))"

lemma moves_refl [simp]: "moves_by_transitions iv iv"
  unfolding moves_by_transitions_def by (metis lifecycle.run.simps(1))

lemma moves_trans:
  assumes "moves_by_transitions a b" and "moves_by_transitions b c"
  shows "moves_by_transitions a c"
  using assms unfolding moves_by_transitions_def by (metis lifecycle.run_append)

lemma moves_put:
  assumes "hm_get (certificates iv) i = Some c" and "cm_state c' = request_transition (cm_state c) s"
  shows "moves_by_transitions iv (inv_put iv i c')"
  unfolding moves_by_transitions_def
proof (intro allI impI)
  fix j t assume t: "state_at iv j = Some t"
  show "\<exists>cs. state_at (inv_put iv i c') j = Some (lifecycle.run t cs)"
  proof (cases "j = i")
    case True
    then have "state_at (inv_put iv i c') j = Some (lifecycle.run t [s])"
      using t assms by (simp add: state_at_def)
    then show ?thesis by blast
  next
    case False
    then have "state_at (inv_put iv i c') j = Some (lifecycle.run t [])"
      using t by (simp add: state_at_def)
    then show ?thesis by blast
  qed
qed

lemma transition_moves:
  assumes "hm_get (certificates iv) i = Some c" and "transition now c s = Inr c'"
  shows "moves_by_transitions iv (inv_put iv i c')"
  using request_transition_transition[of c now s] assms by (intro moves_put) auto

lemma evaluate_moves:
  "evaluate r c = Inr (c', t) \<Longrightarrow> cm_state c' = request_transition (cm_state c) (cm_state c')"
  by (cases r) (auto simp: evaluate_def transition_ok request_transition_def
    split: if_splits sum.splits)

lemma moves_register: "moves_by_transitions iv (fst (inv_register iv c))"
  unfolding moves_by_transitions_def
proof (intro allI impI)
  fix j t assume t: "state_at iv j = Some t"
  then have "state_at (fst (inv_register iv c)) j = Some (lifecycle.run t [])"
    by (auto simp: state_at_def inv_register_cases registered_def hm_contains_def)
  then show "\<exists>cs. state_at (fst (inv_register iv c)) j = Some (lifecycle.run t cs)" by blast
qed

lemma moves_eval_ids: "moves_by_transitions iv (fst (eval_ids rd ids n iv))"
proof (induction ids arbitrary: n iv)
  case (Cons i ids)
  show ?case
  proof (cases "hm_get (certificates iv) i")
    case (Some c)
    show ?thesis
    proof (cases "evaluate (rd i) c")
      case (Inr r)
      then obtain c' s where e: "evaluate (rd i) c = Inr (c', s)" by (cases r) auto
      from moves_trans[OF moves_put[OF Some evaluate_moves[OF e]] Cons.IH] show ?thesis by (simp add: Some e)
    qed (simp add: Some)
  qed simp
qed simp

lemma moves_renewal: "moves_by_transitions iv (fst (inv_register_renewal now iv p r))"
proof (cases "hm_get (certificates iv) p")
  case (Some c)
  show ?thesis
  proof (cases "transition now c Renewed")
    case (Inr c')
    from moves_trans[OF transition_moves[OF Some this] moves_register] show ?thesis
      by (simp add: inv_register_renewal_def inv_get_mut_def Some Inr Let_def)
  qed (simp add: inv_register_renewal_def inv_get_mut_def Some)
qed (simp add: inv_register_renewal_def inv_get_mut_def)

lemma step_state:
  assumes "inventory_step iv iv'" and "hm_ok (certificates iv)" and "state_at iv i = Some s"
  shows "state_at iv' i = None \<or> (\<exists>cs. state_at iv' i = Some (lifecycle.run s cs))"
  using assms
proof (induction rule: inventory_step.induct)
  case (st_remove iv j)
  then have "state_at (fst (inv_remove iv j)) i = None \<or>
      state_at (fst (inv_remove iv j)) i = Some (lifecycle.run s [])"
    by (auto simp: inv_remove_cases removed_def state_at_def split: option.splits)
  then show ?case by blast
next
  case (st_revoke iv now j)
  have "moves_by_transitions iv (fst (inv_revoke now iv j))"
    by (auto simp: inv_revoke_def inv_get_mut_simps split: sum.split intro: transition_moves)
  then show ?case using st_revoke by (simp add: moves_by_transitions_def)
next
  case (st_mark_renewed iv now j)
  have "moves_by_transitions iv (fst (inv_mark_renewed now iv j))"
    by (auto simp: inv_mark_renewed_def inv_get_mut_simps split: sum.split intro: transition_moves)
  then show ?case using st_mark_renewed by (simp add: moves_by_transitions_def)
next
  case (st_rehash iv iv')
  then have "state_at iv' i = Some (lifecycle.run s [])"
    by (simp add: state_at_def hm_rehash_get)
  then show ?case by blast
next
  case (st_write iv j c c' t)
  then show ?case
    using moves_put[of iv j c c' t] by (simp add: moves_by_transitions_def inv_get_mut_simps)
qed (use moves_register moves_renewal moves_eval_ids in
      \<open>auto simp: moves_by_transitions_def inv_evaluate_lifecycle_def\<close>)

text \<open>
  C31. Revocation and expiry are permanent: whatever operation is applied next, a record in a
  terminal state keeps exactly that state or is removed from the inventory.
\<close>

theorem terminal_state_permanent:
  assumes "inventory_reachable iv" and "inventory_step iv iv'"
    and "state_at iv i = Some s" and "is_terminal s"
  shows "state_at iv' i = None \<or> state_at iv' i = Some s"
proof -
  have ok: "hm_ok (certificates iv)" by (rule inventory_okD(1)[OF reachable_ok[OF assms(1)]])
  have "lifecycle.run s cs = s" for cs
    using assms(4) revocation.run_terminal[of s cs] expiry.run_terminal[of s cs]
    by (auto simp: is_terminal_iff)
  then show ?thesis using step_state[OF assms(2) ok assms(3)] by auto
qed

theorem terminal_state_permanent_witness:
  "state_at (fst (inv_evaluate_lifecycle (\<lambda>_. (10, 10, 10)) (fst (inv_revoke 50 sample_inventory 1)))) 1 = None \<or>
   state_at (fst (inv_evaluate_lifecycle (\<lambda>_. (10, 10, 10)) (fst (inv_revoke 50 sample_inventory 1)))) 1 = Some Revoked"
proof -
  have r: "inventory_reachable (fst (inv_revoke 50 sample_inventory 1))"
    by (rule reach_step[OF sample_reachable st_revoke])
  have s: "state_at (fst (inv_revoke 50 sample_inventory 1)) 1 = Some Revoked"
    by (simp add: sample_revoked state_at_def)
  show ?thesis by (rule terminal_state_permanent[OF r st_evaluate s]) simp
qed

end
