(* ===== verification/Issuer.thy ===== *)
theory Issuer
  imports Rcgen
begin

text \<open>
  \<open>CertificateIssuer\<close> of \<open>daemon-pki-core/src/certificate/issuance.rs\<close> and the two
  certificate authorities of \<open>daemon-pki-core/src/ca/root.rs\<close>. Every early return is a
  \<open>Inl\<close>; the certificate itself is made by the crate's \<open>signed_by\<close>, so what the code is
  answerable for is the parameters it hands to it.
\<close>

section \<open>Requests\<close>

datatype issuance_error = Certificate rcgen_error | Policy string

record certificate_request =
  rq_common_name :: string
  rq_dns_names :: "string list"
  rq_ip_addresses :: "ip_addr list"
  rq_client_auth :: bool
  rq_server_auth :: bool

definition request_new :: "string \<Rightarrow> certificate_request" where
  "request_new cn = \<lparr>rq_common_name = cn, rq_dns_names = [], rq_ip_addresses = [],
     rq_client_auth = True, rq_server_auth = True\<rparr>"

definition with_dns_name :: "string \<Rightarrow> certificate_request \<Rightarrow> certificate_request" where
  "with_dns_name n rq = rq\<lparr>rq_dns_names := rq_dns_names rq @ [n]\<rparr>"

definition with_ip_address :: "ip_addr \<Rightarrow> certificate_request \<Rightarrow> certificate_request" where
  "with_ip_address a rq = rq\<lparr>rq_ip_addresses := rq_ip_addresses rq @ [a]\<rparr>"

definition validate_request :: "certificate_request \<Rightarrow> issuance_error + unit" where
  "validate_request rq =
     (if trim (rq_common_name rq) = [] \<and> rq_dns_names rq = [] \<and> rq_ip_addresses rq = []
      then Inl (Policy ''certificate must contain a subject identity'')
      else if length (rq_common_name rq) > 253
      then Inl (Policy ''common name exceeds maximum length'')
      else if length (rq_dns_names rq) > 100
      then Inl (Policy ''too many DNS subject alternative names'')
      else if length (rq_ip_addresses rq) > 100
      then Inl (Policy ''too many IP subject alternative names'')
      else if \<not> rq_server_auth rq \<and> \<not> rq_client_auth rq
      then Inl (Policy ''certificate must have at least one permitted extended key usage'')
      else Inr ())"

section \<open>Issuance\<close>

text \<open>The loop that converts and pushes the DNS names; the first bad name ends the call.\<close>

fun push_dns_names ::
  "('key, 'iss) rcgen \<Rightarrow> string list \<Rightarrow> certificate_params \<Rightarrow> issuance_error + certificate_params"
where
  "push_dns_names rc [] ps = Inr ps"
| "push_dns_names rc (n # ns) ps =
     (if rc_dns_ok rc n
      then push_dns_names rc ns (ps\<lparr>cp_subject_alt_names := cp_subject_alt_names ps @ [DnsName n]\<rparr>)
      else Inl (Policy ''invalid DNS subject alternative name''))"

fun push_ip_addresses :: "ip_addr list \<Rightarrow> certificate_params \<Rightarrow> certificate_params" where
  "push_ip_addresses [] ps = ps"
| "push_ip_addresses (a # as) ps =
     push_ip_addresses as (ps\<lparr>cp_subject_alt_names := cp_subject_alt_names ps @ [IpAddress a]\<rparr>)"

definition issuer_issue ::
  "('key, 'iss) rcgen \<Rightarrow> 'iss \<Rightarrow> certificate_request
   \<Rightarrow> issuance_error + rcgen_certificate \<times> 'key" where
  "issuer_issue rc ca_issuer rq =
     (case validate_request rq of Inl e \<Rightarrow> Inl e
      | Inr _ \<Rightarrow>
     (let ps0 = (rc_default rc)\<lparr>cp_distinguished_name := []\<rparr>;
          ps1 = (if trim (rq_common_name rq) \<noteq> []
                 then ps0\<lparr>cp_distinguished_name := cp_distinguished_name ps0 @ [(CommonName, rq_common_name rq)]\<rparr>
                 else ps0)
      in
      case push_dns_names rc (rq_dns_names rq) ps1 of Inl e \<Rightarrow> Inl e
      | Inr ps2 \<Rightarrow>
     (let ps3 = push_ip_addresses (rq_ip_addresses rq) ps2;
          ps4 = ps3\<lparr>cp_is_ca := NoCa\<rparr>;
          ps5 = ps4\<lparr>cp_key_usages := [DigitalSignature, KeyEncipherment]\<rparr>;
          eku0 = [];
          eku1 = (if rq_server_auth rq then eku0 @ [ServerAuth] else eku0);
          eku2 = (if rq_client_auth rq then eku1 @ [ClientAuth] else eku1);
          ps6 = ps5\<lparr>cp_extended_key_usages := eku2\<rparr>;
          ps7 = ps6\<lparr>cp_use_authority_key_identifier_extension := True\<rparr>
      in
      case rc_generate rc of Inl e \<Rightarrow> Inl (Certificate e)
      | Inr key \<Rightarrow>
          (case rc_signed_by rc ps7 key ca_issuer of Inl e \<Rightarrow> Inl (Certificate e)
           | Inr crt \<Rightarrow> Inr (crt, key)))))"

section \<open>Certificate authorities\<close>

datatype ca_error = Crypto rcgen_error | Configuration string

record 'iss root_ca =
  root_issuer :: 'iss
  root_cert_pem :: string
  root_cert_der :: bytes

record 'iss intermediate_ca =
  int_issuer :: 'iss
  int_cert_pem :: string
  int_cert_der :: bytes

definition ca_params ::
  "('key, 'iss) rcgen \<Rightarrow> basic_constraints \<Rightarrow> string \<Rightarrow> certificate_params" where
  "ca_params rc bc common_name =
     (rc_default rc)\<lparr>cp_distinguished_name := [(CommonName, common_name)],
       cp_is_ca := Ca bc, cp_key_usages := [KeyCertSign, CrlSign],
       cp_use_authority_key_identifier_extension := True\<rparr>"

definition root_generate ::
  "('key, 'iss) rcgen \<Rightarrow> string \<Rightarrow> ca_error + 'iss root_ca" where
  "root_generate rc common_name =
     (if trim common_name = []
      then Inl (Configuration ''root CA common name cannot be empty'')
      else
       (let ps = ca_params rc Unconstrained common_name in
        case rc_generate rc of Inl e \<Rightarrow> Inl (Crypto e)
        | Inr key \<Rightarrow>
            (case rc_self_signed rc ps key of Inl e \<Rightarrow> Inl (Crypto e)
             | Inr crt \<Rightarrow>
                 Inr \<lparr>root_issuer = rc_issuer_new rc ps key, root_cert_pem = crt_pem crt,
                      root_cert_der = crt_der crt\<rparr>)))"

definition could_not_parse_certificate :: rcgen_error where
  "could_not_parse_certificate = ''Could not parse certificate''"

definition root_from_pem ::
  "('key, 'iss) rcgen \<Rightarrow> string \<Rightarrow> string \<Rightarrow> ca_error + 'iss root_ca" where
  "root_from_pem rc certificate_pem private_key_pem =
     (if trim certificate_pem = [] then Inl (Configuration ''root CA certificate is empty'')
      else if trim private_key_pem = [] then Inl (Configuration ''root CA private key is empty'')
      else
       (case rc_key_from_pem rc private_key_pem of Inl e \<Rightarrow> Inl (Crypto e)
        | Inr key \<Rightarrow>
            (case rc_issuer_from_ca_cert_pem rc certificate_pem key of Inl e \<Rightarrow> Inl (Crypto e)
             | Inr iss \<Rightarrow>
                 (case rc_pem_contents rc certificate_pem of
                    None \<Rightarrow> Inl (Crypto could_not_parse_certificate)
                  | Some der \<Rightarrow>
                      Inr \<lparr>root_issuer = iss, root_cert_pem = certificate_pem, root_cert_der = der\<rparr>))))"

definition root_private_key_pem :: "('key, 'iss) rcgen \<Rightarrow> 'iss root_ca \<Rightarrow> string" where
  "root_private_key_pem rc r = rc_serialize_pem rc (rc_issuer_key rc (root_issuer r))"

definition intermediate_generate ::
  "('key, 'iss) rcgen \<Rightarrow> 'iss root_ca \<Rightarrow> string \<Rightarrow> ca_error + 'iss intermediate_ca" where
  "intermediate_generate rc root common_name =
     (if trim common_name = []
      then Inl (Configuration ''intermediate CA common name cannot be empty'')
      else
       (let ps = ca_params rc (Constrained 0) common_name in
        case rc_generate rc of Inl e \<Rightarrow> Inl (Crypto e)
        | Inr key \<Rightarrow>
            (case rc_signed_by rc ps key (root_issuer root) of Inl e \<Rightarrow> Inl (Crypto e)
             | Inr crt \<Rightarrow>
                 Inr \<lparr>int_issuer = rc_issuer_new rc ps key, int_cert_pem = crt_pem crt,
                      int_cert_der = crt_der crt\<rparr>)))"

definition intermediate_from_pem ::
  "('key, 'iss) rcgen \<Rightarrow> string \<Rightarrow> string \<Rightarrow> ca_error + 'iss intermediate_ca" where
  "intermediate_from_pem rc certificate_pem private_key_pem =
     (if trim certificate_pem = [] then Inl (Configuration ''intermediate CA certificate is empty'')
      else if trim private_key_pem = []
      then Inl (Configuration ''intermediate CA private key is empty'')
      else
       (case rc_key_from_pem rc private_key_pem of Inl e \<Rightarrow> Inl (Crypto e)
        | Inr key \<Rightarrow>
            (case rc_issuer_from_ca_cert_pem rc certificate_pem key of Inl e \<Rightarrow> Inl (Crypto e)
             | Inr iss \<Rightarrow>
                 (case rc_pem_contents rc certificate_pem of
                    None \<Rightarrow> Inl (Crypto could_not_parse_certificate)
                  | Some der \<Rightarrow>
                      Inr \<lparr>int_issuer = iss, int_cert_pem = certificate_pem, int_cert_der = der\<rparr>))))"

definition intermediate_private_key_pem :: "('key, 'iss) rcgen \<Rightarrow> 'iss intermediate_ca \<Rightarrow> string" where
  "intermediate_private_key_pem rc c = rc_serialize_pem rc (rc_issuer_key rc (int_issuer c))"

section \<open>Lemmas\<close>

lemma validate_request_ok:
  "validate_request rq = Inr () \<longleftrightarrow>
     (trim (rq_common_name rq) \<noteq> [] \<or> rq_dns_names rq \<noteq> [] \<or> rq_ip_addresses rq \<noteq> []) \<and>
     length (rq_common_name rq) \<le> 253 \<and> length (rq_dns_names rq) \<le> 100 \<and>
     length (rq_ip_addresses rq) \<le> 100 \<and> (rq_server_auth rq \<or> rq_client_auth rq)"
  by (auto simp: validate_request_def)

lemma push_dns_names_ok:
  "push_dns_names rc ns ps = Inr ps' \<longleftrightarrow>
     list_all (rc_dns_ok rc) ns \<and>
     ps' = ps\<lparr>cp_subject_alt_names := cp_subject_alt_names ps @ map DnsName ns\<rparr>"
  by (induction ns arbitrary: ps) auto

lemma push_dns_names_err:
  "push_dns_names rc ns ps = Inl e \<longleftrightarrow>
     \<not> list_all (rc_dns_ok rc) ns \<and> e = Policy ''invalid DNS subject alternative name''"
  by (induction ns arbitrary: ps) auto

lemma push_ip_addresses_eq:
  "push_ip_addresses as ps =
     ps\<lparr>cp_subject_alt_names := cp_subject_alt_names ps @ map IpAddress as\<rparr>"
  by (induction as arbitrary: ps) auto

text \<open>The parameters an accepted request is signed with.\<close>

definition leaf_params :: "('key, 'iss) rcgen \<Rightarrow> certificate_request \<Rightarrow> certificate_params" where
  "leaf_params rc rq =
     (rc_default rc)\<lparr>
       cp_distinguished_name :=
         (if trim (rq_common_name rq) = [] then [] else [(CommonName, rq_common_name rq)]),
       cp_subject_alt_names := cp_subject_alt_names (rc_default rc) @
         map DnsName (rq_dns_names rq) @ map IpAddress (rq_ip_addresses rq),
       cp_is_ca := NoCa,
       cp_key_usages := [DigitalSignature, KeyEncipherment],
       cp_extended_key_usages :=
         (if rq_server_auth rq then [ServerAuth] else []) @
         (if rq_client_auth rq then [ClientAuth] else []),
       cp_use_authority_key_identifier_extension := True\<rparr>"

lemma issuer_issue_eq:
  "issuer_issue rc iss rq =
     and_then (validate_request rq) (\<lambda>_.
       if list_all (rc_dns_ok rc) (rq_dns_names rq)
       then and_then (map_err Certificate (rc_generate rc)) (\<lambda>key.
              map_err Certificate (map_sum id (\<lambda>crt. (crt, key))
                (rc_signed_by rc (leaf_params rc rq) key iss)))
       else Inl (Policy ''invalid DNS subject alternative name''))"
proof (cases "validate_request rq")
  case (Inr u)
  show ?thesis
  proof (cases "list_all (rc_dns_ok rc) (rq_dns_names rq)")
    case True
    then have p: "push_dns_names rc (rq_dns_names rq) ps =
        Inr (ps\<lparr>cp_subject_alt_names := cp_subject_alt_names ps @ map DnsName (rq_dns_names rq)\<rparr>)" for ps
      by (simp add: push_dns_names_ok)
    show ?thesis using True Inr
      by (simp add: issuer_issue_def p push_ip_addresses_eq leaf_params_def Let_def
            split: sum.split)
  next
    case False
    then have p: "push_dns_names rc (rq_dns_names rq) ps =
        Inl (Policy ''invalid DNS subject alternative name'')" for ps
      by (simp add: push_dns_names_err)
    show ?thesis using False Inr by (simp add: issuer_issue_def p Let_def)
  qed
qed (simp add: issuer_issue_def)

lemma issuer_issue_ok:
  "issuer_issue rc iss rq = Inr (crt, key) \<longleftrightarrow>
     validate_request rq = Inr () \<and> list_all (rc_dns_ok rc) (rq_dns_names rq) \<and>
     rc_generate rc = Inr key \<and> rc_signed_by rc (leaf_params rc rq) key iss = Inr crt"
proof -
  have "map_sum id (\<lambda>c. (c, k)) r = Inr (crt, key) \<longleftrightarrow> r = Inr crt \<and> k = key" for k and r :: "rcgen_error + rcgen_certificate"
    by (cases r) auto
  then show ?thesis by (auto simp: issuer_issue_eq result_simps)
qed

text \<open>What the generation and the loading of a CA come to.\<close>

lemma root_generate_ok:
  "root_generate rc cn = Inr r \<longleftrightarrow>
     trim cn \<noteq> [] \<and> (\<exists>key crt. rc_generate rc = Inr key \<and>
       rc_self_signed rc (ca_params rc Unconstrained cn) key = Inr crt \<and>
       r = \<lparr>root_issuer = rc_issuer_new rc (ca_params rc Unconstrained cn) key,
            root_cert_pem = crt_pem crt, root_cert_der = crt_der crt\<rparr>)"
  by (auto simp: root_generate_def Let_def split: sum.split)

lemma intermediate_generate_ok:
  "intermediate_generate rc root cn = Inr c \<longleftrightarrow>
     trim cn \<noteq> [] \<and> (\<exists>key crt. rc_generate rc = Inr key \<and>
       rc_signed_by rc (ca_params rc (Constrained 0) cn) key (root_issuer root) = Inr crt \<and>
       c = \<lparr>int_issuer = rc_issuer_new rc (ca_params rc (Constrained 0) cn) key,
            int_cert_pem = crt_pem crt, int_cert_der = crt_der crt\<rparr>)"
  by (auto simp: intermediate_generate_def Let_def split: sum.split)

lemma root_from_pem_ok:
  "root_from_pem rc cp kp = Inr r \<longleftrightarrow>
     trim cp \<noteq> [] \<and> trim kp \<noteq> [] \<and> (\<exists>key iss der. rc_key_from_pem rc kp = Inr key \<and>
       rc_issuer_from_ca_cert_pem rc cp key = Inr iss \<and> rc_pem_contents rc cp = Some der \<and>
       r = \<lparr>root_issuer = iss, root_cert_pem = cp, root_cert_der = der\<rparr>)"
  by (auto simp: root_from_pem_def split: sum.split option.split)

lemma intermediate_from_pem_ok:
  "intermediate_from_pem rc cp kp = Inr c \<longleftrightarrow>
     trim cp \<noteq> [] \<and> trim kp \<noteq> [] \<and> (\<exists>key iss der. rc_key_from_pem rc kp = Inr key \<and>
       rc_issuer_from_ca_cert_pem rc cp key = Inr iss \<and> rc_pem_contents rc cp = Some der \<and>
       c = \<lparr>int_issuer = iss, int_cert_pem = cp, int_cert_der = der\<rparr>)"
  by (auto simp: intermediate_from_pem_def split: sum.split option.split)

text \<open>What comes back when a generated authority is written out as PEM and loaded.\<close>

lemma root_reloads:
  assumes "pem_faithful rc" and "root_generate rc cn = Inr r"
  shows "\<exists>r'. root_from_pem rc (root_cert_pem r) (root_private_key_pem rc r) = Inr r' \<and>
    root_cert_pem r' = root_cert_pem r \<and> root_cert_der r' = root_cert_der r \<and>
    root_private_key_pem rc r' = root_private_key_pem rc r"
proof -
  note f = assms(1)[unfolded pem_faithful_def]
  obtain k crt where k: "rc_self_signed rc (ca_params rc Unconstrained cn) k = Inr crt"
    and r: "r = \<lparr>root_issuer = rc_issuer_new rc (ca_params rc Unconstrained cn) k,
      root_cert_pem = crt_pem crt, root_cert_der = crt_der crt\<rparr>"
    using assms(2) by (auto simp: root_generate_ok)
  obtain i where "rc_issuer_from_ca_cert_pem rc (crt_pem crt) k = Inr i" "rc_issuer_key rc i = k"
    using f k by blast
  moreover have "trim (crt_pem crt) \<noteq> [] \<and> rc_pem_contents rc (crt_pem crt) = Some (crt_der crt)"
    using f k by blast
  ultimately show ?thesis using f by (auto simp: root_from_pem_ok r root_private_key_pem_def)
qed

lemma intermediate_reloads:
  assumes "pem_faithful rc" and "intermediate_generate rc root cn = Inr c"
  shows "\<exists>c'. intermediate_from_pem rc (int_cert_pem c) (intermediate_private_key_pem rc c) = Inr c' \<and>
    int_cert_pem c' = int_cert_pem c \<and> int_cert_der c' = int_cert_der c \<and>
    intermediate_private_key_pem rc c' = intermediate_private_key_pem rc c"
proof -
  note f = assms(1)[unfolded pem_faithful_def]
  obtain k crt where k: "rc_signed_by rc (ca_params rc (Constrained 0) cn) k (root_issuer root) = Inr crt"
    and c: "c = \<lparr>int_issuer = rc_issuer_new rc (ca_params rc (Constrained 0) cn) k,
      int_cert_pem = crt_pem crt, int_cert_der = crt_der crt\<rparr>"
    using assms(2) by (auto simp: intermediate_generate_ok)
  obtain i where "rc_issuer_from_ca_cert_pem rc (crt_pem crt) k = Inr i" "rc_issuer_key rc i = k"
    using f k by blast
  moreover have "trim (crt_pem crt) \<noteq> [] \<and> rc_pem_contents rc (crt_pem crt) = Some (crt_der crt)"
    using f k by blast
  ultimately show ?thesis using f by (auto simp: intermediate_from_pem_ok c intermediate_private_key_pem_def)
qed

section \<open>Properties\<close>

text \<open>
  C33. The issuer signs exactly the requests the policy admits, and signs only leaf parameters. It
  returns a certificate for a key if and only if the request names a subject, is within the
  length limits and asks for at least one usage, every DNS name is accepted by the certificate
  library, the key is the fresh one, and the CA signed parameters that are not a CA's, carry
  digital signature and key encipherment, exactly the requested extended usages, the common
  name unless it is blank, and all names and addresses in order after the library's defaults.
\<close>

theorem issuer_signs_only_leaf_profile:
  "issuer_issue rc iss rq = Inr (crt, key) \<longleftrightarrow>
     \<not> (trim (rq_common_name rq) = [] \<and> rq_dns_names rq = [] \<and> rq_ip_addresses rq = []) \<and>
     length (rq_common_name rq) \<le> 253 \<and> length (rq_dns_names rq) \<le> 100 \<and>
     length (rq_ip_addresses rq) \<le> 100 \<and> (rq_server_auth rq \<or> rq_client_auth rq) \<and>
     list_all (rc_dns_ok rc) (rq_dns_names rq) \<and> rc_generate rc = Inr key \<and>
     rc_signed_by rc
       \<lparr>cp_distinguished_name =
          (if trim (rq_common_name rq) = [] then [] else [(CommonName, rq_common_name rq)]),
        cp_subject_alt_names = cp_subject_alt_names (rc_default rc) @
          map DnsName (rq_dns_names rq) @ map IpAddress (rq_ip_addresses rq),
        cp_is_ca = NoCa, cp_key_usages = [DigitalSignature, KeyEncipherment],
        cp_extended_key_usages = (if rq_server_auth rq then [ServerAuth] else []) @
          (if rq_client_auth rq then [ClientAuth] else []),
        cp_use_authority_key_identifier_extension = True\<rparr> key iss = Inr crt"
proof -
  have "leaf_params rc rq =
      \<lparr>cp_distinguished_name =
          (if trim (rq_common_name rq) = [] then [] else [(CommonName, rq_common_name rq)]),
        cp_subject_alt_names = cp_subject_alt_names (rc_default rc) @
          map DnsName (rq_dns_names rq) @ map IpAddress (rq_ip_addresses rq),
        cp_is_ca = NoCa, cp_key_usages = [DigitalSignature, KeyEncipherment],
        cp_extended_key_usages = (if rq_server_auth rq then [ServerAuth] else []) @
          (if rq_client_auth rq then [ClientAuth] else []),
        cp_use_authority_key_identifier_extension = True\<rparr>"
    by (simp add: leaf_params_def)
  then show ?thesis by (simp only: issuer_issue_ok validate_request_ok) blast
qed

text \<open>
  C36. Certificate authorities survive a restart. A generated root, and an intermediate generated
  under it, whose certificate and key are written out as PEM and loaded again give an authority
  with the same certificate in both encodings and the same private key; the intermediate is
  signed with path length zero and certificate and CRL signing only.
\<close>

theorem generated_authority_reloads:
  assumes "pem_faithful rc" and "root_generate rc rn = Inr r"
    and "intermediate_generate rc r cn = Inr c"
  shows "(\<exists>r'. root_from_pem rc (root_cert_pem r) (root_private_key_pem rc r) = Inr r' \<and>
       root_cert_pem r' = root_cert_pem r \<and> root_cert_der r' = root_cert_der r \<and>
       root_private_key_pem rc r' = root_private_key_pem rc r) \<and>
    (\<exists>c'. intermediate_from_pem rc (int_cert_pem c) (intermediate_private_key_pem rc c) = Inr c' \<and>
       int_cert_pem c' = int_cert_pem c \<and> int_cert_der c' = int_cert_der c \<and>
       intermediate_private_key_pem rc c' = intermediate_private_key_pem rc c) \<and>
    (\<exists>ps key crt. rc_signed_by rc ps key (root_issuer r) = Inr crt \<and> int_cert_der c = crt_der crt \<and>
       cp_is_ca ps = Ca (Constrained 0) \<and> cp_key_usages ps = [KeyCertSign, CrlSign])"
proof -
  obtain k crt where "rc_signed_by rc (ca_params rc (Constrained 0) cn) k (root_issuer r) = Inr crt"
    and "int_cert_der c = crt_der crt"
    using assms(3) by (auto simp: intermediate_generate_ok)
  moreover have "cp_is_ca (ca_params rc (Constrained 0) cn) = Ca (Constrained 0)"
    "cp_key_usages (ca_params rc (Constrained 0) cn) = [KeyCertSign, CrlSign]"
    by (simp_all add: ca_params_def)
  ultimately show ?thesis
    using root_reloads[OF assms(1,2)] intermediate_reloads[OF assms(1,3)] by blast
qed

theorem generated_authority_reloads_witness:
  "\<exists>r'. root_from_pem sample_rcgen (root_cert_pem \<lparr>root_issuer = 7, root_cert_pem = crt_pem (sample_crt [7]),
      root_cert_der = [7]\<rparr>) (root_private_key_pem sample_rcgen \<lparr>root_issuer = 7,
      root_cert_pem = crt_pem (sample_crt [7]), root_cert_der = [7]\<rparr>) = Inr r' \<and>
    root_cert_der r' = [7]"
proof -
  have t: "trim ''Root'' \<noteq> []" using trim_plain[of "''Root''"] by (simp add: plain_char_def)
  have r: "root_generate sample_rcgen ''Root'' = Inr \<lparr>root_issuer = 7,
      root_cert_pem = crt_pem (sample_crt [7]), root_cert_der = [7]\<rparr>"
    using t by (simp add: root_generate_ok sample_rcgen_def sample_crt_def)
  have c: "intermediate_generate sample_rcgen \<lparr>root_issuer = 7, root_cert_pem = crt_pem (sample_crt [7]),
      root_cert_der = [7]\<rparr> ''Root'' = Inr \<lparr>int_issuer = 7, int_cert_pem = crt_pem (sample_crt [7, 7]),
      int_cert_der = [7, 7]\<rparr>"
    using t by (simp add: intermediate_generate_ok sample_rcgen_def sample_crt_def)
  show ?thesis using conjunct1[OF generated_authority_reloads[OF sample_rcgen_faithful r c]]
    by auto
qed

end
