(* ===== verification/Renewal.thy ===== *)
theory Renewal
  imports Inventory_Eval Issuer
begin

text \<open>
  The renewal queue of \<open>daemon-pki-core/src/certificate/lifecycle.rs\<close>: \<open>RenewalWorkItem\<close>,
  \<open>RenewalExecutor\<close> and the two \<open>LifecycleManager\<close> operations that run over the whole
  inventory. The executor's \<open>&mut RenewalWorkItem\<close> comes back as the first component of the
  result.
\<close>

section \<open>Work items\<close>

record renewal_work_item =
  wi_certificate_id :: uuid
  wi_action :: renewal_action_kind
  wi_attempts :: u32
  wi_queued_at :: instant
  wi_identity :: certificate_identity

text \<open>\<open>t\<close> is the reading of \<open>renewal_action\<close>, \<open>tq\<close> the one that stamps the item.\<close>

definition work_item_new ::
  "instant \<Rightarrow> instant \<Rightarrow> certificate_metadata \<Rightarrow> renewal_work_item option" where
  "work_item_new t tq c =
     (let action = renewal_action t c in
      if \<not> requires_action action then None
      else Some \<lparr>wi_certificate_id = cm_id c, wi_action = action, wi_attempts = 0,
             wi_queued_at = tq, wi_identity = cm_identity c\<rparr>)"

definition mark_attempt :: "renewal_work_item \<Rightarrow> renewal_work_item" where
  "mark_attempt w = w\<lparr>wi_attempts := saturating_add (wi_attempts w) 1\<rparr>"

fun add_dns_names :: "string list \<Rightarrow> certificate_request \<Rightarrow> certificate_request" where
  "add_dns_names [] rq = rq"
| "add_dns_names (n # ns) rq = add_dns_names ns (with_dns_name n rq)"

fun add_ip_addresses :: "ip_addr list \<Rightarrow> certificate_request \<Rightarrow> certificate_request" where
  "add_ip_addresses [] rq = rq"
| "add_ip_addresses (a # as) rq = add_ip_addresses as (with_ip_address a rq)"

definition work_item_request :: "renewal_work_item \<Rightarrow> certificate_request" where
  "work_item_request w =
     (let common_name = (case ci_common_name (wi_identity w) of None \<Rightarrow> [] | Some n \<Rightarrow> n);
          rq0 = request_new common_name;
          rq1 = add_dns_names (ci_dns_names (wi_identity w)) rq0;
          rq2 = add_ip_addresses (ci_ip_addresses (wi_identity w)) rq1;
          rq3 = rq2\<lparr>rq_client_auth := ci_client_auth (wi_identity w)\<rparr>
      in rq3\<lparr>rq_server_auth := ci_server_auth (wi_identity w)\<rparr>)"

section \<open>Execution\<close>

definition issue_replacement ::
  "('key, 'iss) rcgen \<Rightarrow> 'iss intermediate_ca \<Rightarrow> renewal_work_item
   \<Rightarrow> renewal_work_item \<times> (issuance_error + rcgen_certificate \<times> 'key)" where
  "issue_replacement rc ca w =
     (if wi_action w \<noteq> Renew
      then (w, Inl (Policy ''renewal work item does not require certificate renewal''))
      else
       (let w' = mark_attempt w; request = work_item_request w' in
        (w', issuer_issue rc (int_issuer ca) request)))"

definition renew_error :: "inventory_error \<Rightarrow> lifecycle_error" where
  "renew_error e =
     (case e of LifecycleErr lifecycle_error \<Rightarrow> lifecycle_error | _ \<Rightarrow> InvalidTransition Active Renewed)"

definition renew_into_inventory ::
  "instant \<Rightarrow> certificate_inventory \<Rightarrow> certificate_metadata \<Rightarrow> renewal_work_item
   \<Rightarrow> certificate_inventory \<times> (lifecycle_error + uuid)" where
  "renew_into_inventory now iv replacement w =
     (if wi_action w \<noteq> Renew then (iv, Inl (InvalidTransition Active Active))
      else (case inv_register_renewal now iv (wi_certificate_id w) replacement of
              (iv', r) \<Rightarrow> (iv', map_err renew_error r)))"

definition evaluate_all ::
  "(uuid \<Rightarrow> readings) \<Rightarrow> certificate_inventory \<Rightarrow> certificate_inventory \<times> (lifecycle_error + nat)"
where
  "evaluate_all rd iv =
     (case inv_evaluate_lifecycle rd iv of
        (iv', r) \<Rightarrow>
          (iv', map_err (\<lambda>e. case e of LifecycleErr lifecycle_error \<Rightarrow> lifecycle_error
                               | _ \<Rightarrow> InvalidTransition Active Active) r))"

text \<open>\<open>rd\<close> are the readings of \<open>renewal_candidates\<close>, \<open>t\<close> and \<open>tq\<close> those of the items, by
  the certificate they are made from.\<close>

definition renewal_queue ::
  "(nat \<Rightarrow> instant) \<Rightarrow> (uuid \<Rightarrow> instant) \<Rightarrow> (uuid \<Rightarrow> instant) \<Rightarrow> certificate_inventory
   \<Rightarrow> renewal_work_item list" where
  "renewal_queue rd t tq iv =
     List.map_filter (\<lambda>c. work_item_new (t (cm_id c)) (tq (cm_id c)) c) (inv_renewal_candidates rd iv)"

section \<open>Lemmas\<close>

lemma unat_mark_attempt:
  "unat (wi_attempts (mark_attempt w)) = min (unat (wi_attempts w) + 1) (2 ^ 32 - 1)"
  by (simp add: mark_attempt_def unat_saturating_add)

lemma add_dns_names_eq [simp]: "add_dns_names ns rq = rq\<lparr>rq_dns_names := rq_dns_names rq @ ns\<rparr>"
  by (induction ns arbitrary: rq) (simp_all add: with_dns_name_def)

lemma add_ip_addresses_eq [simp]:
  "add_ip_addresses as rq = rq\<lparr>rq_ip_addresses := rq_ip_addresses rq @ as\<rparr>"
  by (induction as arbitrary: rq) (simp_all add: with_ip_address_def)

lemma work_item_request_eq:
  "work_item_request w =
     \<lparr>rq_common_name = (case ci_common_name (wi_identity w) of None \<Rightarrow> [] | Some n \<Rightarrow> n),
      rq_dns_names = ci_dns_names (wi_identity w), rq_ip_addresses = ci_ip_addresses (wi_identity w),
      rq_client_auth = ci_client_auth (wi_identity w),
      rq_server_auth = ci_server_auth (wi_identity w)\<rparr>"
  by (simp add: work_item_request_def request_new_def Let_def)

lemma mark_attempt_request [simp]: "work_item_request (mark_attempt w) = work_item_request w"
  by (simp add: work_item_request_eq mark_attempt_def)

lemma candidate_tracked:
  assumes "inventory_ok iv" and "c \<in> set (inv_renewal_candidates rd iv)"
  shows "hm_get (certificates iv) (cm_id c) = Some c \<and> is_usable (cm_state c)"
proof -
  from assms(2) have v: "c \<in> set (hm_values (certificates iv))" and u: "is_usable (cm_state c)"
    by (auto simp: inv_renewal_candidates_def in_set_enumerate_eq renewal_due_usable)
  then obtain i where "hm_get (certificates iv) i = Some c"
    using set_hm_values[OF inventory_okD(1)[OF assms(1)]] by blast
  with inventory_okD(4)[OF assms(1), of i c] u show ?thesis by simp
qed

lemma queued_item:
  assumes "inventory_ok iv" and "w \<in> set (renewal_queue rd t tq iv)"
  shows "\<exists>c. hm_get (certificates iv) (wi_certificate_id w) = Some c \<and> is_usable (cm_state c) \<and>
           wi_action w = Renew \<and> wi_attempts w = 0 \<and> wi_identity w = cm_identity c"
proof -
  from assms(2) obtain c where c: "c \<in> set (inv_renewal_candidates rd iv)"
    and w: "work_item_new (t (cm_id c)) (tq (cm_id c)) c = Some w"
    by (auto simp: renewal_queue_def map_filter_def split: option.splits)
  note u = candidate_tracked[OF assms(1) c]
  have "renewal_action (t (cm_id c)) c \<noteq> Revoke"
    using u by (auto simp: renewal_action_terminal is_usable_iff is_terminal_iff)
  with u w show ?thesis
    by (cases "renewal_action (t (cm_id c)) c")
      (auto simp: work_item_new_def Let_def requires_action_iff split: if_splits)
qed

lemma usable_not_renewable:
  "is_usable (cm_state c) \<Longrightarrow> transition now c Renewed = Inl (InvalidTransition (cm_state c) Renewed)"
  by (auto simp: transition_error allowed_renewed is_usable_iff is_terminal_iff)

section \<open>Properties\<close>

text \<open>
  C34. The renewal queue feeds an executor that can never accept its items. Every item the queue
  holds names a tracked certificate in state Active or Expiring and asks for a renewal; storing
  a replacement for it in the inventory it was queued from always fails with
  \<open>InvalidTransition\<close> from that state to Renewed, and changes nothing, because only
  RenewalPending may move to Renewed.
\<close>

theorem queued_renewal_always_refused:
  assumes "inventory_reachable iv" and "w \<in> set (renewal_queue rd t tq iv)"
  shows "\<exists>c. inv_get iv (wi_certificate_id w) = Inr c \<and> (cm_state c = Active \<or> cm_state c = Expiring) \<and>
    wi_action w = Renew \<and>
    renew_into_inventory now iv replacement w = (iv, Inl (InvalidTransition (cm_state c) Renewed))"
proof -
  obtain c where c: "hm_get (certificates iv) (wi_certificate_id w) = Some c"
    and u: "is_usable (cm_state c)" and a: "wi_action w = Renew"
    using queued_item[OF reachable_ok[OF assms(1)] assms(2)] by blast
  have "renew_into_inventory now iv replacement w = (iv, Inl (InvalidTransition (cm_state c) Renewed))"
    using c a usable_not_renewable[OF u, of now]
    by (simp add: renew_into_inventory_def inv_register_renewal_def inv_get_mut_def renew_error_def)
  with c u a show ?thesis by (auto simp: inv_get_def is_usable_iff)
qed

lemma sample_queue:
  "(\<lparr>wi_certificate_id = 1, wi_action = Renew, wi_attempts = 0, wi_queued_at = 7,
     wi_identity = sample_identity\<rparr>) \<in> set (renewal_queue (\<lambda>_. 5) (\<lambda>_. 6) (\<lambda>_. 7) sample_inventory)"
  by code_simp

theorem queued_renewal_always_refused_witness:
  "\<exists>c. inv_get sample_inventory 1 = Inr c \<and> (cm_state c = Active \<or> cm_state c = Expiring)"
  using queued_renewal_always_refused[OF sample_reachable sample_queue] by auto

text \<open>
  C28. A renewal that the executor refuses is not undone. Where the predecessor is pending but the
  replacement's id or serial number is taken, \<open>renew_into_inventory\<close> answers with the generic
  error Active to Renewed and leaves the predecessor marked Renewed with no successor: the
  inventory has as many records as before, none of them the replacement.
\<close>

theorem failed_renewal_not_rolled_back:
  assumes "inventory_reachable iv" and "inv_get iv (wi_certificate_id w) = Inr c"
    and "cm_state c = RenewalPending" and "wi_action w = Renew"
    and "inv_get iv (cm_id r) = Inr d \<or> inv_find_by_serial iv (cm_serial_number r) = Inr d"
  shows "renew_into_inventory now iv r w =
    (inv_put iv (wi_certificate_id w) (c\<lparr>cm_state := Renewed, cm_updated_at := now\<rparr>),
     Inl (InvalidTransition Active Renewed))"
proof -
  let ?p = "wi_certificate_id w" let ?c = "c\<lparr>cm_state := Renewed, cm_updated_at := now\<rparr>"
  note ok = reachable_ok[OF assms(1)]
  from assms(2) have c: "hm_get (certificates iv) ?p = Some c" by (simp add: inv_get_def result_simps)
  have tr: "transition now c Renewed = Inr ?c" using assms(3) by (simp add: transition_ok)
  have taken: "hm_contains (certificates (inv_put iv ?p ?c)) (cm_id r) \<or>
      hm_contains (serial_index (inv_put iv ?p ?c)) (cm_serial_number r)"
    using assms(5) find_by_serial_iff[OF ok] index_completeD[OF inventory_okD(6)[OF ok]]
    by (auto simp: inv_put_def hm_contains_iff inv_get_def result_simps)
  show ?thesis using c tr taken assms(4)
    by (auto simp: renew_into_inventory_def inv_register_renewal_def inv_get_mut_def Let_def
        inv_register_cases renew_error_def)
qed

definition sample_pending :: certificate_inventory where
  "sample_pending = inv_put sample_inventory 1 ((sample_cert 1 ''01'' 100)\<lparr>cm_state := RenewalPending\<rparr>)"

lemma sample_pending_reachable: "inventory_reachable sample_pending"
  unfolding sample_pending_def
  by (rule reach_step[OF sample_reachable st_write[where c = "sample_cert 1 ''01'' 100" and s = RenewalPending]])
    (simp_all add: inv_get_mut_def sample_get request_transition_def)

theorem failed_renewal_not_rolled_back_witness:
  "renew_into_inventory 9 sample_pending (sample_cert 2 ''09'' 100)
     \<lparr>wi_certificate_id = 1, wi_action = Renew, wi_attempts = 0, wi_queued_at = 7,
       wi_identity = sample_identity\<rparr> =
   (inv_put sample_pending 1 ((sample_cert 1 ''01'' 100)\<lparr>cm_state := Renewed, cm_updated_at := 9\<rparr>),
    Inl (InvalidTransition Active Renewed))"
  by (subst failed_renewal_not_rolled_back[OF sample_pending_reachable,
        where c = "(sample_cert 1 ''01'' 100)\<lparr>cm_state := RenewalPending\<rparr>" and d = "sample_cert 2 ''02'' 100"])
    (simp_all add: sample_pending_def inv_get_def inv_put_def sample_get)

text \<open>
  C29. The replacement of a queued certificate is issued for the identity of the certificate it
  replaces: the executor counts the attempt (stopping at \<open>u32::MAX\<close>), and, where the issuer
  succeeds, what it signs is a non-CA certificate with the identity's common name, all its DNS
  names and addresses in order, and exactly its client and server usages.
\<close>

theorem replacement_keeps_identity:
  assumes "inventory_reachable iv" and "w \<in> set (renewal_queue rd t tq iv)"
    and "issue_replacement rc ca w = (w', Inr (crt, key))"
  shows "\<exists>c ps. inv_get iv (wi_certificate_id w) = Inr c \<and> unat (wi_attempts w') = 1 \<and>
    rc_signed_by rc ps key (int_issuer ca) = Inr crt \<and> cp_is_ca ps = NoCa \<and>
    cp_subject_alt_names ps = cp_subject_alt_names (rc_default rc) @
      map DnsName (ci_dns_names (cm_identity c)) @ map IpAddress (ci_ip_addresses (cm_identity c)) \<and>
    (ServerAuth \<in> set (cp_extended_key_usages ps) \<longleftrightarrow> ci_server_auth (cm_identity c)) \<and>
    (ClientAuth \<in> set (cp_extended_key_usages ps) \<longleftrightarrow> ci_client_auth (cm_identity c))"
proof -
  obtain c where c: "hm_get (certificates iv) (wi_certificate_id w) = Some c"
    and a: "wi_action w = Renew" "wi_attempts w = 0" and i: "wi_identity w = cm_identity c"
    using queued_item[OF reachable_ok[OF assms(1)] assms(2)] by blast
  let ?ps = "leaf_params rc (work_item_request w)"
  have iss: "issuer_issue rc (int_issuer ca) (work_item_request w) = Inr (crt, key)"
    and w': "w' = mark_attempt w"
    using assms(3) a by (simp_all add: issue_replacement_def Let_def)
  have s: "rc_signed_by rc ?ps key (int_issuer ca) = Inr crt"
    using iss by (simp add: issuer_issue_ok)
  have u: "unat (wi_attempts w') = 1" using w' a unat_mark_attempt[of w] by simp
  show ?thesis
    using c s u i
    by (intro exI[of _ c] exI[of _ ?ps]) (simp add: leaf_params_def work_item_request_eq inv_get_def)
qed

theorem replacement_keeps_identity_witness:
  "\<exists>c ps. inv_get sample_inventory 1 = Inr c \<and>
    rc_signed_by sample_rcgen ps 7 (3::nat) = Inr (sample_crt [7, 3])"
proof -
  let ?w = "\<lparr>wi_certificate_id = 1, wi_action = Renew, wi_attempts = 0, wi_queued_at = 7,
     wi_identity = sample_identity\<rparr>"
  let ?ca = "\<lparr>int_issuer = 3::nat, int_cert_pem = [], int_cert_der = []\<rparr>"
  have i: "issue_replacement sample_rcgen ?ca ?w =
      (mark_attempt ?w, Inr (sample_crt [7, 3], 7))"
    by (simp add: issue_replacement_def issuer_issue_ok validate_request_ok work_item_request_eq
        mark_attempt_def sample_identity_def sample_rcgen_def Let_def)
  show ?thesis using replacement_keeps_identity[OF sample_reachable sample_queue i] by fastforce
qed

end
