(* ===== verification/Issuance_Service.thy ===== *)
theory Issuance_Service
  imports Crl_Manager Renewal
begin

text \<open>
  \<open>IssuanceService\<close> of \<open>daemon-pki-api/src/issuance.rs\<close>: authorization, policy, the call of
  the core issuer, the certificate record and the audit event of one request. Its state is the
  audit log, the certificate store and the file system under it; the clock readings and fresh
  UUIDs of one call are the record \<open>issue_fresh\<close>. The DER reader of \<open>x509_parser\<close> is the
  record \<open>der_reader\<close>. The private key \<open>issue\<close> gets back from the issuer is dropped, as in
  the code.
\<close>

section \<open>Data\<close>

record authenticated_principal =
  pr_id :: uuid
  pr_name :: string
  pr_roles :: "string list"

definition principal_has_role :: "string \<Rightarrow> authenticated_principal \<Rightarrow> bool" where
  "principal_has_role role p = list_ex (\<lambda>r. r = role) (pr_roles p)"

record issuance_policy =
  pol_max_dns_names :: nat
  pol_max_ip_addresses :: nat
  pol_max_common_name_length :: nat
  pol_require_server_auth :: bool
  pol_require_client_auth :: bool

definition policy_default :: issuance_policy where
  "policy_default = \<lparr>pol_max_dns_names = 100, pol_max_ip_addresses = 100,
     pol_max_common_name_length = 253, pol_require_server_auth = False, pol_require_client_auth = False\<rparr>"

record issue_certificate_request =
  iq_common_name :: string
  iq_dns_names :: "string list"
  iq_ip_addresses :: "string list"
  iq_client_auth :: bool
  iq_server_auth :: bool

record issue_certificate_response =
  resp_certificate_pem :: string
  resp_issuer :: string
  resp_common_name :: string
  resp_dns_names :: "string list"
  resp_ip_addresses :: "string list"
  resp_client_auth :: bool
  resp_server_auth :: bool

record issuance_audit_event =
  ia_event_id :: uuid
  ia_principal_id :: uuid
  ia_principal_name :: string
  ia_common_name :: string
  ia_success :: bool
  ia_reason :: "string option"

datatype issuance_service_error =
  StoreFailed string | Unauthorized | InvalidRequest string | Issuance issuance_error

record service_state =
  sv_audit :: audit_store
  sv_store :: certificate_store
  sv_fs :: fs

record issue_fresh =
  if_event_id :: uuid
  if_event_time :: instant
  if_record_id :: uuid
  if_record_time :: instant
  if_audit_id :: uuid

record 'c der_reader =
  dr_from_der :: "bytes \<Rightarrow> string + 'c"
  dr_serial_to_bytes_be :: "'c \<Rightarrow> bytes"
  dr_not_after :: "'c \<Rightarrow> instant"

section \<open>Error texts\<close>

definition issuance_error_text :: "issuance_error \<Rightarrow> string" where
  "issuance_error_text e =
     (case e of Certificate x \<Rightarrow> ''certificate generation failed: '' @ x
      | Policy x \<Rightarrow> ''certificate request rejected: '' @ x)"

definition store_error_text :: "certificate_store_error \<Rightarrow> string" where
  "store_error_text e =
     (case e of Io x \<Rightarrow> ''certificate store I/O failed: '' @ x
      | Serialization x \<Rightarrow> ''certificate store serialization failed: '' @ x)"

definition service_error_text :: "issuance_service_error \<Rightarrow> string" where
  "service_error_text e =
     (case e of StoreFailed x \<Rightarrow> ''certificate store error: '' @ x
      | Unauthorized \<Rightarrow> ''caller is not authorized to issue certificates''
      | InvalidRequest x \<Rightarrow> ''certificate request is invalid: '' @ x
      | Issuance x \<Rightarrow> ''certificate issuance failed: '' @ issuance_error_text x)"

section \<open>Operations\<close>

definition record_event ::
  "uuid \<Rightarrow> instant \<Rightarrow> audit_event_type \<Rightarrow> audit_outcome \<Rightarrow> authenticated_principal \<Rightarrow> string
   \<Rightarrow> string option \<Rightarrow> service_state \<Rightarrow> service_state" where
  "record_event new_id now ty outcome p common_name reason st =
     (let e0 = audit_event_new new_id now ty outcome ''certificate.issue'';
          e1 = with_resource ''certificate'' (with_principal (pr_id p) (pr_name p) e0);
          e2 = (if common_name \<noteq> []
                then with_metadata (JObject [(''common_name'', JString common_name)]) e1 else e1);
          e3 = (case reason of None \<Rightarrow> e2 | Some r \<Rightarrow> with_reason r e2)
      in st\<lparr>sv_audit := audit_record e3 (sv_audit st)\<rparr>)"

definition service_validate_request ::
  "issuance_policy \<Rightarrow> issue_certificate_request \<Rightarrow> issuance_service_error + unit" where
  "service_validate_request pol rq =
     (if trim (iq_common_name rq) = [] then Inl (InvalidRequest ''common name cannot be empty'')
      else if length (iq_common_name rq) > pol_max_common_name_length pol
      then Inl (InvalidRequest ''common name exceeds policy limit'')
      else if length (iq_dns_names rq) > pol_max_dns_names pol
      then Inl (InvalidRequest ''too many DNS names'')
      else if length (iq_ip_addresses rq) > pol_max_ip_addresses pol
      then Inl (InvalidRequest ''too many IP addresses'')
      else if iq_dns_names rq = [] \<and> iq_ip_addresses rq = []
      then Inl (InvalidRequest ''certificate must contain at least one SAN identity'')
      else if \<not> iq_client_auth rq \<and> \<not> iq_server_auth rq
      then Inl (InvalidRequest ''at least one extended key usage is required'')
      else if pol_require_server_auth pol \<and> \<not> iq_server_auth rq
      then Inl (InvalidRequest ''server authentication is required by policy'')
      else if pol_require_client_auth pol \<and> \<not> iq_client_auth rq
      then Inl (InvalidRequest ''client authentication is required by policy'')
      else Inr ())"

text \<open>The loop over the textual addresses; \<open>Inl\<close> holds the first one that does not parse.\<close>

fun parse_ip_addresses :: "string list \<Rightarrow> certificate_request \<Rightarrow> string + certificate_request" where
  "parse_ip_addresses [] rq = Inr rq"
| "parse_ip_addresses (a # as) rq =
     (case parse_ip_addr a of None \<Rightarrow> Inl a
      | Some parsed \<Rightarrow> parse_ip_addresses as (with_ip_address parsed rq))"

definition daemon_issuer :: string where
  "daemon_issuer = ''Daemon PKI Intermediate CA''"

definition issued_record ::
  "issue_fresh \<Rightarrow> issue_certificate_request \<Rightarrow> string \<Rightarrow> bytes \<Rightarrow> instant \<Rightarrow> certificate_record" where
  "issued_record fr rq pem serial na =
     certificate_record_new (if_record_id fr) (if_record_time fr) (hex_of_bytes serial)
       (iq_common_name rq) (iq_dns_names rq) (iq_ip_addresses rq) (iq_client_auth rq)
       (iq_server_auth rq) daemon_issuer pem (Some na)"

definition issued_response :: "issue_certificate_request \<Rightarrow> string \<Rightarrow> issue_certificate_response" where
  "issued_response rq pem =
     \<lparr>resp_certificate_pem = pem, resp_issuer = daemon_issuer, resp_common_name = iq_common_name rq,
      resp_dns_names = iq_dns_names rq, resp_ip_addresses = iq_ip_addresses rq,
      resp_client_auth = iq_client_auth rq, resp_server_auth = iq_server_auth rq\<rparr>"

text \<open>\<open>issue\<close> up to the insertion: everything before it works on the request alone and on the audit log.\<close>

definition issue_prepared ::
  "('key, 'iss) rcgen \<Rightarrow> 'c der_reader \<Rightarrow> issuance_policy \<Rightarrow> issue_fresh
   \<Rightarrow> authenticated_principal \<Rightarrow> 'iss intermediate_ca \<Rightarrow> issue_certificate_request \<Rightarrow> service_state
   \<Rightarrow> service_state \<times> (issuance_service_error + certificate_record \<times> string)"
where
  "issue_prepared rc dr pol fr p ca rq st =
     (let rec = (\<lambda>ty outcome reason st'. record_event (if_event_id fr) (if_event_time fr) ty outcome p
                   (iq_common_name rq) reason st')
      in
      if \<not> principal_has_role ''certificate:issue'' p
      then (rec AuthorizationDenied Denied (Some ''caller is not authorized to issue certificates'') st,
            Inl Unauthorized)
      else
      case service_validate_request pol rq of
        Inl e \<Rightarrow> (rec PolicyDenied Denied (Some (service_error_text e)) st, Inl e)
      | Inr _ \<Rightarrow>
      (let rq0 = add_dns_names (iq_dns_names rq) (request_new (iq_common_name rq)) in
      case parse_ip_addresses (iq_ip_addresses rq) rq0 of
        Inl a \<Rightarrow>
          (let reason = ''invalid IP address: '' @ a in
           (rec PolicyDenied Denied (Some reason) st, Inl (InvalidRequest reason)))
      | Inr rq1 \<Rightarrow>
      (let rq2 = rq1\<lparr>rq_client_auth := iq_client_auth rq\<rparr>;
           rq3 = rq2\<lparr>rq_server_auth := iq_server_auth rq\<rparr>
      in
      case issuer_issue rc (int_issuer ca) rq3 of
        Inl e \<Rightarrow>
          (rec CertificateIssued Failure (Some (issuance_error_text e)) st, Inl (Issuance e))
      | Inr (crt, _) \<Rightarrow>
      (case dr_from_der dr (crt_der crt) of
        Inl e \<Rightarrow> (st, Inl (StoreFailed (''failed to parse issued certificate: '' @ e)))
      | Inr parsed \<Rightarrow>
          (st, Inr (issued_record fr rq (crt_pem crt) (dr_serial_to_bytes_be dr parsed) (dr_not_after dr parsed),
             crt_pem crt))))))"

definition service_issue ::
  "('key, 'iss) rcgen \<Rightarrow> 'c der_reader \<Rightarrow> serde \<Rightarrow> issuance_policy \<Rightarrow> issue_fresh
   \<Rightarrow> authenticated_principal \<Rightarrow> 'iss intermediate_ca \<Rightarrow> issue_certificate_request \<Rightarrow> service_state
   \<Rightarrow> service_state \<times> (issuance_service_error + issue_certificate_response \<times> issuance_audit_event)"
where
  "service_issue rc dr sd pol fr p ca rq st =
     (case issue_prepared rc dr pol fr p ca rq st of
        (st1, Inl e) \<Rightarrow> (st1, Inl e)
      | (st1, Inr (r, pem)) \<Rightarrow>
      (case store_insert sd r (sv_store st1) (sv_fs st1) of
        ((s', w'), Inl e) \<Rightarrow>
          (st1\<lparr>sv_store := s', sv_fs := w'\<rparr>, Inl (StoreFailed (store_error_text e)))
      | ((s', w'), Inr _) \<Rightarrow>
          (record_event (if_event_id fr) (if_event_time fr) CertificateIssued Success p (iq_common_name rq) None
             (st1\<lparr>sv_store := s', sv_fs := w'\<rparr>),
           Inr (issued_response rq pem,
                \<lparr>ia_event_id = if_audit_id fr, ia_principal_id = pr_id p, ia_principal_name = pr_name p,
                 ia_common_name = iq_common_name rq, ia_success = True, ia_reason = None\<rparr>))))"

section \<open>Lemmas\<close>

lemma principal_has_role_iff: "principal_has_role role p \<longleftrightarrow> role \<in> set (pr_roles p)"
  by (auto simp: principal_has_role_def list_ex_iff)

lemma service_validate_ok:
  "service_validate_request pol rq = Inr u \<longleftrightarrow>
     trim (iq_common_name rq) \<noteq> [] \<and> length (iq_common_name rq) \<le> pol_max_common_name_length pol \<and>
     length (iq_dns_names rq) \<le> pol_max_dns_names pol \<and>
     length (iq_ip_addresses rq) \<le> pol_max_ip_addresses pol \<and>
     (iq_dns_names rq \<noteq> [] \<or> iq_ip_addresses rq \<noteq> []) \<and> (iq_client_auth rq \<or> iq_server_auth rq) \<and>
     (pol_require_server_auth pol \<longrightarrow> iq_server_auth rq) \<and> (pol_require_client_auth pol \<longrightarrow> iq_client_auth rq)"
  by (auto simp: service_validate_request_def)

lemma parse_ip_addresses_ok:
  "parse_ip_addresses as rq = Inr rq' \<longleftrightarrow>
     (\<exists>ips. map parse_ip_addr as = map Some ips \<and> rq' = rq\<lparr>rq_ip_addresses := rq_ip_addresses rq @ ips\<rparr>)"
proof (induction as arbitrary: rq)
  case (Cons a as)
  show ?case
  proof (cases "parse_ip_addr a")
    case None
    then show ?thesis by auto
  next
    case (Some x)
    have "(\<exists>ips. Some x # map parse_ip_addr as = map Some ips \<and> Q ips) \<longleftrightarrow>
        (\<exists>ips. map parse_ip_addr as = map Some ips \<and> Q (x # ips))" for Q
      by (auto simp: map_eq_Cons_conv) (metis list.simps(9))
    with Some Cons[of "with_ip_address x rq"] show ?thesis by (simp add: with_ip_address_def)
  qed
qed auto

text \<open>What \<open>record_event\<close> does: one more event, nothing else.\<close>

definition issue_event ::
  "issue_fresh \<Rightarrow> authenticated_principal \<Rightarrow> string \<Rightarrow> audit_event_type \<Rightarrow> audit_outcome \<Rightarrow> string option
   \<Rightarrow> audit_event" where
  "issue_event fr p cn ty outcome reason =
     \<lparr>ae_id = if_event_id fr, ae_event_type = ty, ae_outcome = outcome, ae_timestamp = if_event_time fr,
      ae_principal_id = Some (pr_id p), ae_principal_name = Some (pr_name p), ae_certificate_id = None,
      ae_certificate_serial = None, ae_resource = Some ''certificate'', ae_action = ''certificate.issue'',
      ae_reason = reason,
      ae_metadata = JObject (if cn = [] then [] else [(''common_name'', JString cn)])\<rparr>"

lemma record_event_eq:
  "record_event (if_event_id fr) (if_event_time fr) ty outcome p cn reason st =
     st\<lparr>sv_audit := audit_record (issue_event fr p cn ty outcome reason) (sv_audit st)\<rparr>"
  by (cases reason)
    (simp_all add: record_event_def issue_event_def audit_event_new_def with_resource_def with_principal_def
      with_metadata_def with_reason_def Let_def)

text \<open>The core request a service request becomes, once its addresses are parsed.\<close>

definition core_request :: "issue_certificate_request \<Rightarrow> ip_addr list \<Rightarrow> certificate_request" where
  "core_request rq ips =
     \<lparr>rq_common_name = iq_common_name rq, rq_dns_names = iq_dns_names rq, rq_ip_addresses = ips,
      rq_client_auth = iq_client_auth rq, rq_server_auth = iq_server_auth rq\<rparr>"

lemma core_request_built:
  "parse_ip_addresses (iq_ip_addresses rq) (add_dns_names (iq_dns_names rq) (request_new (iq_common_name rq))) = Inr rq1 \<longleftrightarrow>
     (\<exists>ips. map parse_ip_addr (iq_ip_addresses rq) = map Some ips \<and>
        rq1 = (core_request rq ips)\<lparr>rq_client_auth := True, rq_server_auth := True\<rparr>)"
  by (simp add: parse_ip_addresses_ok request_new_def core_request_def)

definition with_event ::
  "issue_fresh \<Rightarrow> authenticated_principal \<Rightarrow> issue_certificate_request \<Rightarrow> audit_event_type \<Rightarrow> audit_outcome
   \<Rightarrow> string option \<Rightarrow> service_state \<Rightarrow> service_state" where
  "with_event fr p rq ty outcome reason st =
     st\<lparr>sv_audit := audit_record (issue_event fr p (iq_common_name rq) ty outcome reason) (sv_audit st)\<rparr>"

lemma with_event_simps [simp]:
  "audit_list (sv_audit (with_event fr p rq ty outc reason st)) =
     audit_list (sv_audit st) @ [issue_event fr p (iq_common_name rq) ty outc reason]"
  "sv_store (with_event fr p rq ty outc reason st) = sv_store st"
  "sv_fs (with_event fr p rq ty outc reason st) = sv_fs st"
  by (simp_all add: with_event_def audit.record_appends)

text \<open>The stages of \<open>issue\<close>, one equation for each.\<close>

lemma issue_unauthorized:
  assumes "''certificate:issue'' \<notin> set (pr_roles p)"
  shows "service_issue rc dr sd pol fr p ca rq st =
    (with_event fr p rq AuthorizationDenied Denied (Some ''caller is not authorized to issue certificates'') st,
     Inl Unauthorized)"
  using assms by (simp add: service_issue_def issue_prepared_def principal_has_role_iff Let_def record_event_eq with_event_def)

lemma issue_invalid:
  assumes "''certificate:issue'' \<in> set (pr_roles p)" and "service_validate_request pol rq = Inl e"
  shows "service_issue rc dr sd pol fr p ca rq st =
    (with_event fr p rq PolicyDenied Denied (Some (service_error_text e)) st, Inl e)"
  using assms by (simp add: service_issue_def issue_prepared_def principal_has_role_iff Let_def record_event_eq with_event_def)

lemma issue_bad_address:
  assumes "''certificate:issue'' \<in> set (pr_roles p)" and "service_validate_request pol rq = Inr u"
    and "parse_ip_addresses (iq_ip_addresses rq)
      (add_dns_names (iq_dns_names rq) (request_new (iq_common_name rq))) = Inl a"
  shows "service_issue rc dr sd pol fr p ca rq st =
    (with_event fr p rq PolicyDenied Denied (Some (''invalid IP address: '' @ a)) st,
     Inl (InvalidRequest (''invalid IP address: '' @ a)))"
  using assms(1,2) assms(3)[simplified]
  by (simp add: service_issue_def issue_prepared_def principal_has_role_iff Let_def record_event_eq with_event_def)

lemma prepared_signing:
  assumes "''certificate:issue'' \<in> set (pr_roles p)" and "service_validate_request pol rq = Inr u"
    and "map parse_ip_addr (iq_ip_addresses rq) = map Some ips"
  shows "issue_prepared rc dr pol fr p ca rq st =
    (case issuer_issue rc (int_issuer ca) (core_request rq ips) of
       Inl e \<Rightarrow> (with_event fr p rq CertificateIssued Failure (Some (issuance_error_text e)) st, Inl (Issuance e))
     | Inr (crt, key) \<Rightarrow>
         (case dr_from_der dr (crt_der crt) of
            Inl e \<Rightarrow> (st, Inl (StoreFailed (''failed to parse issued certificate: '' @ e)))
          | Inr parsed \<Rightarrow>
              (st, Inr (issued_record fr rq (crt_pem crt) (dr_serial_to_bytes_be dr parsed) (dr_not_after dr parsed),
                 crt_pem crt))))"
proof -
  let ?rq1 = "(core_request rq ips)\<lparr>rq_client_auth := True, rq_server_auth := True\<rparr>"
  have b: "parse_ip_addresses (iq_ip_addresses rq)
      (add_dns_names (iq_dns_names rq) (request_new (iq_common_name rq))) = Inr ?rq1"
    using assms(3) by (subst core_request_built) blast
  have c: "?rq1\<lparr>rq_client_auth := iq_client_auth rq, rq_server_auth := iq_server_auth rq\<rparr> = core_request rq ips"
    by (simp add: core_request_def)
  show ?thesis
    using assms(1,2) b[simplified] c[simplified]
    by (simp add: issue_prepared_def principal_has_role_iff Let_def record_event_eq with_event_def
        split del: if_split cong: sum.case_cong)
qed

lemma issue_signing:
  assumes "''certificate:issue'' \<in> set (pr_roles p)" and "service_validate_request pol rq = Inr u"
    and "map parse_ip_addr (iq_ip_addresses rq) = map Some ips"
  shows "service_issue rc dr sd pol fr p ca rq st =
    (case issuer_issue rc (int_issuer ca) (core_request rq ips) of
       Inl e \<Rightarrow> (with_event fr p rq CertificateIssued Failure (Some (issuance_error_text e)) st, Inl (Issuance e))
     | Inr (crt, key) \<Rightarrow>
         (case dr_from_der dr (crt_der crt) of
            Inl e \<Rightarrow> (st, Inl (StoreFailed (''failed to parse issued certificate: '' @ e)))
          | Inr parsed \<Rightarrow>
              (case store_insert sd (issued_record fr rq (crt_pem crt) (dr_serial_to_bytes_be dr parsed)
                       (dr_not_after dr parsed)) (sv_store st) (sv_fs st) of
                 ((s', w'), Inl e) \<Rightarrow> (st\<lparr>sv_store := s', sv_fs := w'\<rparr>, Inl (StoreFailed (store_error_text e)))
               | ((s', w'), Inr i) \<Rightarrow>
                   (with_event fr p rq CertificateIssued Success None (st\<lparr>sv_store := s', sv_fs := w'\<rparr>),
                    Inr (issued_response rq (crt_pem crt),
                      \<lparr>ia_event_id = if_audit_id fr, ia_principal_id = pr_id p, ia_principal_name = pr_name p,
                       ia_common_name = iq_common_name rq, ia_success = True, ia_reason = None\<rparr>)))))"
  unfolding service_issue_def prepared_signing[OF assms] record_event_eq with_event_def
  by (simp split: sum.split prod.split)

lemma issue_stages:
  obtains (unauthorized) "''certificate:issue'' \<notin> set (pr_roles p)"
  | (invalid) e where "''certificate:issue'' \<in> set (pr_roles p)" "service_validate_request pol rq = Inl e"
  | (bad_address) a where "''certificate:issue'' \<in> set (pr_roles p)" "service_validate_request pol rq = Inr ()"
      "parse_ip_addresses (iq_ip_addresses rq)
        (add_dns_names (iq_dns_names rq) (request_new (iq_common_name rq))) = Inl a"
  | (signing) ips where "''certificate:issue'' \<in> set (pr_roles p)" "service_validate_request pol rq = Inr ()"
      "map parse_ip_addr (iq_ip_addresses rq) = map Some ips"
proof (cases "''certificate:issue'' \<in> set (pr_roles p)")
  case True
  show ?thesis
  proof (cases "service_validate_request pol rq")
    case (Inr u)
    show ?thesis
    proof (cases "parse_ip_addresses (iq_ip_addresses rq)
        (add_dns_names (iq_dns_names rq) (request_new (iq_common_name rq)))")
      case (Inr rq1)
      then show ?thesis using core_request_built[of rq rq1] signing True \<open>service_validate_request pol rq = Inr u\<close>
        by auto
    qed (use bad_address True Inr in auto)
  qed (use invalid True in blast)
qed (use unauthorized in blast)

text \<open>The first part of \<open>issue\<close> touches nothing but the audit log; its record is that of the request.\<close>

lemma prepared_effect:
  assumes "issue_prepared rc dr pol fr p ca rq st = (st', x)"
  shows "sv_store st' = sv_store st \<and> sv_fs st' = sv_fs st \<and>
    (\<forall>r pem. x = Inr (r, pem) \<longrightarrow> (\<exists>serial na. r = issued_record fr rq pem serial na))"
proof (cases rule: issue_stages[where p = p and pol = pol and rq = rq])
  case (signing ips)
  show ?thesis using assms unfolding prepared_signing[OF signing] by (auto split: sum.splits prod.splits)
qed (use assms in \<open>auto simp: issue_prepared_def principal_has_role_iff Let_def record_event_eq\<close>)

lemma issue_ok:
  assumes "service_issue rc dr sd pol fr p ca rq st = (st', Inr (resp, ev))"
  obtains ips crt key parsed s' w' i where
    "''certificate:issue'' \<in> set (pr_roles p)" and "service_validate_request pol rq = Inr ()"
    and "map parse_ip_addr (iq_ip_addresses rq) = map Some ips"
    and "issuer_issue rc (int_issuer ca) (core_request rq ips) = Inr (crt, key)"
    and "dr_from_der dr (crt_der crt) = Inr parsed"
    and "store_insert sd (issued_record fr rq (crt_pem crt) (dr_serial_to_bytes_be dr parsed)
          (dr_not_after dr parsed)) (sv_store st) (sv_fs st) = ((s', w'), Inr i)"
    and "st' = with_event fr p rq CertificateIssued Success None (st\<lparr>sv_store := s', sv_fs := w'\<rparr>)"
    and "resp = issued_response rq (crt_pem crt)"
proof (cases rule: issue_stages[where p = p and pol = pol and rq = rq])
  case unauthorized
  then show thesis using assms by (simp add: issue_unauthorized)
next
  case (invalid e)
  then show thesis using assms by (simp add: issue_invalid)
next
  case (bad_address a)
  then show thesis using assms by (simp add: issue_bad_address)
next
  case (signing ips)
  show thesis
    using assms that[OF signing]
    by (simp add: issue_signing[OF signing] split: sum.splits prod.splits)
qed

lemma issued_record_stored:
  assumes "store_insert sd (issued_record fr rq pem sn na) s w = ((s', w'), Inr i)"
  shows "store_get s' (if_record_id fr) = Some (issued_record fr rq pem sn na)"
proof -
  have "s' = fst (fst (store_insert sd (issued_record fr rq pem sn na) s w))" by (simp only: assms fst_conv)
  also have "\<dots> = s\<lparr>st_records := hm_insert (if_record_id fr) (issued_record fr rq pem sn na) (st_records s)\<rparr>"
    unfolding insert_store by (simp add: issued_record_def certificate_record_new_def)
  finally show ?thesis by (simp add: store_get_def)
qed

lemma issue_ok_record:
  assumes "service_issue rc dr sd pol fr p ca rq st = (st', Inr (resp, ev))"
  shows "\<exists>(crt :: rcgen_certificate) parsed r. resp_certificate_pem resp = crt_pem crt \<and> dr_from_der dr (crt_der crt) = Inr parsed \<and>
    store_get (sv_store st') (if_record_id fr) = Some r \<and> \<not> cr_revoked r \<and>
    cr_serial_number r = hex_of_bytes (dr_serial_to_bytes_be dr parsed)"
proof (rule issue_ok[OF assms])
  fix ips and crt :: rcgen_certificate and key parsed s' w' i
  let ?r = "issued_record fr rq (crt_pem crt) (dr_serial_to_bytes_be dr parsed) (dr_not_after dr parsed)"
  assume "dr_from_der dr (crt_der crt) = Inr parsed"
    and "store_insert sd ?r (sv_store st) (sv_fs st) = ((s', w'), Inr i)"
    and "st' = with_event fr p rq CertificateIssued Success None (st\<lparr>sv_store := s', sv_fs := w'\<rparr>)"
    and "resp = issued_response rq (crt_pem crt)"
  moreover from this(2) have "store_get s' (if_record_id fr) = Some ?r" by (rule issued_record_stored)
  moreover have "\<not> cr_revoked ?r" "cr_serial_number ?r = hex_of_bytes (dr_serial_to_bytes_be dr parsed)"
    by (simp_all add: issued_record_def certificate_record_new_def)
  ultimately show ?thesis
    by - (intro exI[of _ crt] exI[of _ parsed] exI[of _ ?r], simp add: issued_response_def)
qed

text \<open>What a record says of a certificate that was answered with a response; revoking does not change it.\<close>

definition describes :: "issue_certificate_response \<Rightarrow> string \<Rightarrow> certificate_record \<Rightarrow> bool" where
  "describes resp serial r =
     (cr_certificate_pem r = resp_certificate_pem resp \<and> cr_common_name r = resp_common_name resp \<and>
      cr_dns_names r = resp_dns_names resp \<and> cr_ip_addresses r = resp_ip_addresses resp \<and>
      cr_client_auth r = resp_client_auth resp \<and> cr_server_auth r = resp_server_auth resp \<and> cr_serial_number r = serial)"

lemma stable_describes: "stable (describes resp serial)"
  by (simp add: stable_def describes_def revoked_by_def)

end
