(* ===== verification/Issuance_Props.thy ===== *)
theory Issuance_Props
  imports Issuance_Service
begin

text \<open>
  Properties of the issuance service and the path of a certificate from its issue over its
  revocation to the published list.
\<close>

section \<open>Samples\<close>

definition sample_principal :: authenticated_principal where
  "sample_principal = \<lparr>pr_id = 7, pr_name = ''edge'', pr_roles = [''certificate:issue'']\<rparr>"

definition sample_ca :: "nat intermediate_ca" where
  "sample_ca = \<lparr>int_issuer = 3, int_cert_pem = ''P'', int_cert_der = [3]\<rparr>"

definition sample_request :: issue_certificate_request where
  "sample_request = \<lparr>iq_common_name = ''api'', iq_dns_names = [''api.internal''], iq_ip_addresses = [],
     iq_client_auth = True, iq_server_auth = True\<rparr>"

definition sample_fresh :: issue_fresh where
  "sample_fresh = \<lparr>if_event_id = 21, if_event_time = 50, if_record_id = 22, if_record_time = 49, if_audit_id = 23\<rparr>"

text \<open>The serial number of a certificate of \<open>sample_rcgen\<close> is its bytes after a leading 1.\<close>

definition sample_reader :: "bytes der_reader" where
  "sample_reader = \<lparr>dr_from_der = (\<lambda>bs. Inr bs), dr_serial_to_bytes_be = (\<lambda>bs. 1 # bs), dr_not_after = (\<lambda>_. 900)\<rparr>"

definition sample_issued :: certificate_record where
  "sample_issued = issued_record sample_fresh sample_request (crt_pem (sample_crt [7, 3])) [1, 7, 3] 900"

definition sample_state :: service_state where
  "sample_state = \<lparr>sv_audit = audit_store_new, sv_store = \<lparr>st_path = [''c''], st_records = hm_empty\<rparr>, sv_fs = sample_fs\<rparr>"

text \<open>A codec that knows the two maps of the sample run: after the issue and after a revocation.\<close>

definition sample_run_serde :: serde where
  "sample_run_serde = sample_serde [[(22, sample_issued)],
     [(22, sample_issued\<lparr>cr_revoked := True, cr_revoked_at := Some 60,
        cr_revocation_reason := Some ''superseded''\<rparr>)]]"

lemma sample_core: "issuer_issue sample_rcgen 3 (core_request sample_request []) = Inr (sample_crt [7, 3], 7)"
  by (simp add: issuer_issue_ok validate_request_ok core_request_def sample_request_def sample_rcgen_def)

lemma sample_valid: "service_validate_request policy_default sample_request = Inr ()"
proof -
  have "trim ''api'' = ''api''" by (rule trim_plain) (simp add: plain_char_def)
  then show ?thesis by (simp add: service_validate_ok sample_request_def policy_default_def)
qed

lemma sample_issued_id [simp]: "cr_id sample_issued = 22" "\<not> cr_revoked sample_issued"
  by (simp_all add: sample_issued_def issued_record_def certificate_record_new_def sample_fresh_def)

lemma single_persist:
  assumes "sd_to_string_pretty sd (st_records s) = Inr t" and "st_path s = [''c'']" and "fs_faults w = []"
  shows "\<exists>w'. store_persist sd s w = (w', Inr ()) \<and> fs_faults w' = [] \<and>
    file_at w' [''d'', ''crl-number''] = file_at w [''d'', ''crl-number'']"
proof -
  have "\<exists>w'. store_persist sd s w = (w', Inr ()) \<and> fs_faults w' = []"
    using assms
    by (simp add: store_persist_def persist_parent_def path_parent_def fs_write_def fs_rename_def next_fault_def
        Let_def split: option.split)
  then obtain w' where w': "store_persist sd s w = (w', Inr ())" "fs_faults w' = []" by blast
  have "[''d'', ''crl-number''] \<noteq> with_extension (st_path s) ''json.tmp''"
    by (simp add: assms(2) with_extension_def)
  then have "file_at (fst (store_persist sd s w)) [''d'', ''crl-number''] = file_at w [''d'', ''crl-number'']"
    using assms(2) by (intro persist_other) simp_all
  with w' show ?thesis by simp
qed

lemma sample_insert:
  "\<exists>w'. store_insert sample_run_serde sample_issued (sv_store sample_state) (sv_fs sample_state) =
     ((\<lparr>st_path = [''c''], st_records = [(22, sample_issued)]\<rparr>, w'), Inr 22) \<and> fs_faults w' = [] \<and>
     file_at w' [''d'', ''crl-number''] = None"
proof -
  let ?s = "\<lparr>st_path = [''c''], st_records = [(22, sample_issued)]\<rparr>"
  have "sd_to_string_pretty sample_run_serde (st_records ?s) = Inr (show_nat 0)"
    by (simp add: sample_run_serde_def sample_serde_def)
  then obtain w' where "store_persist sample_run_serde ?s sample_fs = (w', Inr ())" "fs_faults w' = []"
    "file_at w' [''d'', ''crl-number''] = None"
    using single_persist[of sample_run_serde ?s _ sample_fs] by (auto simp: sample_fs_def file_at_def)
  then show ?thesis by (simp add: store_insert_def sample_state_def hm_insert_def hm_empty_def)
qed

lemma sample_issue:
  "\<exists>w'. service_issue sample_rcgen sample_reader sample_run_serde policy_default sample_fresh sample_principal
       sample_ca sample_request sample_state =
     (with_event sample_fresh sample_principal sample_request CertificateIssued Success None
        (sample_state\<lparr>sv_store := \<lparr>st_path = [''c''], st_records = [(22, sample_issued)]\<rparr>, sv_fs := w'\<rparr>),
      Inr (issued_response sample_request (crt_pem (sample_crt [7, 3])),
        \<lparr>ia_event_id = 23, ia_principal_id = 7, ia_principal_name = ''edge'', ia_common_name = ''api'',
         ia_success = True, ia_reason = None\<rparr>)) \<and> fs_faults w' = [] \<and>
     file_at w' [''d'', ''crl-number''] = None"
proof -
  obtain w' where w': "store_insert sample_run_serde sample_issued (sv_store sample_state) (sv_fs sample_state) =
     ((\<lparr>st_path = [''c''], st_records = [(22, sample_issued)]\<rparr>, w'), Inr 22)" "fs_faults w' = []"
     "file_at w' [''d'', ''crl-number''] = None"
    using sample_insert by blast
  have r: "issued_record sample_fresh sample_request (crt_pem (sample_crt [7, 3])) [1, 7, 3] 900 = sample_issued"
    by (simp add: sample_issued_def)
  have ip: "map parse_ip_addr (iq_ip_addresses sample_request) = map Some []" by (simp add: sample_request_def)
  have ro: "''certificate:issue'' \<in> set (pr_roles sample_principal)" by (simp add: sample_principal_def)
  have d: "crt_der (sample_crt ds) = ds" for ds by (simp add: sample_crt_def)
  show ?thesis
    unfolding issue_signing[OF ro sample_valid ip]
    using sample_core w' r
    by (intro exI[of _ w'] conjI, simp add: sample_ca_def d sample_reader_def)
      (simp_all add: sample_principal_def sample_fresh_def sample_request_def)
qed

section \<open>The audit log over one call\<close>

lemma service_issue_appends:
  "\<exists>es. length es \<le> 1 \<and>
     audit_list (sv_audit (fst (service_issue rc dr sd pol fr p ca rq st))) = audit_list (sv_audit st) @ es"
proof (cases rule: issue_stages[where p = p and pol = pol and rq = rq])
  case (signing ips)
  show ?thesis
    by (auto simp: issue_signing[OF signing] split: sum.split prod.split)
qed (auto simp: issue_unauthorized issue_invalid issue_bad_address)

section \<open>Properties\<close>

text \<open>
  C9. A certificate is only issued to a permitted caller, within the policy, and as asked. When
  \<open>issue\<close> succeeds the caller has the issuing role; the request has a common name and a subject
  alternative name and keeps the policy's limits and required usages; every textual address
  parses; what the CA signed is a leaf certificate with exactly these names after the library's
  defaults; and the record stored under the fresh id is unrevoked and carries the hexadecimal
  serial number of that certificate.
\<close>

theorem issuance_only_as_permitted:
  assumes "service_issue rc dr sd pol fr p ca rq st = (st', Inr (resp, ev))"
  shows "''certificate:issue'' \<in> set (pr_roles p) \<and>
    trim (iq_common_name rq) \<noteq> [] \<and> length (iq_common_name rq) \<le> pol_max_common_name_length pol \<and>
    length (iq_dns_names rq) \<le> pol_max_dns_names pol \<and> length (iq_ip_addresses rq) \<le> pol_max_ip_addresses pol \<and>
    iq_dns_names rq @ iq_ip_addresses rq \<noteq> [] \<and>
    (pol_require_server_auth pol \<longrightarrow> iq_server_auth rq) \<and> (pol_require_client_auth pol \<longrightarrow> iq_client_auth rq) \<and>
    (\<exists>ips ps key crt parsed r. map parse_ip_addr (iq_ip_addresses rq) = map Some ips \<and>
       rc_generate rc = Inr key \<and> rc_signed_by rc ps key (int_issuer ca) = Inr crt \<and>
       cp_is_ca ps = NoCa \<and> cp_distinguished_name ps = [(CommonName, iq_common_name rq)] \<and>
       cp_subject_alt_names ps = cp_subject_alt_names (rc_default rc) @ map DnsName (iq_dns_names rq) @ map IpAddress ips \<and>
       cp_extended_key_usages ps = (if iq_server_auth rq then [ServerAuth] else []) @
         (if iq_client_auth rq then [ClientAuth] else []) \<and>
       resp_certificate_pem resp = crt_pem crt \<and> dr_from_der dr (crt_der crt) = Inr parsed \<and>
       store_get (sv_store st') (if_record_id fr) = Some r \<and> \<not> cr_revoked r \<and>
       cr_certificate_pem r = crt_pem crt \<and> cr_serial_number r = hex_of_bytes (dr_serial_to_bytes_be dr parsed))"
proof (rule issue_ok[OF assms])
  fix ips crt key parsed s' w' i
  assume role: "''certificate:issue'' \<in> set (pr_roles p)" and v: "service_validate_request pol rq = Inr ()"
    and ips: "map parse_ip_addr (iq_ip_addresses rq) = map Some ips"
    and iss: "issuer_issue rc (int_issuer ca) (core_request rq ips) = Inr (crt, key)"
    and der: "dr_from_der dr (crt_der crt) = Inr parsed"
    and ins: "store_insert sd (issued_record fr rq (crt_pem crt) (dr_serial_to_bytes_be dr parsed)
          (dr_not_after dr parsed)) (sv_store st) (sv_fs st) = ((s', w'), Inr i)"
    and st': "st' = with_event fr p rq CertificateIssued Success None (st\<lparr>sv_store := s', sv_fs := w'\<rparr>)"
    and resp: "resp = issued_response rq (crt_pem crt)"
  let ?r = "issued_record fr rq (crt_pem crt) (dr_serial_to_bytes_be dr parsed) (dr_not_after dr parsed)"
  let ?ps = "leaf_params rc (core_request rq ips)"
  have g: "store_get (sv_store st') (if_record_id fr) = Some ?r"
    using issued_record_stored[OF ins] by (simp add: st')
  have sg: "rc_generate rc = Inr key" "rc_signed_by rc ?ps key (int_issuer ca) = Inr crt"
    using iss by (simp_all add: issuer_issue_ok)
  have t: "trim (iq_common_name rq) \<noteq> []" using v by (simp add: service_validate_ok)
  have ps: "cp_is_ca ?ps = NoCa" "cp_distinguished_name ?ps = [(CommonName, iq_common_name rq)]"
    "cp_subject_alt_names ?ps = cp_subject_alt_names (rc_default rc) @ map DnsName (iq_dns_names rq) @ map IpAddress ips"
    "cp_extended_key_usages ?ps = (if iq_server_auth rq then [ServerAuth] else []) @
         (if iq_client_auth rq then [ClientAuth] else [])"
    using t by (simp_all add: leaf_params_def core_request_def)
  have r: "\<not> cr_revoked ?r" "cr_certificate_pem ?r = crt_pem crt"
    "cr_serial_number ?r = hex_of_bytes (dr_serial_to_bytes_be dr parsed)"
    by (simp_all add: issued_record_def certificate_record_new_def)
  have "resp_certificate_pem resp = crt_pem crt" by (simp add: resp issued_response_def)
  then show ?thesis using role v[unfolded service_validate_ok] ips sg ps g r der by blast
qed

theorem issuance_only_as_permitted_witness:
  "\<exists>st' r. fst (service_issue sample_rcgen sample_reader sample_run_serde policy_default sample_fresh
      sample_principal sample_ca sample_request sample_state) = st' \<and>
    store_get (sv_store st') 22 = Some r \<and> \<not> cr_revoked r"
proof -
  obtain w' where i: "service_issue sample_rcgen sample_reader sample_run_serde policy_default sample_fresh sample_principal
       sample_ca sample_request sample_state =
     (with_event sample_fresh sample_principal sample_request CertificateIssued Success None
        (sample_state\<lparr>sv_store := \<lparr>st_path = [''c''], st_records = [(22, sample_issued)]\<rparr>, sv_fs := w'\<rparr>),
      Inr (issued_response sample_request (crt_pem (sample_crt [7, 3])),
        \<lparr>ia_event_id = 23, ia_principal_id = 7, ia_principal_name = ''edge'', ia_common_name = ''api'',
         ia_success = True, ia_reason = None\<rparr>))"
    using sample_issue by blast
  have "if_record_id sample_fresh = 22" by (simp add: sample_fresh_def)
  with issuance_only_as_permitted[OF i] i show ?thesis by auto
qed

text \<open>
  C10. Every decision of the service is in the audit log, with one exception. A call appends
  exactly one event, with the caller's id and name: a denial or a failure together with an error
  that leaves the store and the files untouched, a success together with an issued certificate.
  The exception: when the issued certificate cannot be read back or stored, nothing is recorded,
  although the CA has signed it.
\<close>

theorem issuance_decisions_audited:
  "case service_issue rc dr sd pol fr p ca rq st of
     (st', Inr _) \<Rightarrow>
       audit_list (sv_audit st') = audit_list (sv_audit st) @
         [issue_event fr p (iq_common_name rq) CertificateIssued Success None]
   | (st', Inl (StoreFailed _)) \<Rightarrow> sv_audit st' = sv_audit st
   | (st', Inl Unauthorized) \<Rightarrow>
       audit_list (sv_audit st') = audit_list (sv_audit st) @
         [issue_event fr p (iq_common_name rq) AuthorizationDenied Denied
            (Some ''caller is not authorized to issue certificates'')] \<and>
       sv_store st' = sv_store st \<and> sv_fs st' = sv_fs st
   | (st', Inl (InvalidRequest _)) \<Rightarrow>
       (\<exists>reason. audit_list (sv_audit st') = audit_list (sv_audit st) @
         [issue_event fr p (iq_common_name rq) PolicyDenied Denied (Some reason)]) \<and>
       sv_store st' = sv_store st \<and> sv_fs st' = sv_fs st
   | (st', Inl (Issuance e)) \<Rightarrow>
       audit_list (sv_audit st') = audit_list (sv_audit st) @
         [issue_event fr p (iq_common_name rq) CertificateIssued Failure (Some (issuance_error_text e))] \<and>
       sv_store st' = sv_store st \<and> sv_fs st' = sv_fs st"
proof (cases rule: issue_stages[where p = p and pol = pol and rq = rq])
  case unauthorized
  then show ?thesis by (simp add: issue_unauthorized)
next
  case (invalid e)
  have "\<exists>m. e = InvalidRequest m"
    using invalid(2) by (auto simp: service_validate_request_def split: if_splits)
  then show ?thesis using invalid by (auto simp: issue_invalid)
next
  case (bad_address a)
  then show ?thesis by (auto simp: issue_bad_address simp del: append_Cons)
next
  case (signing ips)
  show ?thesis
    by (simp add: issue_signing[OF signing] split: sum.split prod.split)
qed

text \<open>
  With the default policy the service and the core issuer agree on what a valid request is:
  whatever passes the service's checks, with addresses that parse, also passes the core's, so the
  only policy error the core can still raise is a DNS name the certificate library rejects.
\<close>

theorem default_policy_agrees_with_issuer:
  assumes "service_validate_request policy_default rq = Inr ()"
    and "map parse_ip_addr (iq_ip_addresses rq) = map Some ips"
  shows "validate_request (core_request rq ips) = Inr () \<and>
    (issuer_issue rc iss (core_request rq ips) = Inl (Policy m) \<longrightarrow>
       m = ''invalid DNS subject alternative name'' \<and> \<not> list_all (rc_dns_ok rc) (iq_dns_names rq))"
proof -
  have "length ips = length (iq_ip_addresses rq)" using arg_cong[OF assms(2), of length] by simp
  then have v: "validate_request (core_request rq ips) = Inr ()"
    using assms(1) by (auto simp: validate_request_ok service_validate_ok policy_default_def core_request_def)
  moreover have "m = ''invalid DNS subject alternative name'' \<and> \<not> list_all (rc_dns_ok rc) (iq_dns_names rq)"
    if "issuer_issue rc iss (core_request rq ips) = Inl (Policy m)"
    using that v by (auto simp: issuer_issue_eq result_simps core_request_def split: if_splits)
  ultimately show ?thesis by blast
qed

theorem default_policy_agrees_with_issuer_witness:
  "validate_request (core_request sample_request []) = Inr ()"
proof -
  have "map parse_ip_addr (iq_ip_addresses sample_request) = map Some []" by (simp add: sample_request_def)
  from default_policy_agrees_with_issuer[OF sample_valid this, where rc = sample_rcgen and iss = 3]
  show ?thesis by blast
qed

section \<open>A sample run\<close>

lemma sample_revoke:
  assumes "fs_faults w = []"
  shows "\<exists>s2 w2. store_revoke sample_run_serde 60 22 ''superseded''
     \<lparr>st_path = [''c''], st_records = [(22, sample_issued)]\<rparr> w = ((s2, w2), Inr (Some (revoked_by 60 ''superseded'' sample_issued))) \<and>
     st_records s2 = [(22, revoked_by 60 ''superseded'' sample_issued)] \<and> fs_faults w2 = [] \<and>
     file_at w2 [''d'', ''crl-number''] = file_at w [''d'', ''crl-number'']"
proof -
  let ?q = "revoked_by 60 ''superseded'' sample_issued"
  let ?s = "\<lparr>st_path = [''c''], st_records = [(22, ?q)]\<rparr>"
  have ne: "sample_issued \<noteq> ?q"
    by (metis revoked_by_simps(2) sample_issued_id(2))
  have q: "sample_issued\<lparr>cr_revoked := True, cr_revoked_at := Some 60,
        cr_revocation_reason := Some ''superseded''\<rparr> = ?q"
    by (simp add: revoked_by_def)
  have "sd_to_string_pretty sample_run_serde (st_records ?s) = Inr (show_nat 1)"
    using ne unfolding sample_run_serde_def q by (simp add: sample_serde_def)
  then obtain w' where "store_persist sample_run_serde ?s w = (w', Inr ())" "fs_faults w' = []"
    "file_at w' [''d'', ''crl-number''] = file_at w [''d'', ''crl-number'']"
    using single_persist[of sample_run_serde ?s _ w] assms by auto
  then show ?thesis by (simp add: store_revoke_cases store_get_def hm_get_def hm_insert_def)
qed

lemma sample_publish:
  assumes "st_records s2 = [(22, revoked_by 60 ''superseded'' sample_issued)]" and "fs_faults w2 = []"
    and "file_at w2 [''d'', ''crl-number''] = None"
  shows "\<exists>w3. generate_and_persist (\<lambda>ps i. Inr [9]) (3::nat) [''d''] 30 70 71 s2 w2 = Done (w3, Inr [9])"
proof -
  have h: "hex_to_bytes (hex_of_bytes [1, 7, 3]) = Done (Some [1, 7, 3])" by (rule hex_round_trip) simp
  have sn: "cr_serial_number sample_issued = hex_of_bytes [1, 7, 3]"
    by (simp add: sample_issued_def issued_record_def certificate_record_new_def)
  have "\<exists>w1. next_crl_number [''d''] w2 = (w1, Inr 1) \<and> fs_faults w1 = []"
    using assms(2,3)
    by (simp add: next_crl_number_def current_crl_number_def fs_exists_def next_fault_free file_at_def
        checked_add_def fs_write_def hm_contains_def crl_number_path_def path_join_def Let_def)
  then obtain w1 where w1: "next_crl_number [''d''] w2 = (w1, Inr 1)" "fs_faults w1 = []" by blast
  have "signed_der (\<lambda>ps i. Inr [9]) (3::nat) 1 (crl_for_store 30 70 71 s2) = Done (Inr [9])"
    by (simp add: signed_der_def crl_for_store_entries store_list_def hm_values_def assms(1) entry_of_def h sn Let_def)
  then show ?thesis using w1 by (simp add: generate_and_persist_def fs_write_def next_fault_free)
qed

end
