(* ===== verification/Tls.thy ===== *)
theory Tls
  imports Crl_Manager
begin

text \<open>
  The TLS side of the server: \<open>tls/identity.rs\<close>, \<open>tls/server.rs\<close> and \<open>tls/manager.rs\<close> of
  \<open>daemon-pki-api\<close>. A TLS configuration is the record of what the code puts into it; the
  crates that parse PEM and build the verifier are the record \<open>rustls\<close>, the X.509 reader and
  SHA-256 the record \<open>client_reader\<close>. The accept loops of \<open>tls/service.rs\<close> and
  \<open>HttpApi::run\<close> are network I/O and are not represented.
\<close>

section \<open>The identity of a client\<close>

record mtls_identity =
  mt_id :: uuid
  mt_name :: string
  mt_serial_number :: string
  mt_fingerprint_sha256 :: string

text \<open>\<open>tr_common_names\<close>: the common name attributes in order, \<open>None\<close> where \<open>as_str\<close> fails.\<close>

record 'c client_reader =
  tr_from_der :: "bytes \<Rightarrow> 'c option"
  tr_common_names :: "'c \<Rightarrow> string option list"
  tr_raw_serial :: "'c \<Rightarrow> bytes"
  tr_sha256 :: "bytes \<Rightarrow> bytes"

text \<open>\<open>Uuid::from_bytes\<close>: sixteen bytes, the first the most significant.\<close>

definition uuid_from_bytes :: "bytes \<Rightarrow> uuid" where
  "uuid_from_bytes bs = foldl (\<lambda>a b. push_bit 8 a + ucast b) 0 bs"

text \<open>Sixteen bytes are the UUID and nothing else.\<close>

lemma base_less: "foldl (\<lambda>a b. a * 256 + unat (b :: 8 word)) 0 bs < 256 ^ length bs"
proof (induction bs rule: rev_induct)
  case (snoc b bs)
  have "unat b < 256" using unsigned_less[of b] by simp
  with snoc show ?case by simp
qed simp

lemma digit_eq: "(a :: nat) * 256 + x = b * 256 + y \<Longrightarrow> x < 256 \<Longrightarrow> y < 256 \<Longrightarrow> a = b \<and> x = y"
proof -
  assume e: "a * 256 + x = b * 256 + y" and l: "x < 256" "y < 256"
  have "x = y" using arg_cong[OF e, of "\<lambda>z. z mod 256"] l by simp
  then show ?thesis using e by simp
qed

lemma uuid_value:
  "length bs \<le> 16 \<Longrightarrow> unat (uuid_from_bytes bs) = foldl (\<lambda>a b. a * 256 + unat b) 0 bs"
proof (induction bs rule: rev_induct)
  case (snoc b bs)
  let ?v = "foldl (\<lambda>a b. a * 256 + unat b) 0 bs"
  have e: "unat (uuid_from_bytes bs) = ?v" using snoc by simp
  have "(256 :: nat) ^ length bs \<le> 256 ^ 15" using snoc.prems by (intro power_increasing) simp_all
  then have "?v < 256 ^ 15" using base_less[of bs] by simp
  moreover have b: "unat b < 256" using unsigned_less[of b] by simp
  ultimately have l: "?v * 256 + unat b < 2 ^ 128" by simp
  have "uuid_from_bytes bs = of_nat ?v" by (simp flip: e)
  moreover have "ucast b = (of_nat (unat b) :: 128 word)" by (simp add: unsigned_eq_0_iff)
  ultimately have "uuid_from_bytes (bs @ [b]) = of_nat (?v * 256 + unat b)"
    by (simp add: uuid_from_bytes_def push_bit_eq_mult)
  then have "unat (uuid_from_bytes (bs @ [b])) = take_bit 128 (?v * 256 + unat b)" by (simp only: unsigned_of_nat) simp
  also have "\<dots> = ?v * 256 + unat b" using l by (simp only: take_bit_nat_eq_self)
  finally show ?case by simp
qed (simp add: uuid_from_bytes_def)

lemma uuid_from_bytes_inj:
  assumes "length a = length b" and "length a \<le> 16" and "uuid_from_bytes a = uuid_from_bytes b"
  shows "a = b"
proof -
  have "foldl (\<lambda>a b. a * 256 + unat b) 0 a = foldl (\<lambda>a b. a * 256 + unat b) (0 :: nat) b"
    using assms uuid_value[of a] uuid_value[of b] by simp
  with assms(1) show ?thesis
  proof (induction a arbitrary: b rule: rev_induct)
    case (snoc x xs)
    obtain y ys where b: "b = ys @ [y]" using snoc.prems(1) by (cases b rule: rev_cases) auto
    have xy: "unat x < 256" "unat y < 256" using unsigned_less[of x] unsigned_less[of y] by simp_all
    let ?f = "foldl (\<lambda>a b. a * 256 + unat b) (0 :: nat)"
    have "?f xs * 256 + unat x = ?f ys * 256 + unat y" using snoc.prems(2) b by simp
    from digit_eq[OF this xy] show ?case using snoc.IH[of ys] snoc.prems(1) b by (simp add: word_unat_eq_iff)
  qed simp
qed
definition identity_from_client_certificate ::
  "'c client_reader \<Rightarrow> bytes \<Rightarrow> mtls_identity option" where
  "identity_from_client_certificate tr der =
     (case tr_from_der tr der of None \<Rightarrow> None
      | Some parsed \<Rightarrow>
          (let name = (case tr_common_names tr parsed of Some n # _ \<Rightarrow> n | _ \<Rightarrow> ''unknown-mtls-client'');
               serial_number = hex_of_bytes (tr_raw_serial tr parsed);
               fingerprint = tr_sha256 tr der
           in Some \<lparr>mt_id = uuid_from_bytes (take 16 fingerprint), mt_name = name,
                    mt_serial_number = serial_number, mt_fingerprint_sha256 = hex_of_bytes fingerprint\<rparr>))"

section \<open>The server configuration\<close>

record 'k tls_config =
  tc_certificates :: "bytes list"
  tc_private_key :: 'k
  tc_client_roots :: "bytes list"
  tc_crls :: "bytes list"
  tc_only_check_end_entity :: bool

record 'k rustls =
  ru_certs :: "bytes \<Rightarrow> bytes list option"
  ru_private_key :: "bytes \<Rightarrow> string + 'k option"
  ru_root_ok :: "bytes \<Rightarrow> bool"
  ru_verifier_ok :: "bytes list \<Rightarrow> bytes list \<Rightarrow> bool"
  ru_key_ok :: "'k \<Rightarrow> bool"
  ru_single_cert_ok :: "bytes list \<Rightarrow> 'k \<Rightarrow> bool"

datatype tls_error =
  TlsServerCertificate | TlsEmptyChain | TlsPrivateKey | TlsNoPrivateKey | TlsClientCa | TlsEmptyClientCa
| TlsTrustAnchor | TlsVerifier | TlsInvalidKey | TlsBuild

fun add_roots :: "'k rustls \<Rightarrow> bytes list \<Rightarrow> bytes list \<Rightarrow> tls_error + bytes list" where
  "add_roots ru [] roots = Inr roots"
| "add_roots ru (c # cs) roots =
     (if ru_root_ok ru c then add_roots ru cs (roots @ [c]) else Inl TlsTrustAnchor)"

definition build_mtls_server_config ::
  "'k rustls \<Rightarrow> bytes \<Rightarrow> bytes \<Rightarrow> bytes \<Rightarrow> bytes option \<Rightarrow> tls_error + 'k tls_config" where
  "build_mtls_server_config ru certificate_pem private_key_pem client_ca_pem client_crl_der =
     and_then (ok_or (ru_certs ru certificate_pem) TlsServerCertificate) (\<lambda>certificates.
     if certificates = [] then Inl TlsEmptyChain else
     and_then (map_err (\<lambda>_. TlsPrivateKey) (ru_private_key ru private_key_pem)) (\<lambda>k.
     and_then (ok_or k TlsNoPrivateKey) (\<lambda>private_key.
     and_then (ok_or (ru_certs ru client_ca_pem) TlsClientCa) (\<lambda>client_certs.
     if client_certs = [] then Inl TlsEmptyClientCa else
     and_then (add_roots ru client_certs []) (\<lambda>roots.
     (let crls = (case client_crl_der of None \<Rightarrow> [] | Some d \<Rightarrow> [d]);
          only_end_entity = (client_crl_der \<noteq> None)
      in
      if \<not> ru_verifier_ok ru roots crls then Inl TlsVerifier
      else if \<not> ru_key_ok ru private_key then Inl TlsInvalidKey
      else if \<not> ru_single_cert_ok ru certificates private_key then Inl TlsBuild
      else Inr \<lparr>tc_certificates = certificates, tc_private_key = private_key, tc_client_roots = roots,
                tc_crls = crls, tc_only_check_end_entity = only_end_entity\<rparr>))))))"

section \<open>The acceptor manager\<close>

text \<open>What the manager holds besides the shared CRL manager.\<close>

record 'k tls_acceptor_manager =
  ta_acceptor :: "'k tls_config"
  ta_server_certificate_pem :: bytes
  ta_server_private_key_pem :: bytes
  ta_client_ca_pem :: bytes

definition acceptor_new ::
  "'k tls_config \<Rightarrow> bytes \<Rightarrow> bytes \<Rightarrow> bytes \<Rightarrow> 'k tls_acceptor_manager" where
  "acceptor_new initial_config cert key ca =
     \<lparr>ta_acceptor = initial_config, ta_server_certificate_pem = cert, ta_server_private_key_pem = key,
      ta_client_ca_pem = ca\<rparr>"

definition acceptor_current :: "'k tls_acceptor_manager \<Rightarrow> 'k tls_config" where
  "acceptor_current m = ta_acceptor m"

definition acceptor_replace :: "'k tls_config \<Rightarrow> 'k tls_acceptor_manager \<Rightarrow> 'k tls_acceptor_manager" where
  "acceptor_replace config m = m\<lparr>ta_acceptor := config\<rparr>"

datatype refresh_error = RefreshCrl crl_manager_error | RefreshConfig tls_error

text \<open>What a refresh reads from outside: the list's id and two clock readings.\<close>

record crl_fresh =
  cf_id :: uuid
  cf_now :: instant
  cf_generated_at :: instant

definition acceptor_refresh ::
  "'k rustls \<Rightarrow> (crl_params \<Rightarrow> 'iss \<Rightarrow> rcgen_error + bytes) \<Rightarrow> 'iss \<Rightarrow> path \<Rightarrow> crl_fresh
   \<Rightarrow> certificate_store \<Rightarrow> fs \<Rightarrow> 'k tls_acceptor_manager
   \<Rightarrow> ((fs \<times> 'k tls_acceptor_manager) \<times> (refresh_error + unit)) may_panic" where
  "acceptor_refresh ru signer iss dir cf s w m =
     (case generate_and_persist signer iss dir (cf_id cf) (cf_now cf) (cf_generated_at cf) s w of
        Panic \<Rightarrow> Panic
      | Done (w', Inl e) \<Rightarrow> Done ((w', m), Inl (RefreshCrl e))
      | Done (w', Inr crl_der) \<Rightarrow>
          (case build_mtls_server_config ru (ta_server_certificate_pem m) (ta_server_private_key_pem m)
                  (ta_client_ca_pem m) (Some crl_der) of
             Inl e \<Rightarrow> Done ((w', m), Inl (RefreshConfig e))
           | Inr config \<Rightarrow> Done ((w', acceptor_replace config m), Inr ())))"

section \<open>Lemmas\<close>

lemma add_roots_ok: "add_roots ru cs roots = Inr r \<longleftrightarrow> list_all (ru_root_ok ru) cs \<and> r = roots @ cs"
  by (induction cs arbitrary: roots) auto

lemma build_config_ok:
  "build_mtls_server_config ru cert key ca crl = Inr c \<longleftrightarrow>
     (\<exists>certs k roots. ru_certs ru cert = Some certs \<and> certs \<noteq> [] \<and> ru_private_key ru key = Inr (Some k) \<and>
        ru_certs ru ca = Some roots \<and> roots \<noteq> [] \<and> list_all (ru_root_ok ru) roots \<and>
        ru_verifier_ok ru roots (case crl of None \<Rightarrow> [] | Some d \<Rightarrow> [d]) \<and> ru_key_ok ru k \<and>
        ru_single_cert_ok ru certs k \<and>
        c = \<lparr>tc_certificates = certs, tc_private_key = k, tc_client_roots = roots,
             tc_crls = (case crl of None \<Rightarrow> [] | Some d \<Rightarrow> [d]), tc_only_check_end_entity = (crl \<noteq> None)\<rparr>)"
  by (auto simp: build_mtls_server_config_def result_simps add_roots_ok Let_def split: if_splits)

lemma refresh_ok:
  assumes "acceptor_refresh ru signer iss dir cf s w m = Done ((w', m'), Inr u)"
  shows "\<exists>der config. generate_and_persist signer iss dir (cf_id cf) (cf_now cf) (cf_generated_at cf) s w =
      Done (w', Inr der) \<and> m' = m\<lparr>ta_acceptor := config\<rparr> \<and> tc_crls config = [der] \<and>
      ru_certs ru (ta_client_ca_pem m) = Some (tc_client_roots config) \<and> tc_client_roots config \<noteq> []"
  using assms
  by (auto simp: acceptor_refresh_def acceptor_replace_def build_config_ok
      split: may_panic.splits prod.splits sum.splits)

lemma refresh_err:
  assumes "acceptor_refresh ru signer iss dir cf s w m = Done ((w', m'), Inl e)"
  shows "m' = m"
  using assms by (auto simp: acceptor_refresh_def split: may_panic.splits prod.splits sum.splits)

section \<open>Properties\<close>

text \<open>
  A client is told apart by the digest of its whole certificate. Two accepted certificates get
  the same authorization fingerprint if and only if their SHA-256 digests are equal, and then also
  the same principal id; the name and the serial number in the certificate have no part in it.
\<close>

theorem client_fingerprint_is_the_digest:
  assumes "identity_from_client_certificate tr a = Some x" and "identity_from_client_certificate tr b = Some y"
  shows "(mt_fingerprint_sha256 x = mt_fingerprint_sha256 y \<longleftrightarrow> tr_sha256 tr a = tr_sha256 tr b) \<and>
    (mt_fingerprint_sha256 x = mt_fingerprint_sha256 y \<longrightarrow> mt_id x = mt_id y) \<and>
    length (mt_fingerprint_sha256 x) = 2 * length (tr_sha256 tr a)"
proof -
  have x: "mt_fingerprint_sha256 x = hex_of_bytes (tr_sha256 tr a)" "mt_id x = uuid_from_bytes (take 16 (tr_sha256 tr a))"
    and y: "mt_fingerprint_sha256 y = hex_of_bytes (tr_sha256 tr b)" "mt_id y = uuid_from_bytes (take 16 (tr_sha256 tr b))"
    using assms by (auto simp: identity_from_client_certificate_def Let_def split: option.splits)
  have "mt_fingerprint_sha256 x = mt_fingerprint_sha256 y \<longleftrightarrow> tr_sha256 tr a = tr_sha256 tr b"
    using hex_of_bytes_inj[of "tr_sha256 tr a" "tr_sha256 tr b"] x(1) y(1) by auto
  then show ?thesis using x y by simp
qed

definition sample_client_reader :: "bytes client_reader" where
  "sample_client_reader =
     \<lparr>tr_from_der = (\<lambda>bs. Some bs), tr_common_names = (\<lambda>_. [Some ''edge'']), tr_raw_serial = (\<lambda>bs. bs),
      tr_sha256 = (\<lambda>bs. take 32 (bs @ replicate 32 0))\<rparr>"

theorem client_fingerprint_is_the_digest_witness:
  "\<exists>x y. identity_from_client_certificate sample_client_reader [1] = Some x \<and>
     identity_from_client_certificate sample_client_reader [2] = Some y \<and>
     mt_fingerprint_sha256 x \<noteq> mt_fingerprint_sha256 y"
proof -
  obtain x y where xy: "identity_from_client_certificate sample_client_reader [1] = Some x"
    "identity_from_client_certificate sample_client_reader [2] = Some y"
    by (simp add: identity_from_client_certificate_def sample_client_reader_def Let_def)
  have "tr_sha256 sample_client_reader [1] \<noteq> tr_sha256 sample_client_reader [2]"
    by (simp add: sample_client_reader_def)
  then show ?thesis using client_fingerprint_is_the_digest[OF xy] xy by blast
qed

text \<open>
  A refresh installs exactly the list it published, or nothing. If it succeeds, the acceptor
  demands client certificates under the configured CA roots, checks them against one list, whose
  bytes are those in the CRL file and which was signed over precisely the revoked records of the
  store; if it fails, the acceptor is the one from before.
\<close>

theorem refresh_installs_published_list:
  "case acceptor_refresh ru signer iss dir cf s w m of
     Panic \<Rightarrow> True
   | Done ((w', m'), Inl e) \<Rightarrow> m' = m
   | Done ((w', m'), Inr _) \<Rightarrow>
       (\<exists>der n crl. tc_crls (acceptor_current m') = [der] \<and> file_at w' (crl_der_path dir) = Some der \<and>
          signed_der signer iss n crl = Done (Inr der) \<and>
          crl_entries crl = map (entry_of (cf_now cf)) (filter cr_revoked (store_list s)) \<and>
          ru_certs ru (ta_client_ca_pem m) = Some (tc_client_roots (acceptor_current m')) \<and>
          tc_client_roots (acceptor_current m') \<noteq> [])"
proof (cases "acceptor_refresh ru signer iss dir cf s w m")
  case (Done q)
  obtain w' m' r where q: "q = ((w', m'), r)" by (metis prod.collapse)
  show ?thesis
  proof (cases r)
    case (Inl e)
    then show ?thesis using Done q refresh_err by auto
  next
    case (Inr u)
    from refresh_ok[OF Done[unfolded q Inr]] obtain der config where
      g: "generate_and_persist signer iss dir (cf_id cf) (cf_now cf) (cf_generated_at cf) s w = Done (w', Inr der)"
      and c: "m' = m\<lparr>ta_acceptor := config\<rparr>" "tc_crls config = [der]"
        "ru_certs ru (ta_client_ca_pem m) = Some (tc_client_roots config)" "tc_client_roots config \<noteq> []"
      by blast
    have "file_at w' (crl_der_path dir) = Some der \<and> (\<exists>n crl. signed_der signer iss n crl = Done (Inr der) \<and>
        crl_entries crl = map (entry_of (cf_now cf)) (filter cr_revoked (store_list s)))"
      using generate_published[OF g] by blast
    then show ?thesis using Done q Inr c by (auto simp: acceptor_current_def)
  qed
qed simp

end
