(* ===== verification/Http_Api.thy ===== *)
theory Http_Api
  imports Issuance_Props Tls
begin

text \<open>
  \<open>HttpApi\<close> of \<open>daemon-pki-api/src/http.rs\<close>: authorization by certificate fingerprint, the
  router and its handlers over one state, the issuance service's (audit log, store, files) and
  the TLS acceptor. A connection is one read of at most 64 KiB, so the request is the bytes of
  that read. The request parser, the JSON readers and the UUID reader are fields of
  \<open>http_env\<close>, beside the other crates and the values fixed at start-up. An answer is its
  status and what is serialised as its body; a failure of the socket is not represented.
\<close>

section \<open>Authorization\<close>

record authorization_policy =
  ap_certificate_issue_identities :: "string list"

definition authorization_new :: authorization_policy where
  "authorization_new = \<lparr>ap_certificate_issue_identities = []\<rparr>"

definition allow_certificate_issuance :: "string \<Rightarrow> authorization_policy \<Rightarrow> authorization_policy" where
  "allow_certificate_issuance fp a =
     a\<lparr>ap_certificate_issue_identities := ap_certificate_issue_identities a @ [fp]\<rparr>"

definition can_issue_certificates :: "authorization_policy \<Rightarrow> mtls_identity \<Rightarrow> bool" where
  "can_issue_certificates a i =
     list_ex (\<lambda>allowed. allowed = mt_fingerprint_sha256 i) (ap_certificate_issue_identities a)"

definition roles_for :: "authorization_policy \<Rightarrow> mtls_identity \<Rightarrow> string list" where
  "roles_for a i =
     (let roles = [] in
      if can_issue_certificates a i
      then roles @ [''certificate:issue''] @ [''certificate:read''] @ [''certificate:revoke''] else roles)"

section \<open>Requests and answers\<close>

datatype http_parse = ParseError | Partial | Complete nat "string option" "string option"

datatype http_body =
  HealthBody string string | ErrorBody string | IssuedBody issue_certificate_response
| RecordsBody "certificate_record list" | RecordBody certificate_record

datatype http_outcome = NoAnswer | ConnectionError | Answer nat http_body

record ('key, 'iss, 'c, 'k) http_env =
  he_rcgen :: "('key, 'iss) rcgen"
  he_reader :: "'c der_reader"
  he_serde :: serde
  he_rustls :: "'k rustls"
  he_signer :: "crl_params \<Rightarrow> 'iss \<Rightarrow> rcgen_error + bytes"
  he_parse_request :: "bytes \<Rightarrow> http_parse"
  he_issue_body :: "bytes \<Rightarrow> issue_certificate_request option"
  he_revoke_body :: "bytes \<Rightarrow> string option option"
  he_parse_uuid :: "string \<Rightarrow> uuid option"
  he_ca :: "'iss intermediate_ca"
  he_data_dir :: path
  he_policy :: issuance_policy
  he_authorization :: authorization_policy

record 'k http_state =
  hs_service :: service_state
  hs_acceptor :: "'k tls_acceptor_manager"

record http_fresh =
  hf_issue :: issue_fresh
  hf_revoke_now :: instant
  hf_crl :: crl_fresh

section \<open>Paths\<close>

definition certificate_id_from_path ::
  "('key, 'iss, 'c, 'k) http_env \<Rightarrow> string \<Rightarrow> uuid option" where
  "certificate_id_from_path env path =
     (case strip_prefix path ''/v1/certificates/'' of None \<Rightarrow> None
      | Some id_text \<Rightarrow>
          if id_text = [] \<or> CHR ''/'' \<in> set id_text then None else he_parse_uuid env id_text)"

definition certificate_id_from_revoke_path ::
  "('key, 'iss, 'c, 'k) http_env \<Rightarrow> string \<Rightarrow> uuid option" where
  "certificate_id_from_revoke_path env path =
     (case strip_prefix path ''/v1/certificates/'' of None \<Rightarrow> None
      | Some rest \<Rightarrow>
          (case strip_suffix rest ''/revoke'' of None \<Rightarrow> None
           | Some id_text \<Rightarrow>
               if id_text = [] \<or> CHR ''/'' \<in> set id_text then None else he_parse_uuid env id_text))"

section \<open>Handlers\<close>

definition handle_issue ::
  "('key, 'iss, 'c, 'k) http_env \<Rightarrow> http_fresh \<Rightarrow> mtls_identity \<Rightarrow> bytes \<Rightarrow> 'k http_state
   \<Rightarrow> 'k http_state \<times> http_outcome" where
  "handle_issue env fr i body st =
     (case he_issue_body env body of
        None \<Rightarrow> (st, Answer 400 (ErrorBody ''invalid JSON request body''))
      | Some request \<Rightarrow>
          (let roles = roles_for (he_authorization env) i;
               principal = \<lparr>pr_id = mt_id i, pr_name = mt_name i, pr_roles = roles\<rparr>
           in case service_issue (he_rcgen env) (he_reader env) (he_serde env) (he_policy env)
                     (hf_issue fr) principal (he_ca env) request (hs_service st) of
                (sv, Inr (response, _)) \<Rightarrow> (st\<lparr>hs_service := sv\<rparr>, Answer 201 (IssuedBody response))
              | (sv, Inl e) \<Rightarrow>
                  (let status_code = (case e of Unauthorized \<Rightarrow> 403 | _ \<Rightarrow> 400) in
                   (st\<lparr>hs_service := sv\<rparr>, Answer status_code (ErrorBody (service_error_text e))))))"

definition handle_list_certificates ::
  "('key, 'iss, 'c, 'k) http_env \<Rightarrow> mtls_identity \<Rightarrow> 'k http_state \<Rightarrow> http_outcome" where
  "handle_list_certificates env i st =
     (if \<not> can_issue_certificates (he_authorization env) i
      then Answer 403 (ErrorBody ''certificate inventory access is not authorized'')
      else Answer 200 (RecordsBody (store_list (sv_store (hs_service st)))))"

definition handle_get_certificate ::
  "('key, 'iss, 'c, 'k) http_env \<Rightarrow> mtls_identity \<Rightarrow> string \<Rightarrow> 'k http_state \<Rightarrow> http_outcome" where
  "handle_get_certificate env i path st =
     (if \<not> can_issue_certificates (he_authorization env) i
      then Answer 403 (ErrorBody ''certificate inventory access is not authorized'')
      else case certificate_id_from_path env path of
        None \<Rightarrow> Answer 400 (ErrorBody ''invalid certificate id'')
      | Some cid \<Rightarrow>
          (case store_get (sv_store (hs_service st)) cid of
             Some r \<Rightarrow> Answer 200 (RecordBody r)
           | None \<Rightarrow> Answer 404 (ErrorBody ''certificate not found'')))"

definition handle_revoke_certificate ::
  "('key, 'iss, 'c, 'k) http_env \<Rightarrow> http_fresh \<Rightarrow> mtls_identity \<Rightarrow> string \<Rightarrow> bytes \<Rightarrow> 'k http_state
   \<Rightarrow> ('k http_state \<times> http_outcome) may_panic" where
  "handle_revoke_certificate env fr i path body st =
     (if \<not> can_issue_certificates (he_authorization env) i
      then Done (st, Answer 403 (ErrorBody ''certificate revocation is not authorized''))
      else case certificate_id_from_revoke_path env path of
        None \<Rightarrow> Done (st, Answer 400 (ErrorBody ''invalid certificate id''))
      | Some cid \<Rightarrow>
      (case (if body = [] then Some None else he_revoke_body env body) of
        None \<Rightarrow> Done (st, Answer 400 (ErrorBody ''invalid JSON request body''))
      | Some reason \<Rightarrow>
      (let sv = hs_service st in
       case store_revoke (he_serde env) (hf_revoke_now fr) cid
              (case reason of None \<Rightarrow> ''revoked by operator'' | Some r \<Rightarrow> r) (sv_store sv) (sv_fs sv) of
         ((s', w'), Inr (Some r)) \<Rightarrow>
           (case acceptor_refresh (he_rustls env) (he_signer env) (int_issuer (he_ca env)) (he_data_dir env)
                   (hf_crl fr) s' w' (hs_acceptor st) of
              Panic \<Rightarrow> Panic
            | Done ((w'', m), Inl _) \<Rightarrow>
                Done (\<lparr>hs_service = sv\<lparr>sv_store := s', sv_fs := w''\<rparr>, hs_acceptor = m\<rparr>,
                  Answer 500 (ErrorBody
                    ''certificate revoked but TLS revocation state could not be refreshed''))
            | Done ((w'', m), Inr _) \<Rightarrow>
                Done (\<lparr>hs_service = sv\<lparr>sv_store := s', sv_fs := w''\<rparr>, hs_acceptor = m\<rparr>,
                  Answer 200 (RecordBody r)))
       | ((s', w'), Inr None) \<Rightarrow>
           Done (st\<lparr>hs_service := sv\<lparr>sv_store := s', sv_fs := w'\<rparr>\<rparr>,
             Answer 404 (ErrorBody ''certificate not found''))
       | ((s', w'), Inl e) \<Rightarrow>
           Done (st\<lparr>hs_service := sv\<lparr>sv_store := s', sv_fs := w'\<rparr>\<rparr>,
             Answer 500 (ErrorBody (store_error_text e))))))"

section \<open>Routing\<close>

definition route ::
  "('key, 'iss, 'c, 'k) http_env \<Rightarrow> http_fresh \<Rightarrow> mtls_identity \<Rightarrow> string \<Rightarrow> string \<Rightarrow> bytes \<Rightarrow> 'k http_state
   \<Rightarrow> ('k http_state \<times> http_outcome) may_panic" where
  "route env fr i meth path body st =
     (if meth = ''GET'' \<and> path = ''/health''
      then Done (st, Answer 200 (HealthBody ''ok'' ''daemon-pki''))
      else if meth = ''POST'' \<and> path = ''/v1/certificates/issue''
      then Done (handle_issue env fr i body st)
      else if meth = ''GET'' \<and> path = ''/v1/certificates''
      then Done (st, handle_list_certificates env i st)
      else if meth = ''GET'' \<and> starts_with path ''/v1/certificates/''
      then Done (st, handle_get_certificate env i path st)
      else if meth = ''POST'' \<and> ends_with path ''/revoke'' \<and> starts_with path ''/v1/certificates/''
      then handle_revoke_certificate env fr i path body st
      else Done (st, Answer 404 (ErrorBody ''endpoint not found'')))"

definition handle_connection ::
  "('key, 'iss, 'c, 'k) http_env \<Rightarrow> http_fresh \<Rightarrow> mtls_identity \<Rightarrow> bytes \<Rightarrow> 'k http_state
   \<Rightarrow> ('k http_state \<times> http_outcome) may_panic" where
  "handle_connection env fr i request_bytes st =
     (if request_bytes = [] then Done (st, NoAnswer)
      else case he_parse_request env request_bytes of
        ParseError \<Rightarrow> Done (st, ConnectionError)
      | Partial \<Rightarrow> Done (st, Answer 400 (ErrorBody ''incomplete HTTP request''))
      | Complete body_offset m p \<Rightarrow>
          (let meth = (case m of None \<Rightarrow> [] | Some x \<Rightarrow> x);
               path = (case p of None \<Rightarrow> [] | Some x \<Rightarrow> x);
               body = drop body_offset request_bytes
           in route env fr i meth path body st))"

section \<open>The bytes of an answer\<close>

definition status_reason :: "nat \<Rightarrow> string" where
  "status_reason sc =
     (if sc = 200 then ''OK'' else if sc = 201 then ''Created'' else if sc = 400 then ''Bad Request''
      else if sc = 403 then ''Forbidden'' else if sc = 404 then ''Not Found''
      else ''Internal Server Error'')"

definition crlf :: string where
  "crlf = [char_of (13::nat), char_of (10::nat)]"

definition write_json_bytes :: "nat \<Rightarrow> bytes \<Rightarrow> bytes" where
  "write_json_bytes status_code body =
     as_bytes (''HTTP/1.1 '' @ show_nat status_code @ '' '' @ status_reason status_code @ crlf @
       ''Content-Type: application/json'' @ crlf @
       ''Content-Length: '' @ show_nat (length body) @ crlf @
       ''Connection: close'' @ crlf @ crlf) @ body"

end
