(* ===== verification/Http_Props.thy ===== *)
theory Http_Props
  imports Http_Api
begin

text \<open>
  Properties of the HTTP API: what a caller without authorization can do, what an answer 200 to
  a revocation stands for, and which requests leave a trace in the audit log.
\<close>

section \<open>Lemmas\<close>

lemma can_issue_iff:
  "can_issue_certificates a i \<longleftrightarrow> mt_fingerprint_sha256 i \<in> set (ap_certificate_issue_identities a)"
  by (auto simp: can_issue_certificates_def list_ex_iff)

lemma roles_for_iff: "''certificate:issue'' \<in> set (roles_for a i) \<longleftrightarrow> can_issue_certificates a i"
  by (simp add: roles_for_def Let_def)

lemma starts_with_prefix: "starts_with path p \<longleftrightarrow> (\<exists>r. path = p @ r)"
  by (auto simp: starts_with_def prefix_def)

lemma if_chain:
  "(if A then a else if B then b else if C then c else if D then d else if E then e else f) = a \<and> A \<or>
   (if A then a else if B then b else if C then c else if D then d else if E then e else f) = b \<and> B \<or>
   (if A then a else if B then b else if C then c else if D then d else if E then e else f) = c \<and> C \<or>
   (if A then a else if B then b else if C then c else if D then d else if E then e else f) = d \<and> D \<or>
   (if A then a else if B then b else if C then c else if D then d else if E then e else f) = e \<and> E \<or>
   (if A then a else if B then b else if C then c else if D then d else if E then e else f) = f"
  by simp

text \<open>The only ways a request is served.\<close>

lemma route_cases:
  obtains (health) "route env fr i meth path body st = Done (st, Answer 200 (HealthBody ''ok'' ''daemon-pki''))"
      "meth = ''GET''" "path = ''/health''"
  | (issue) "route env fr i meth path body st = Done (handle_issue env fr i body st)"
      "meth = ''POST''" "path = ''/v1/certificates/issue''"
  | (listing) "route env fr i meth path body st = Done (st, handle_list_certificates env i st)"
      "meth = ''GET''" "path = ''/v1/certificates''"
  | (getting) "route env fr i meth path body st = Done (st, handle_get_certificate env i path st)" "meth = ''GET''"
  | (revoke) "route env fr i meth path body st = handle_revoke_certificate env fr i path body st"
      "meth = ''POST''" "ends_with path ''/revoke''"
  | (unknown) "route env fr i meth path body st = Done (st, Answer 404 (ErrorBody ''endpoint not found''))"
proof -
  have "route env fr i meth path body st = Done (st, Answer 200 (HealthBody ''ok'' ''daemon-pki'')) \<and>
      meth = ''GET'' \<and> path = ''/health'' \<or>
    route env fr i meth path body st = Done (handle_issue env fr i body st) \<and>
      meth = ''POST'' \<and> path = ''/v1/certificates/issue'' \<or>
    route env fr i meth path body st = Done (st, handle_list_certificates env i st) \<and>
      meth = ''GET'' \<and> path = ''/v1/certificates'' \<or>
    route env fr i meth path body st = Done (st, handle_get_certificate env i path st) \<and>
      meth = ''GET'' \<and> starts_with path ''/v1/certificates/'' \<or>
    route env fr i meth path body st = handle_revoke_certificate env fr i path body st \<and>
      meth = ''POST'' \<and> ends_with path ''/revoke'' \<and> starts_with path ''/v1/certificates/'' \<or>
    route env fr i meth path body st = Done (st, Answer 404 (ErrorBody ''endpoint not found''))"
    unfolding route_def by (rule if_chain)
  then show thesis using that by blast
qed

lemma issue_unpermitted:
  assumes "\<not> can_issue_certificates (he_authorization env) i" and "handle_issue env fr i body st = (st', out)"
  shows "sv_store (hs_service st') = sv_store (hs_service st) \<and> sv_fs (hs_service st') = sv_fs (hs_service st) \<and>
    hs_acceptor st' = hs_acceptor st \<and>
    (out = Answer 400 (ErrorBody ''invalid JSON request body'') \<and> st' = st \<or>
     out = Answer 403 (ErrorBody ''caller is not authorized to issue certificates'') \<and>
     audit_len (sv_audit (hs_service st')) = audit_len (sv_audit (hs_service st)) + 1)"
proof (cases "he_issue_body env body")
  case None
  then show ?thesis using assms(2) by (simp add: handle_issue_def)
next
  case (Some request)
  let ?p = "\<lparr>pr_id = mt_id i, pr_name = mt_name i, pr_roles = roles_for (he_authorization env) i\<rparr>"
  have "''certificate:issue'' \<notin> set (pr_roles ?p)" using assms(1) by (simp add: roles_for_iff)
  then have sv: "service_issue (he_rcgen env) (he_reader env) (he_serde env) (he_policy env)
      (hf_issue fr) ?p (he_ca env) request (hs_service st) =
    (with_event (hf_issue fr) ?p request AuthorizationDenied Denied
      (Some ''caller is not authorized to issue certificates'') (hs_service st), Inl Unauthorized)"
    by (rule issue_unauthorized)
  have "st' = st\<lparr>hs_service := with_event (hf_issue fr) ?p request AuthorizationDenied Denied
      (Some ''caller is not authorized to issue certificates'') (hs_service st)\<rparr> \<and>
    out = Answer 403 (ErrorBody ''caller is not authorized to issue certificates'')"
    using Some assms(2) unfolding handle_issue_def Let_def by (simp add: sv service_error_text_def)
  moreover have "audit_len (sv_audit (with_event fr' p rq ty oc re s)) = audit_len (sv_audit s) + 1"
    for fr' p rq ty oc re s by (simp add: with_event_def)
  ultimately show ?thesis by simp
qed

lemma handle_issue_audit:
  assumes "handle_issue env fr i body st = (st', out)"
  shows "hs_acceptor st' = hs_acceptor st \<and> (\<exists>es. length es \<le> 1 \<and>
    audit_list (sv_audit (hs_service st')) = audit_list (sv_audit (hs_service st)) @ es)"
proof (cases "he_issue_body env body")
  case None
  then show ?thesis using assms by (auto simp: handle_issue_def)
next
  case (Some request)
  let ?p = "\<lparr>pr_id = mt_id i, pr_name = mt_name i, pr_roles = roles_for (he_authorization env) i\<rparr>"
  let ?q = "service_issue (he_rcgen env) (he_reader env) (he_serde env) (he_policy env)
      (hf_issue fr) ?p (he_ca env) request (hs_service st)"
  have "\<exists>es. length es \<le> 1 \<and> audit_list (sv_audit (fst ?q)) = audit_list (sv_audit (hs_service st)) @ es"
    by (rule service_issue_appends)
  moreover have "hs_service st' = fst ?q \<and> hs_acceptor st' = hs_acceptor st"
    using assms Some by (auto simp: handle_issue_def Let_def split: prod.splits sum.splits)
  ultimately show ?thesis by simp
qed

text \<open>A revocation that was answered 200, taken apart.\<close>

lemma revoke_answer_200:
  assumes "handle_revoke_certificate env fr i path body st = Done (st', Answer 200 b)"
  shows "\<exists>cid reason r s' w' w'' m. can_issue_certificates (he_authorization env) i \<and>
    certificate_id_from_revoke_path env path = Some cid \<and>
    store_revoke (he_serde env) (hf_revoke_now fr) cid reason (sv_store (hs_service st)) (sv_fs (hs_service st)) =
      ((s', w'), Inr (Some r)) \<and>
    acceptor_refresh (he_rustls env) (he_signer env) (int_issuer (he_ca env)) (he_data_dir env) (hf_crl fr)
      s' w' (hs_acceptor st) = Done ((w'', m), Inr ()) \<and>
    st' = \<lparr>hs_service = (hs_service st)\<lparr>sv_store := s', sv_fs := w''\<rparr>, hs_acceptor = m\<rparr> \<and> b = RecordBody r"
proof -
  have c: "can_issue_certificates (he_authorization env) i"
    using assms by (auto simp: handle_revoke_certificate_def split: if_splits)
  obtain cid where cid: "certificate_id_from_revoke_path env path = Some cid"
    using assms c by (auto simp: handle_revoke_certificate_def split: option.splits)
  obtain rq where rq: "(if body = [] then Some None else he_revoke_body env body) = Some rq"
    using assms c cid by (cases "if body = [] then Some None else he_revoke_body env body")
      (simp_all add: handle_revoke_certificate_def)
  let ?reason = "case rq of None \<Rightarrow> ''revoked by operator'' | Some r \<Rightarrow> r"
  obtain s' w' q where rv: "store_revoke (he_serde env) (hf_revoke_now fr) cid ?reason
      (sv_store (hs_service st)) (sv_fs (hs_service st)) = ((s', w'), q)"
    by (metis prod.collapse)
  note h = assms[unfolded handle_revoke_certificate_def Let_def cid option.case rq rv prod.case]
  from h c obtain r where q: "q = Inr (Some r)" by (auto split: sum.splits option.splits)
  from h c q obtain w'' m where "acceptor_refresh (he_rustls env) (he_signer env) (int_issuer (he_ca env))
      (he_data_dir env) (hf_crl fr) s' w' (hs_acceptor st) = Done ((w'', m), Inr ())"
    and "st' = \<lparr>hs_service = (hs_service st)\<lparr>sv_store := s', sv_fs := w''\<rparr>, hs_acceptor = m\<rparr>" and "b = RecordBody r"
    by (auto split: may_panic.splits prod.splits sum.splits)
  with c cid rv q show ?thesis by blast
qed

lemma revoke_frame:
  assumes "handle_revoke_certificate env fr i path body st = Done (st', out)"
  shows "sv_audit (hs_service st') = sv_audit (hs_service st)"
  using assms unfolding handle_revoke_certificate_def Let_def
  by (auto split: if_splits option.splits prod.splits sum.splits may_panic.splits)

lemma revoke_unpermitted:
  "\<not> can_issue_certificates (he_authorization env) i \<Longrightarrow>
     handle_revoke_certificate env fr i path body st =
       Done (st, Answer 403 (ErrorBody ''certificate revocation is not authorized''))"
  by (simp add: handle_revoke_certificate_def)

section \<open>A sample server\<close>

definition sample_rustls :: "unit rustls" where
  "sample_rustls = \<lparr>ru_certs = (\<lambda>_. Some [[1]]), ru_private_key = (\<lambda>_. Inr (Some ())), ru_root_ok = (\<lambda>_. True),
     ru_verifier_ok = (\<lambda>_ _. True), ru_key_ok = (\<lambda>_. True), ru_single_cert_ok = (\<lambda>_ _. True)\<rparr>"

definition sample_env :: "(nat, nat, bytes, unit) http_env" where
  "sample_env =
     \<lparr>he_rcgen = sample_rcgen, he_reader = sample_reader, he_serde = sample_run_serde,
      he_rustls = sample_rustls, he_signer = (\<lambda>ps i. Inr [9]),
      he_parse_request = (\<lambda>bs. Complete (length bs) (Some ''GET'') (Some ''/v1/certificates'')),
      he_issue_body = (\<lambda>_. None), he_revoke_body = (\<lambda>_. Some (Some ''superseded'')),
      he_parse_uuid = (\<lambda>s. if s = ''22'' then Some 22 else None), he_ca = sample_ca,
      he_data_dir = [''d''], he_policy = policy_default,
      he_authorization = allow_certificate_issuance ''aa'' authorization_new\<rparr>"

definition sample_client :: "string \<Rightarrow> mtls_identity" where
  "sample_client fp = \<lparr>mt_id = 1, mt_name = ''edge'', mt_serial_number = ''05'', mt_fingerprint_sha256 = fp\<rparr>"

definition sample_http :: "unit http_state" where
  "sample_http =
     \<lparr>hs_service = sample_state\<lparr>sv_store := \<lparr>st_path = [''c''], st_records = [(22, sample_issued)]\<rparr>\<rparr>,
      hs_acceptor = acceptor_new \<lparr>tc_certificates = [[1]], tc_private_key = (), tc_client_roots = [[1]],
        tc_crls = [], tc_only_check_end_entity = False\<rparr> [1] [2] [3]\<rparr>"

definition sample_http_fresh :: http_fresh where
  "sample_http_fresh = \<lparr>hf_issue = sample_fresh, hf_revoke_now = 60,
     hf_crl = \<lparr>cf_id = 30, cf_now = 70, cf_generated_at = 71\<rparr>\<rparr>"

lemma sample_path_id: "certificate_id_from_revoke_path sample_env ''/v1/certificates/22/revoke'' = Some 22"
  by (simp add: certificate_id_from_revoke_path_def sample_env_def strip_prefix_def strip_suffix_def suffix_def)

lemma sample_authorized: "can_issue_certificates (he_authorization sample_env) (sample_client ''aa'')"
  by (simp add: can_issue_iff sample_env_def sample_client_def allow_certificate_issuance_def authorization_new_def)

lemma sample_answer_200:
  "\<exists>st' b. handle_revoke_certificate sample_env sample_http_fresh (sample_client ''aa'')
     ''/v1/certificates/22/revoke'' [1] sample_http = Done (st', Answer 200 b)"
proof -
  let ?s = "\<lparr>st_path = [''c''], st_records = [(22, sample_issued)]\<rparr>"
  have f: "fs_faults sample_fs = []" "file_at sample_fs [''d'', ''crl-number''] = None"
    by (simp_all add: sample_fs_def file_at_def)
  obtain s2 w2 where r: "store_revoke sample_run_serde 60 22 ''superseded'' ?s sample_fs =
      ((s2, w2), Inr (Some (revoked_by 60 ''superseded'' sample_issued)))"
    and s2: "st_records s2 = [(22, revoked_by 60 ''superseded'' sample_issued)]" "fs_faults w2 = []"
      "file_at w2 [''d'', ''crl-number''] = None"
    using sample_revoke[OF f(1)] f(2) by auto
  obtain w3 where g: "generate_and_persist (\<lambda>ps i. Inr [9]) (3::nat) [''d''] 30 70 71 s2 w2 = Done (w3, Inr [9])"
    using sample_publish[OF s2] by blast
  have b: "\<exists>c. build_mtls_server_config sample_rustls x y z (Some d) = Inr c" for x y z d
    by (simp add: build_config_ok sample_rustls_def)
  then obtain c where c: "build_mtls_server_config sample_rustls (ta_server_certificate_pem (hs_acceptor sample_http))
      (ta_server_private_key_pem (hs_acceptor sample_http)) (ta_client_ca_pem (hs_acceptor sample_http)) (Some [9]) = Inr c"
    by blast
  have e: "he_serde sample_env = sample_run_serde" "he_revoke_body sample_env [1] = Some (Some ''superseded'')"
    "he_rustls sample_env = sample_rustls" "he_signer sample_env = (\<lambda>ps i. Inr [9])" "int_issuer (he_ca sample_env) = 3"
    "he_data_dir sample_env = [''d'']"
    by (simp_all add: sample_env_def sample_ca_def)
  have st: "sv_store (hs_service sample_http) = ?s" "sv_fs (hs_service sample_http) = sample_fs"
    by (simp_all add: sample_http_def sample_state_def)
  show ?thesis
    by (simp add: handle_revoke_certificate_def sample_authorized sample_path_id e st r g c acceptor_refresh_def
        sample_http_fresh_def)
qed

section \<open>Properties\<close>

text \<open>
  C7. A client whose certificate fingerprint is not configured can change nothing and read nothing.
  Whatever bytes it sends, the certificate store, the files and the TLS acceptor stay as they are,
  and the only answer in the 200 range it can get is the health report; an attempt to issue adds
  one event to the audit log and no other request adds any.
\<close>

theorem unauthorized_client_is_harmless:
  assumes "mt_fingerprint_sha256 i \<notin> set (ap_certificate_issue_identities (he_authorization env))"
    and "handle_connection env fr i bs st = Done (st', out)"
  shows "sv_store (hs_service st') = sv_store (hs_service st) \<and> sv_fs (hs_service st') = sv_fs (hs_service st) \<and>
    hs_acceptor st' = hs_acceptor st \<and>
    audit_len (sv_audit (hs_service st')) \<le> audit_len (sv_audit (hs_service st)) + 1 \<and>
    (\<forall>c b. out = Answer c b \<longrightarrow> c < 300 \<longrightarrow> b = HealthBody ''ok'' ''daemon-pki'')"
proof -
  have no: "\<not> can_issue_certificates (he_authorization env) i" using assms(1) by (simp add: can_issue_iff)
  have "sv_store (hs_service st') = sv_store (hs_service st) \<and> sv_fs (hs_service st') = sv_fs (hs_service st) \<and>
      hs_acceptor st' = hs_acceptor st \<and>
      audit_len (sv_audit (hs_service st')) \<le> audit_len (sv_audit (hs_service st)) + 1 \<and>
      (\<forall>c b. out = Answer c b \<longrightarrow> c < 300 \<longrightarrow> b = HealthBody ''ok'' ''daemon-pki'')"
    if "route env fr i meth path body st = Done (st', out)" for meth path body
  proof (cases rule: route_cases[where env = env and fr = fr and i = i and meth = meth and path = path
        and body = body and st = st])
    case issue
    with that have "handle_issue env fr i body st = (st', out)" by simp
    from issue_unpermitted[OF no this] show ?thesis by auto
  next
    case revoke
    with that no show ?thesis by (auto simp: revoke_unpermitted)
  qed (use that no in \<open>auto simp: handle_list_certificates_def handle_get_certificate_def\<close>)
  then show ?thesis using assms(2)
    by (auto simp: handle_connection_def Let_def split: if_splits http_parse.splits)
qed

theorem unauthorized_client_is_harmless_witness:
  "\<exists>st'. handle_connection sample_env sample_http_fresh (sample_client ''bb'') [1] sample_http =
       Done (st', Answer 403 (ErrorBody ''certificate inventory access is not authorized'')) \<and>
     hs_acceptor st' = hs_acceptor sample_http"
proof -
  have n: "mt_fingerprint_sha256 (sample_client ''bb'') \<notin> set (ap_certificate_issue_identities (he_authorization sample_env))"
    by (simp add: sample_client_def sample_env_def allow_certificate_issuance_def authorization_new_def)
  then have "\<not> can_issue_certificates (he_authorization sample_env) (sample_client ''bb'')"
    by (simp add: can_issue_iff)
  then have c: "handle_connection sample_env sample_http_fresh (sample_client ''bb'') [1] sample_http =
      Done (sample_http, Answer 403 (ErrorBody ''certificate inventory access is not authorized''))"
  proof -
    have "he_parse_request sample_env [1] = Complete 1 (Some ''GET'') (Some ''/v1/certificates'')"
      by (simp add: sample_env_def)
    then show ?thesis using \<open>\<not> can_issue_certificates _ _\<close>
      by (simp add: handle_connection_def route_def handle_list_certificates_def)
  qed
  from unauthorized_client_is_harmless[OF n c] c show ?thesis by blast
qed

text \<open>
  C4. An answer 200 to a revocation means that it is in force. The caller was authorized, the path
  named a stored certificate, its record is revoked in memory, and the TLS acceptor that serves
  the next connection checks clients against one list, signed by the CA and stored in the CRL
  file, which has an entry with the certificate's serial number.
\<close>

theorem revocation_answered_200_is_enforced:
  assumes "handle_revoke_certificate env fr i path body st = Done (st', Answer 200 b)"
  shows "mt_fingerprint_sha256 i \<in> set (ap_certificate_issue_identities (he_authorization env)) \<and>
    (\<exists>cid r der n crl. certificate_id_from_revoke_path env path = Some cid \<and> b = RecordBody r \<and>
       store_get (sv_store (hs_service st')) cid = Some r \<and> cr_revoked r \<and>
       is_revoked_serial (sv_store (hs_service st')) (cr_serial_number r) \<and>
       tc_crls (acceptor_current (hs_acceptor st')) = [der] \<and>
       file_at (sv_fs (hs_service st')) (crl_der_path (he_data_dir env)) = Some der \<and>
       signed_der (he_signer env) (int_issuer (he_ca env)) n crl = Done (Inr der) \<and>
       contains_serial (cr_serial_number r) crl)"
proof -
  obtain cid reason r s' w' w'' m where c: "can_issue_certificates (he_authorization env) i"
    and cid: "certificate_id_from_revoke_path env path = Some cid"
    and rv: "store_revoke (he_serde env) (hf_revoke_now fr) cid reason (sv_store (hs_service st)) (sv_fs (hs_service st)) =
      ((s', w'), Inr (Some r))"
    and rf: "acceptor_refresh (he_rustls env) (he_signer env) (int_issuer (he_ca env)) (he_data_dir env) (hf_crl fr)
      s' w' (hs_acceptor st) = Done ((w'', m), Inr ())"
    and st': "st' = \<lparr>hs_service = (hs_service st)\<lparr>sv_store := s', sv_fs := w''\<rparr>, hs_acceptor = m\<rparr>" "b = RecordBody r"
    using revoke_answer_200[OF assms] by blast
  have r: "store_get s' cid = Some r" "cr_revoked r"
    using rv by (auto simp: store_revoke_cases store_get_def map_sum_def split: option.splits prod.splits sum.splits)
  then have rs: "is_revoked_serial s' (cr_serial_number r)"
    by (auto simp: is_revoked_serial_def list_ex_iff store_get_def intro!: bexI[of _ r] hm_values_get)
  obtain der config where g: "generate_and_persist (he_signer env) (int_issuer (he_ca env)) (he_data_dir env)
      (cf_id (hf_crl fr)) (cf_now (hf_crl fr)) (cf_generated_at (hf_crl fr)) s' w' = Done (w'', Inr der)"
    and m: "m = (hs_acceptor st)\<lparr>ta_acceptor := config\<rparr>" "tc_crls config = [der]"
    using refresh_ok[OF rf] by blast
  obtain n crl where "signed_der (he_signer env) (int_issuer (he_ca env)) n crl = Done (Inr der)"
    and "contains_serial (cr_serial_number r) crl"
    and "file_at w'' (crl_der_path (he_data_dir env)) = Some der"
    using generate_published[OF g] rs by blast
  then show ?thesis using c cid st' r rs m by (auto simp: can_issue_iff acceptor_current_def)
qed

theorem revocation_answered_200_is_enforced_witness:
  "\<exists>st' r. handle_revoke_certificate sample_env sample_http_fresh (sample_client ''aa'')
      ''/v1/certificates/22/revoke'' [1] sample_http = Done (st', Answer 200 (RecordBody r)) \<and>
     is_revoked_serial (sv_store (hs_service st')) (cr_serial_number r)"
proof -
  obtain st' b where h: "handle_revoke_certificate sample_env sample_http_fresh (sample_client ''aa'')
      ''/v1/certificates/22/revoke'' [1] sample_http = Done (st', Answer 200 b)"
    using sample_answer_200 by blast
  from revocation_answered_200_is_enforced[OF h] h show ?thesis by blast
qed

text \<open>
  Only the issuing endpoint is audited. A request to any other endpoint leaves the audit log as
  it is, whether it is denied or served, so neither a revocation nor a refused access to the
  inventory is ever recorded; the log is append-only over all requests.
\<close>

theorem only_issue_requests_are_audited:
  assumes "route env fr i meth path body st = Done (st', out)"
  shows "(meth = ''POST'' \<and> path = ''/v1/certificates/issue'' \<or>
      sv_audit (hs_service st') = sv_audit (hs_service st)) \<and>
    audit.extends (sv_audit (hs_service st)) (sv_audit (hs_service st'))"
proof (cases rule: route_cases[where env = env and fr = fr and i = i and meth = meth and path = path
      and body = body and st = st])
  case issue
  with assms have "handle_issue env fr i body st = (st', out)" by simp
  from handle_issue_audit[OF this] issue show ?thesis by (auto simp: audit.extends_def)
next
  case revoke
  with assms have "handle_revoke_certificate env fr i path body st = Done (st', out)" by simp
  from revoke_frame[OF this] show ?thesis by (simp add: audit.extends_refl)
qed (use assms in \<open>auto simp: audit.extends_refl\<close>)

theorem only_issue_requests_are_audited_witness:
  "\<exists>st' b. route sample_env sample_http_fresh (sample_client ''aa'') ''POST'' ''/v1/certificates/22/revoke'' [1]
       sample_http = Done (st', Answer 200 b) \<and>
     sv_audit (hs_service st') = sv_audit (hs_service sample_http)"
proof -
  obtain st' b where "handle_revoke_certificate sample_env sample_http_fresh (sample_client ''aa'')
      ''/v1/certificates/22/revoke'' [1] sample_http = Done (st', Answer 200 b)"
    using sample_answer_200 by blast
  then have r: "route sample_env sample_http_fresh (sample_client ''aa'') ''POST'' ''/v1/certificates/22/revoke'' [1]
       sample_http = Done (st', Answer 200 b)"
    by (simp add: route_def ends_with_def starts_with_def suffix_def)
  from only_issue_requests_are_audited[OF r] r show ?thesis by auto
qed

end
