(* ===== verification/Server_Boot.thy ===== *)
theory Server_Boot
  imports Http_Props
begin

text \<open>
  The start of the server, \<open>daemon-pki-api/src/bin/server.rs\<close>: the three pairs of PEM files it
  loads or creates (root CA, intermediate CA, its own certificate), the authorization policy it
  reads from the environment, and \<open>main\<close> up to the call of \<open>HttpApi::run\<close>. The key pairs the
  calls of \<open>KeyPair::generate\<close> return are the fields of \<open>boot_fresh\<close>; an error is told apart by
  the context the code attaches. What \<open>main\<close> prints is not represented.
\<close>

section \<open>Data\<close>

datatype boot_error =
  BootCreateDir io_error | BootRead path io_error | BootWrite path io_error
| BootLoadRoot ca_error | BootGenerateRoot ca_error | BootRootIncomplete
| BootLoadIntermediate ca_error | BootGenerateIntermediate ca_error | BootIntermediateIncomplete
| BootIssueServer issuance_error | BootServerIncomplete
| BootStore certificate_store_error | BootCrl crl_manager_error | BootTls tls_error

record 'key boot_fresh =
  bf_root_key :: "rcgen_error + 'key"
  bf_intermediate_key :: "rcgen_error + 'key"
  bf_server_key :: "rcgen_error + 'key"
  bf_crl :: crl_fresh

text \<open>The environment variables; \<open>None\<close> where \<open>env::var\<close> is an error.\<close>

record boot_vars =
  bv_data_dir :: "string option"
  bv_issue_fingerprints :: "string option"
  bv_bind :: "string option"

text \<open>
  \<open>PathBuf::from\<close>: the components of the text, without the empty ones and the current
  directory; a leading separator is a component of its own.
\<close>

definition path_from :: "string \<Rightarrow> path" where
  "path_from s =
     (if starts_with s ''/'' then [''/''] else []) @
     filter (\<lambda>c. c \<noteq> [] \<and> c \<noteq> ''.'') (split_on (CHR ''/'') s)"

definition boot_dir :: "boot_vars \<Rightarrow> path" where
  "boot_dir bv = path_from (case bv_data_dir bv of None \<Rightarrow> ''data/pki'' | Some d \<Rightarrow> d)"

section \<open>Loading or creating a pair of files\<close>

definition load_or_create_root ::
  "('key, 'iss) rcgen \<Rightarrow> path \<Rightarrow> fs \<Rightarrow> fs \<times> (boot_error + 'iss root_ca)" where
  "load_or_create_root rc data_dir w =
     (let cert_path = path_join data_dir ''root-ca.pem'';
          key_path = path_join data_dir ''root-ca-key.pem'' in
      case fs_exists cert_path w of (w1, cert_exists) \<Rightarrow>
      case fs_exists key_path w1 of (w2, key_exists) \<Rightarrow>
        if cert_exists \<and> key_exists then
          (case fs_read_to_string cert_path w2 of
             (w3, Inl e) \<Rightarrow> (w3, Inl (BootRead cert_path e))
           | (w3, Inr certificate) \<Rightarrow>
               (case fs_read_to_string key_path w3 of
                  (w4, Inl e) \<Rightarrow> (w4, Inl (BootRead key_path e))
                | (w4, Inr private_key) \<Rightarrow>
                    (w4, map_err BootLoadRoot (root_from_pem rc certificate private_key))))
        else if \<not> cert_exists \<and> \<not> key_exists then
          (case root_generate rc ''Daemon PKI Root CA'' of
             Inl e \<Rightarrow> (w2, Inl (BootGenerateRoot e))
           | Inr root \<Rightarrow>
               (case fs_write cert_path (as_bytes (root_cert_pem root)) w2 of
                  (w3, Inl e) \<Rightarrow> (w3, Inl (BootWrite cert_path e))
                | (w3, Inr _) \<Rightarrow>
                    (case fs_write key_path (as_bytes (root_private_key_pem rc root)) w3 of
                       (w4, Inl e) \<Rightarrow> (w4, Inl (BootWrite key_path e))
                     | (w4, Inr _) \<Rightarrow> (w4, Inr root))))
        else (w2, Inl BootRootIncomplete))"

definition load_or_create_intermediate ::
  "('key, 'iss) rcgen \<Rightarrow> path \<Rightarrow> 'iss root_ca \<Rightarrow> fs \<Rightarrow> fs \<times> (boot_error + 'iss intermediate_ca)" where
  "load_or_create_intermediate rc data_dir root w =
     (let cert_path = path_join data_dir ''intermediate-ca.pem'';
          key_path = path_join data_dir ''intermediate-ca-key.pem'' in
      case fs_exists cert_path w of (w1, cert_exists) \<Rightarrow>
      case fs_exists key_path w1 of (w2, key_exists) \<Rightarrow>
        if cert_exists \<and> key_exists then
          (case fs_read_to_string cert_path w2 of
             (w3, Inl e) \<Rightarrow> (w3, Inl (BootRead cert_path e))
           | (w3, Inr certificate) \<Rightarrow>
               (case fs_read_to_string key_path w3 of
                  (w4, Inl e) \<Rightarrow> (w4, Inl (BootRead key_path e))
                | (w4, Inr private_key) \<Rightarrow>
                    (w4, map_err BootLoadIntermediate (intermediate_from_pem rc certificate private_key))))
        else if \<not> cert_exists \<and> \<not> key_exists then
          (case intermediate_generate rc root ''Daemon PKI Workload CA'' of
             Inl e \<Rightarrow> (w2, Inl (BootGenerateIntermediate e))
           | Inr intermediate \<Rightarrow>
               (case fs_write cert_path (as_bytes (int_cert_pem intermediate)) w2 of
                  (w3, Inl e) \<Rightarrow> (w3, Inl (BootWrite cert_path e))
                | (w3, Inr _) \<Rightarrow>
                    (case fs_write key_path (as_bytes (intermediate_private_key_pem rc intermediate)) w3 of
                       (w4, Inl e) \<Rightarrow> (w4, Inl (BootWrite key_path e))
                     | (w4, Inr _) \<Rightarrow> (w4, Inr intermediate))))
        else (w2, Inl BootIntermediateIncomplete))"

definition load_or_create_server_certificate ::
  "('key, 'iss) rcgen \<Rightarrow> path \<Rightarrow> 'iss intermediate_ca \<Rightarrow> fs \<Rightarrow> fs \<times> (boot_error + string \<times> string)" where
  "load_or_create_server_certificate rc data_dir intermediate w =
     (let cert_path = path_join data_dir ''server-cert.pem'';
          key_path = path_join data_dir ''server-key.pem'' in
      case fs_exists cert_path w of (w1, cert_exists) \<Rightarrow>
      case fs_exists key_path w1 of (w2, key_exists) \<Rightarrow>
        if cert_exists \<and> key_exists then
          (case fs_read_to_string cert_path w2 of
             (w3, Inl e) \<Rightarrow> (w3, Inl (BootRead cert_path e))
           | (w3, Inr certificate) \<Rightarrow>
               (case fs_read_to_string key_path w3 of
                  (w4, Inl e) \<Rightarrow> (w4, Inl (BootRead key_path e))
                | (w4, Inr private_key) \<Rightarrow> (w4, Inr (certificate, private_key))))
        else if \<not> cert_exists \<and> \<not> key_exists then
          (let request = with_dns_name ''daemon-pki-api.internal'' (request_new ''daemon-pki-api.internal'') in
           case issuer_issue rc (int_issuer intermediate) request of
             Inl e \<Rightarrow> (w2, Inl (BootIssueServer e))
           | Inr (certificate, key) \<Rightarrow>
               (let certificate_pem = crt_pem certificate;
                    private_key_pem = rc_serialize_pem rc key in
                case fs_write cert_path (as_bytes certificate_pem) w2 of
                  (w3, Inl e) \<Rightarrow> (w3, Inl (BootWrite cert_path e))
                | (w3, Inr _) \<Rightarrow>
                    (case fs_write key_path (as_bytes private_key_pem) w3 of
                       (w4, Inl e) \<Rightarrow> (w4, Inl (BootWrite key_path e))
                     | (w4, Inr _) \<Rightarrow> (w4, Inr (certificate_pem, private_key_pem)))))
        else (w2, Inl BootServerIncomplete))"

section \<open>The authorization policy\<close>

fun allow_all :: "string list \<Rightarrow> authorization_policy \<Rightarrow> authorization_policy" where
  "allow_all [] policy = policy"
| "allow_all (fingerprint # fs) policy = allow_all fs (allow_certificate_issuance fingerprint policy)"

definition env_authorization_policy :: "boot_vars \<Rightarrow> authorization_policy" where
  "env_authorization_policy bv =
     (let policy = authorization_new in
      case bv_issue_fingerprints bv of None \<Rightarrow> policy
      | Some v \<Rightarrow> allow_all (filter (\<lambda>s. s \<noteq> []) (map trim (split_on (CHR '','') v))) policy)"

section \<open>Main\<close>

record ('key, 'iss, 'c, 'k) running =
  sr_env :: "('key, 'iss, 'c, 'k) http_env"
  sr_state :: "'k http_state"
  sr_bind_address :: string

text \<open>
  \<open>main\<close> up to \<open>api.run\<close>. The crates come in through an \<open>http_env\<close>, whose CA, directory,
  policy and authorization are the ones set here.
\<close>

definition server_start ::
  "('key, 'iss, 'c, 'k) http_env \<Rightarrow> 'key boot_fresh \<Rightarrow> boot_vars \<Rightarrow> fs
   \<Rightarrow> (fs \<times> (boot_error + ('key, 'iss, 'c, 'k) running)) may_panic" where
  "server_start env fr bv w =
     (let rc = he_rcgen env;
          data_dir = boot_dir bv in
      case fs_create_dir_all data_dir w of
        (w1, Inl e) \<Rightarrow> Done (w1, Inl (BootCreateDir e))
      | (w1, Inr _) \<Rightarrow>
     (case load_or_create_root (rc\<lparr>rc_generate := bf_root_key fr\<rparr>) data_dir w1 of
        (w2, Inl e) \<Rightarrow> Done (w2, Inl e)
      | (w2, Inr root) \<Rightarrow>
     (case load_or_create_intermediate (rc\<lparr>rc_generate := bf_intermediate_key fr\<rparr>) data_dir root w2 of
        (w3, Inl e) \<Rightarrow> Done (w3, Inl e)
      | (w3, Inr intermediate) \<Rightarrow>
     (case load_or_create_server_certificate (rc\<lparr>rc_generate := bf_server_key fr\<rparr>) data_dir intermediate w3 of
        (w4, Inl e) \<Rightarrow> Done (w4, Inl e)
      | (w4, Inr (server_certificate_pem, server_private_key_pem)) \<Rightarrow>
     (let certificate_store_path = path_join data_dir ''certificates.json'' in
      case store_open (he_serde env) certificate_store_path w4 of
        (w5, Inl e) \<Rightarrow> Done (w5, Inl (BootStore e))
      | (w5, Inr certificate_store) \<Rightarrow>
     (let client_ca_pem = root_cert_pem root in
      case generate_and_persist (he_signer env) (int_issuer intermediate) data_dir (cf_id (bf_crl fr))
             (cf_now (bf_crl fr)) (cf_generated_at (bf_crl fr)) certificate_store w5 of
        Panic \<Rightarrow> Panic
      | Done (w6, Inl e) \<Rightarrow> Done (w6, Inl (BootCrl e))
      | Done (w6, Inr crl_der) \<Rightarrow>
     (case build_mtls_server_config (he_rustls env) (as_bytes server_certificate_pem)
             (as_bytes server_private_key_pem) (as_bytes client_ca_pem) (Some crl_der) of
        Inl e \<Rightarrow> Done (w6, Inl (BootTls e))
      | Inr tls_config \<Rightarrow>
     (let tls_acceptor = acceptor_new tls_config (as_bytes server_certificate_pem)
            (as_bytes server_private_key_pem) (as_bytes client_ca_pem);
          issuance = \<lparr>sv_audit = audit_store_new, sv_store = certificate_store, sv_fs = w6\<rparr>;
          authorization = env_authorization_policy bv;
          bind_address = (case bv_bind bv of None \<Rightarrow> ''127.0.0.1:8443'' | Some b \<Rightarrow> b)
      in Done (w6, Inr
           \<lparr>sr_env = env\<lparr>he_ca := intermediate, he_data_dir := data_dir, he_policy := policy_default,
              he_authorization := authorization\<rparr>,
            sr_state = \<lparr>hs_service = issuance, hs_acceptor = tls_acceptor\<rparr>,
            sr_bind_address = bind_address\<rparr>)))))))))"

section \<open>One pattern for the three pairs\<close>

text \<open>
  The three functions are one function of what loading and creating mean; the lemmas about the
  files are proved for it. \<open>create\<close> gives the value and the two texts to write.
\<close>

definition load_or_create ::
  "path \<Rightarrow> path \<Rightarrow> boot_error \<Rightarrow> (string \<Rightarrow> string \<Rightarrow> boot_error + 'a) \<Rightarrow> (boot_error + 'a \<times> string \<times> string)
   \<Rightarrow> fs \<Rightarrow> fs \<times> (boot_error + 'a)" where
  "load_or_create cert_path key_path incomplete load create w =
     (case fs_exists cert_path w of (w1, c) \<Rightarrow>
      case fs_exists key_path w1 of (w2, k) \<Rightarrow>
        if c \<and> k then
          (case fs_read_to_string cert_path w2 of
             (w3, Inl e) \<Rightarrow> (w3, Inl (BootRead cert_path e))
           | (w3, Inr certificate) \<Rightarrow>
               (case fs_read_to_string key_path w3 of
                  (w4, Inl e) \<Rightarrow> (w4, Inl (BootRead key_path e))
                | (w4, Inr private_key) \<Rightarrow> (w4, load certificate private_key)))
        else if \<not> c \<and> \<not> k then
          (case create of Inl e \<Rightarrow> (w2, Inl e)
           | Inr (v, certificate, private_key) \<Rightarrow>
               (case fs_write cert_path (as_bytes certificate) w2 of
                  (w3, Inl e) \<Rightarrow> (w3, Inl (BootWrite cert_path e))
                | (w3, Inr _) \<Rightarrow>
                    (case fs_write key_path (as_bytes private_key) w3 of
                       (w4, Inl e) \<Rightarrow> (w4, Inl (BootWrite key_path e))
                     | (w4, Inr _) \<Rightarrow> (w4, Inr v))))
        else (w2, Inl incomplete))"

lemma load_or_create_root_eq:
  "load_or_create_root rc dir =
     load_or_create (path_join dir ''root-ca.pem'') (path_join dir ''root-ca-key.pem'') BootRootIncomplete
       (\<lambda>c k. map_err BootLoadRoot (root_from_pem rc c k))
       (map_err BootGenerateRoot (map_sum id (\<lambda>r. (r, root_cert_pem r, root_private_key_pem rc r))
          (root_generate rc ''Daemon PKI Root CA'')))"
  by (rule ext) (simp add: load_or_create_root_def load_or_create_def Let_def split: sum.split prod.split)

lemma load_or_create_intermediate_eq:
  "load_or_create_intermediate rc dir root =
     load_or_create (path_join dir ''intermediate-ca.pem'') (path_join dir ''intermediate-ca-key.pem'')
       BootIntermediateIncomplete
       (\<lambda>c k. map_err BootLoadIntermediate (intermediate_from_pem rc c k))
       (map_err BootGenerateIntermediate
         (map_sum id (\<lambda>i. (i, int_cert_pem i, intermediate_private_key_pem rc i))
          (intermediate_generate rc root ''Daemon PKI Workload CA'')))"
  by (rule ext) (simp add: load_or_create_intermediate_def load_or_create_def Let_def split: sum.split prod.split)

definition server_request :: certificate_request where
  "server_request = with_dns_name ''daemon-pki-api.internal'' (request_new ''daemon-pki-api.internal'')"

lemma load_or_create_server_eq:
  "load_or_create_server_certificate rc dir i =
     load_or_create (path_join dir ''server-cert.pem'') (path_join dir ''server-key.pem'')
       BootServerIncomplete (\<lambda>c k. Inr (c, k))
       (map_err BootIssueServer
         (map_sum id (\<lambda>(c, k). ((crt_pem c, rc_serialize_pem rc k), crt_pem c, rc_serialize_pem rc k))
          (issuer_issue rc (int_issuer i) server_request)))"
  by (rule ext) (simp add: load_or_create_server_certificate_def load_or_create_def server_request_def Let_def
      split: sum.split prod.split)

section \<open>What a pair of files is after the call\<close>

lemma map_sum_Inr_iff [result_simps]: "map_sum id f r = Inr y \<longleftrightarrow> (\<exists>x. r = Inr x \<and> y = f x)"
  by (cases r) auto

definition tests_work :: "fs \<Rightarrow> bool" where
  "tests_work w = (fst (next_fault w) = NoFault \<and> fst (next_fault (snd (next_fault w))) = NoFault)"

lemma tests_work_free [simp]: "fs_faults w = [] \<Longrightarrow> tests_work w"
  by (simp add: tests_work_def next_fault_def)

lemma fs_exists_at: "fs_exists p w = (w', c) \<Longrightarrow> file_at w' = file_at w"
  using file_at_exists[of p w] by simp

lemma fs_read_at: "fs_read_to_string p w = (w', r) \<Longrightarrow> file_at w' = file_at w"
  using file_at_read[of p w] by simp

lemma fs_read_ok:
  "fs_read_to_string p w = (w', Inr s) \<Longrightarrow> file_at w' = file_at w \<and> file_at w p = Some (as_bytes s)"
  using fs_read_at[of p w w' "Inr s"] next_fault_at[of w]
  by (auto simp: fs_read_to_string_def file_at_def fun_eq_iff split: prod.splits fault.splits option.splits if_splits)

lemma fs_exists_free: "fs_faults w = [] \<Longrightarrow> fs_exists p w = (w, file_at w p \<noteq> None)"
  by (auto simp: fs_exists_def next_fault_free hm_contains_def file_at_def)

lemma fs_read_free:
  "fs_faults w = [] \<Longrightarrow> file_at w p = Some bs \<Longrightarrow> utf8_valid (bytes_str bs) \<Longrightarrow>
     fs_read_to_string p w = (w, Inr (bytes_str bs))"
  by (simp add: fs_read_to_string_def next_fault_free file_at_def)

text \<open>A call that returns a value has loaded it from files it left alone, or created and written it.\<close>

lemma load_or_create_ok:
  assumes "load_or_create cp kp inc load create w = (w', Inr v)"
  shows "(\<exists>c k. file_at w' = file_at w \<and> file_at w cp = Some (as_bytes c) \<and> file_at w kp = Some (as_bytes k) \<and>
       load c k = Inr v) \<or>
    (\<exists>c k. create = Inr (v, c, k) \<and> file_at w' = (file_at w)(cp \<mapsto> as_bytes c, kp \<mapsto> as_bytes k))"
proof -
  obtain w1 c where e1: "fs_exists cp w = (w1, c)" by (cases "fs_exists cp w")
  obtain w2 k where e2: "fs_exists kp w1 = (w2, k)" by (cases "fs_exists kp w1")
  have f: "file_at w2 = file_at w" using fs_exists_at[OF e1] fs_exists_at[OF e2] by simp
  show ?thesis
    using assms f
    by (auto simp: load_or_create_def e1 e2 split: if_splits prod.splits sum.splits
        dest!: fs_read_ok fs_write_ok)
qed

lemma load_or_create_other:
  assumes "q \<noteq> cp" and "q \<noteq> kp"
  shows "file_at (fst (load_or_create cp kp inc load create w)) q = file_at w q"
proof -
  obtain w1 c where e1: "fs_exists cp w = (w1, c)" by (cases "fs_exists cp w")
  obtain w2 k where e2: "fs_exists kp w1 = (w2, k)" by (cases "fs_exists kp w1")
  have f: "file_at w2 = file_at w" using fs_exists_at[OF e1] fs_exists_at[OF e2] by simp
  have wr: "file_at w4 q = file_at w3 q" if "fs_write p bs w3 = (w4, r)" "p \<in> {cp, kp}" for p bs w3 w4 r
    using fs_write_other[of q p bs w3] that assms by auto
  show ?thesis
    using f by (auto simp: load_or_create_def e1 e2 split: prod.splits sum.splits
        dest!: fs_read_at wr)
qed

lemma load_or_create_otherD:
  "load_or_create cp kp inc load create w = (w', r) \<Longrightarrow> q \<noteq> cp \<Longrightarrow> q \<noteq> kp \<Longrightarrow> file_at w' q = file_at w q"
  using load_or_create_other[of q cp kp inc load create w] by simp

text \<open>Where the existence tests work, a call that finds a file writes none.\<close>

lemma load_or_create_tests:
  assumes "tests_work w" and "fs_exists cp w = (w1, c)" and "fs_exists kp w1 = (w2, k)"
  shows "c = (file_at w cp \<noteq> None) \<and> k = (file_at w kp \<noteq> None)"
proof -
  obtain w0 where w0: "next_fault w = (NoFault, w0)"
    using assms(1) by (cases "next_fault w") (simp add: tests_work_def)
  then have w1: "w1 = w0" using assms(2) by (simp add: fs_exists_def)
  obtain w00 where w00: "next_fault w0 = (NoFault, w00)"
    using assms(1) w0 by (cases "next_fault w0") (simp add: tests_work_def)
  have "file_at w0 = file_at w" "file_at w00 = file_at w0"
    using next_fault_at[of w] next_fault_at[of w0] w0 w00 by simp_all
  note g = file_at_files[OF this(1)] file_at_files[OF this(2)]
  show ?thesis using assms(2,3) w0 w00 w1 \<open>file_at w0 = file_at w\<close>
    by (auto simp: fs_exists_def hm_contains_def g)
qed

lemma load_or_create_keeps:
  assumes "tests_work w" and "file_at w cp \<noteq> None \<or> file_at w kp \<noteq> None"
  shows "file_at (fst (load_or_create cp kp inc load create w)) = file_at w"
proof -
  obtain w1 c where e1: "fs_exists cp w = (w1, c)" by (cases "fs_exists cp w")
  obtain w2 k where e2: "fs_exists kp w1 = (w2, k)" by (cases "fs_exists kp w1")
  have f: "file_at w2 = file_at w" using fs_exists_at[OF e1] fs_exists_at[OF e2] by simp
  have "c \<or> k" using load_or_create_tests[OF assms(1) e1 e2] assms(2) by simp
  then show ?thesis
    using f by (auto simp: load_or_create_def e1 e2 split: prod.splits sum.splits dest!: fs_read_at)
qed

lemma load_or_create_keeps_at:
  "tests_work w \<Longrightarrow> file_at w p = Some b \<Longrightarrow> p \<in> {cp, kp} \<Longrightarrow>
     file_at (fst (load_or_create cp kp inc load create w)) p = Some b"
  using load_or_create_keeps[of w cp kp inc load create] by auto

lemma load_or_create_write_error:
  assumes "load_or_create cp kp inc load create w = (w', Inl (BootWrite q e))" and "cp \<noteq> kp"
    and "\<And>c k. load c k \<noteq> Inl (BootWrite q e)" and "create \<noteq> Inl (BootWrite q e)" and "inc \<noteq> BootWrite q e"
  shows "q = cp \<or> q = kp \<and> file_at w' cp \<noteq> None"
  using assms
  by (auto simp: load_or_create_def split: if_splits prod.splits sum.splits dest!: fs_write_ok)
    (metis fst_conv fs_write_other fun_upd_same)+

lemma load_or_create_half:
  assumes "tests_work w" and "(file_at w cp = None) \<noteq> (file_at w kp = None)"
  shows "snd (load_or_create cp kp inc load create w) = Inl inc \<and>
    file_at (fst (load_or_create cp kp inc load create w)) = file_at w"
proof -
  obtain w1 c where e1: "fs_exists cp w = (w1, c)" by (cases "fs_exists cp w")
  obtain w2 k where e2: "fs_exists kp w1 = (w2, k)" by (cases "fs_exists kp w1")
  have f: "file_at w2 = file_at w" using fs_exists_at[OF e1] fs_exists_at[OF e2] by simp
  have "c \<noteq> k" using load_or_create_tests[OF assms(1) e1 e2] assms(2) by auto
  then show ?thesis using f by (auto simp: load_or_create_def e1 e2)
qed

lemma load_or_create_free:
  assumes "fs_faults w = []" and "file_at w cp = Some (as_bytes c)" and "file_at w kp = Some (as_bytes k)"
    and "utf8_valid c" and "utf8_valid k"
  shows "load_or_create cp kp inc load create w = (w, load c k)"
  using assms by (simp add: load_or_create_def fs_exists_free fs_read_free)

text \<open>A call that meets no fault leaves none for the next.\<close>

lemma no_faults_exists: "fs_faults w = [] \<Longrightarrow> fs_faults (fst (fs_exists p w)) = []"
  by (simp add: fs_exists_def next_fault_free)

lemma no_faults_read: "fs_read_to_string p w = (w', r) \<Longrightarrow> fs_faults w = [] \<Longrightarrow> fs_faults w' = []"
  by (auto simp: fs_read_to_string_def next_fault_free)

lemma no_faults_write: "fs_write p bs w = (w', r) \<Longrightarrow> fs_faults w = [] \<Longrightarrow> fs_faults w' = []"
  by (auto simp: fs_write_def next_fault_free)

lemma no_faults_load_or_create:
  assumes "load_or_create cp kp inc load create w = (w', r)" and "fs_faults w = []"
  shows "fs_faults w' = []"
  using assms
  by (auto simp: load_or_create_def fs_exists_free split: if_splits prod.splits sum.splits
      dest!: no_faults_read no_faults_write)

text \<open>Where nothing fails and neither file is there, the pair is created.\<close>

lemma load_or_create_fresh:
  assumes "fs_faults w = []" and "file_at w cp = None" and "file_at w kp = None" and "create = Inr (v, c, k)"
  shows "\<exists>w'. load_or_create cp kp inc load create w = (w', Inr v) \<and> fs_faults w' = [] \<and>
    file_at w' = (file_at w)(cp \<mapsto> as_bytes c, kp \<mapsto> as_bytes k)"
proof -
  obtain w1 where w1: "fs_write cp (as_bytes c) w = (w1, Inr ())" "fs_faults w1 = []"
    using assms(1) by (simp add: fs_write_def next_fault_free)
  obtain w2 where w2: "fs_write kp (as_bytes k) w1 = (w2, Inr ())" "fs_faults w2 = []"
    using w1(2) by (simp add: fs_write_def next_fault_free)
  show ?thesis using assms w1 w2 fs_write_ok[OF w1(1)] fs_write_ok[OF w2(1)]
    by (simp add: load_or_create_def fs_exists_free)
qed

text \<open>The environment of a second call: the same two files, readable, and nothing fails.\<close>

definition same_pair :: "path \<Rightarrow> path \<Rightarrow> fs \<Rightarrow> fs \<Rightarrow> bool" where
  "same_pair cp kp w1 w2 =
     (fs_faults w2 = [] \<and> cp \<noteq> kp \<and>
      (\<forall>p \<in> {cp, kp}. file_at w2 p = file_at w1 p \<and> (\<forall>bs. file_at w2 p = Some bs \<longrightarrow> utf8_valid (bytes_str bs))))"

text \<open>A second call on the same files gives the same authority, as far as \<open>view\<close> shows it.\<close>

lemma load_or_create_again:
  assumes "load_or_create cp kp inc load create w = (w1, Inr v)"
    and "\<And>c k. create = Inr (v, c, k) \<Longrightarrow> \<exists>v'. load c k = Inr v' \<and> view v' = view v"
    and "same_pair cp kp w1 w2"
  shows "\<exists>v'. load_or_create cp kp inc load create' w2 = (w2, Inr v') \<and> view v' = view v"
proof -
  have cp: "cp \<noteq> kp" and ff: "fs_faults w2 = []" using assms(3) by (simp_all add: same_pair_def)
  obtain c k v' where "file_at w1 cp = Some (as_bytes c)" "file_at w1 kp = Some (as_bytes k)"
    and l: "load c k = Inr v'" "view v' = view v"
    using load_or_create_ok[OF assms(1)] assms(2) cp by fastforce
  then have f: "file_at w2 cp = Some (as_bytes c)" "file_at w2 kp = Some (as_bytes k)"
    using assms(3) by (simp_all add: same_pair_def)
  moreover from this have "utf8_valid c" "utf8_valid k" using assms(3) by (auto simp: same_pair_def)
  ultimately have "load_or_create cp kp inc load create' w2 = (w2, load c k)"
    by (rule load_or_create_free[OF ff])
  with l show ?thesis by simp
qed

end
