(* ===== verification/Boot_Props.thy ===== *)
theory Boot_Props
  imports Server_Boot
begin

text \<open>
  Properties of the server's start: what a restart keeps, what it never overwrites, which
  half-finished first start no later start recovers from, and that revocations acknowledged
  before a restart are enforced after it.
\<close>

section \<open>A start that becomes ready\<close>

lemma server_start_ready:
  assumes "server_start env fr bv w = Done (w', Inr r)"
  obtains w1 w2 w3 w4 w5 root intermediate cert key s der cfg where
    "file_at w1 = file_at w" "fs_create_dir_all (boot_dir bv) w = (w1, Inr ())"
    "load_or_create_root ((he_rcgen env)\<lparr>rc_generate := bf_root_key fr\<rparr>) (boot_dir bv) w1 = (w2, Inr root)"
    "load_or_create_intermediate ((he_rcgen env)\<lparr>rc_generate := bf_intermediate_key fr\<rparr>) (boot_dir bv) root w2 =
       (w3, Inr intermediate)"
    "load_or_create_server_certificate ((he_rcgen env)\<lparr>rc_generate := bf_server_key fr\<rparr>) (boot_dir bv)
       intermediate w3 = (w4, Inr (cert, key))"
    "store_open (he_serde env) (path_join (boot_dir bv) ''certificates.json'') w4 = (w5, Inr s)"
    "generate_and_persist (he_signer env) (int_issuer intermediate) (boot_dir bv) (cf_id (bf_crl fr))
       (cf_now (bf_crl fr)) (cf_generated_at (bf_crl fr)) s w5 = Done (w', Inr der)"
    "build_mtls_server_config (he_rustls env) (as_bytes cert) (as_bytes key) (as_bytes (root_cert_pem root))
       (Some der) = Inr cfg"
    "r = \<lparr>sr_env = env\<lparr>he_ca := intermediate, he_data_dir := boot_dir bv, he_policy := policy_default,
           he_authorization := env_authorization_policy bv\<rparr>,
         sr_state = \<lparr>hs_service = \<lparr>sv_audit = audit_store_new, sv_store = s, sv_fs = w'\<rparr>,
           hs_acceptor = acceptor_new cfg (as_bytes cert) (as_bytes key) (as_bytes (root_cert_pem root))\<rparr>,
         sr_bind_address = (case bv_bind bv of None \<Rightarrow> ''127.0.0.1:8443'' | Some b \<Rightarrow> b)\<rparr>"
proof -
  obtain w1 where w1: "fs_create_dir_all (boot_dir bv) w = (w1, Inr ())"
    using assms by (auto simp: server_start_def Let_def split: prod.splits sum.splits)
  note h = assms[unfolded server_start_def Let_def w1 prod.case sum.case]
  obtain w2 root where w2:
    "load_or_create_root ((he_rcgen env)\<lparr>rc_generate := bf_root_key fr\<rparr>) (boot_dir bv) w1 = (w2, Inr root)"
    using h by (auto split: prod.splits sum.splits)
  note h = h[unfolded w2 prod.case sum.case]
  obtain w3 ic where w3: "load_or_create_intermediate ((he_rcgen env)\<lparr>rc_generate := bf_intermediate_key fr\<rparr>)
       (boot_dir bv) root w2 = (w3, Inr ic)"
    using h by (auto split: prod.splits sum.splits)
  note h = h[unfolded w3 prod.case sum.case]
  obtain w4 cert key where w4: "load_or_create_server_certificate ((he_rcgen env)\<lparr>rc_generate := bf_server_key fr\<rparr>)
       (boot_dir bv) ic w3 = (w4, Inr (cert, key))"
    using h by (auto split: prod.splits sum.splits)
  note h = h[unfolded w4 prod.case sum.case]
  obtain w5 s where w5: "store_open (he_serde env) (path_join (boot_dir bv) ''certificates.json'') w4 = (w5, Inr s)"
    using h by (auto split: prod.splits sum.splits)
  note h = h[unfolded w5 prod.case sum.case]
  obtain w6 der where w6: "generate_and_persist (he_signer env) (int_issuer ic) (boot_dir bv) (cf_id (bf_crl fr))
       (cf_now (bf_crl fr)) (cf_generated_at (bf_crl fr)) s w5 = Done (w6, Inr der)"
    using h by (auto split: prod.splits sum.splits may_panic.splits)
  note h = h[unfolded w6 may_panic.case prod.case sum.case]
  obtain cfg where cfg: "build_mtls_server_config (he_rustls env) (as_bytes cert) (as_bytes key)
       (as_bytes (root_cert_pem root)) (Some der) = Inr cfg"
    using h by (auto split: sum.splits)
  have "file_at w1 = file_at w" using file_at_create_dir[of "boot_dir bv" w] w1 by simp
  with h[unfolded cfg sum.case] w1 w2 w3 w4 w5 w6 cfg that show thesis by auto
qed

definition pem_paths :: "path \<Rightarrow> path set" where
  "pem_paths dir = {path_join dir ''root-ca.pem'', path_join dir ''root-ca-key.pem'',
     path_join dir ''intermediate-ca.pem'', path_join dir ''intermediate-ca-key.pem'',
     path_join dir ''server-cert.pem'', path_join dir ''server-key.pem''}"

text \<open>Each pair is written by its own function only, and the rest of the start writes none.\<close>

lemma ready_files:
  assumes r: "load_or_create_root rc dir w1 = (w2, Inr root)"
    and i: "load_or_create_intermediate rc' dir root w2 = (w3, Inr ic)"
    and s: "load_or_create_server_certificate rc'' dir ic w3 = (w4, Inr ck)"
    and o: "store_open sd p w4 = (w5, x)"
    and g: "generate_and_persist signer iss dir u now t st w5 = Done (w6, y)"
  shows "(\<forall>p \<in> {path_join dir ''root-ca.pem'', path_join dir ''root-ca-key.pem''}. file_at w6 p = file_at w2 p) \<and>
    (\<forall>p \<in> {path_join dir ''intermediate-ca.pem'', path_join dir ''intermediate-ca-key.pem''}.
       file_at w6 p = file_at w3 p) \<and>
    (\<forall>p \<in> {path_join dir ''server-cert.pem'', path_join dir ''server-key.pem''}. file_at w6 p = file_at w4 p)"
proof -
  have ij: "path_join dir a = path_join dir b \<longleftrightarrow> a = b" for a b by (simp add: path_join_def)
  have w5: "file_at w5 = file_at w4" using file_at_open[of sd p w4] o by simp
  have w6: "file_at w6 q = file_at w4 q" if "q \<in> pem_paths dir" for q
    using generate_other[OF g, of q] that w5
    by (auto simp: pem_paths_def crl_number_path_def crl_der_path_def ij)
  have w4: "file_at w4 q = file_at w3 q"
    if "q \<noteq> path_join dir ''server-cert.pem''" "q \<noteq> path_join dir ''server-key.pem''" for q
    by (rule load_or_create_otherD[OF s[unfolded load_or_create_server_eq] that])
  have w3: "file_at w3 q = file_at w2 q"
    if "q \<noteq> path_join dir ''intermediate-ca.pem''" "q \<noteq> path_join dir ''intermediate-ca-key.pem''" for q
    by (rule load_or_create_otherD[OF i[unfolded load_or_create_intermediate_eq] that])
  show ?thesis by (simp add: w6 w4 w3 pem_paths_def ij)
qed

section \<open>Restarting on the same files\<close>

lemma pem_faithful_generate [simp]: "pem_faithful (rc\<lparr>rc_generate := g\<rparr>) = pem_faithful rc"
  by (simp add: pem_faithful_def)

lemma private_key_generate [simp]:
  "root_private_key_pem (rc\<lparr>rc_generate := g\<rparr>) r = root_private_key_pem rc r"
  "intermediate_private_key_pem (rc\<lparr>rc_generate := g\<rparr>) c = intermediate_private_key_pem rc c"
  by (simp_all add: root_private_key_pem_def intermediate_private_key_pem_def)

lemma from_pem_generate [simp]:
  "root_from_pem (rc\<lparr>rc_generate := g\<rparr>) c k = root_from_pem rc c k"
  "intermediate_from_pem (rc\<lparr>rc_generate := g\<rparr>) c k = intermediate_from_pem rc c k"
  by (simp_all add: root_from_pem_def intermediate_from_pem_def split: sum.split option.split)

lemmas load_or_create_eqs =
  load_or_create_root_eq load_or_create_intermediate_eq load_or_create_server_eq from_pem_generate

lemma root_again:
  assumes pf: "pem_faithful rc" and l: "load_or_create_root (rc\<lparr>rc_generate := g\<rparr>) dir w = (w1, Inr r)"
    and s: "same_pair (path_join dir ''root-ca.pem'') (path_join dir ''root-ca-key.pem'') w1 w2"
  shows "\<exists>r'. load_or_create_root (rc\<lparr>rc_generate := g'\<rparr>) dir w2 = (w2, Inr r') \<and>
    (root_cert_pem r', root_cert_der r', root_private_key_pem rc r') =
    (root_cert_pem r, root_cert_der r, root_private_key_pem rc r)"
proof -
  let ?view = "\<lambda>r. (root_cert_pem r, root_cert_der r, root_private_key_pem rc r)"
  have "\<exists>v'. map_err BootLoadRoot (root_from_pem rc c k) = Inr v' \<and> ?view v' = ?view r"
    if "map_err BootGenerateRoot (map_sum id (\<lambda>r. (r, root_cert_pem r,
          root_private_key_pem (rc\<lparr>rc_generate := g\<rparr>) r))
        (root_generate (rc\<lparr>rc_generate := g\<rparr>) ''Daemon PKI Root CA'')) = Inr (r, c, k)" for c k
    using that root_reloads[of "rc\<lparr>rc_generate := g\<rparr>"] pf by (auto simp: result_simps)
  from load_or_create_again[OF l[unfolded load_or_create_eqs], where view = ?view, OF this s]
  show ?thesis unfolding load_or_create_eqs by simp
qed

lemma intermediate_again:
  assumes pf: "pem_faithful rc"
    and l: "load_or_create_intermediate (rc\<lparr>rc_generate := g\<rparr>) dir root w = (w1, Inr i)"
    and s: "same_pair (path_join dir ''intermediate-ca.pem'') (path_join dir ''intermediate-ca-key.pem'') w1 w2"
  shows "\<exists>i'. load_or_create_intermediate (rc\<lparr>rc_generate := g'\<rparr>) dir root' w2 = (w2, Inr i') \<and>
    (int_cert_pem i', int_cert_der i', intermediate_private_key_pem rc i') =
    (int_cert_pem i, int_cert_der i, intermediate_private_key_pem rc i)"
proof -
  let ?view = "\<lambda>i. (int_cert_pem i, int_cert_der i, intermediate_private_key_pem rc i)"
  have "\<exists>v'. map_err BootLoadIntermediate (intermediate_from_pem rc c k) = Inr v' \<and> ?view v' = ?view i"
    if "map_err BootGenerateIntermediate (map_sum id (\<lambda>i. (i, int_cert_pem i,
          intermediate_private_key_pem (rc\<lparr>rc_generate := g\<rparr>) i))
        (intermediate_generate (rc\<lparr>rc_generate := g\<rparr>) root ''Daemon PKI Workload CA'')) = Inr (i, c, k)" for c k
    using that intermediate_reloads[of "rc\<lparr>rc_generate := g\<rparr>"] pf by (auto simp: result_simps)
  from load_or_create_again[OF l[unfolded load_or_create_eqs], where view = ?view, OF this s]
  show ?thesis unfolding load_or_create_eqs by simp
qed

lemma server_again:
  assumes l: "load_or_create_server_certificate rc dir i w = (w1, Inr ck)"
    and s: "same_pair (path_join dir ''server-cert.pem'') (path_join dir ''server-key.pem'') w1 w2"
  shows "load_or_create_server_certificate rc' dir i' w2 = (w2, Inr ck)"
proof -
  have "\<exists>v'. Inr (c, k) = Inr v' \<and> v' = ck"
    if "map_err BootIssueServer (map_sum id (\<lambda>(c, k). ((crt_pem c, rc_serialize_pem rc k), crt_pem c,
          rc_serialize_pem rc k)) (issuer_issue rc (int_issuer i) server_request)) = Inr (ck, c, k)" for c k
    using that by (auto simp: result_simps)
  from load_or_create_again[OF l[unfolded load_or_create_eqs], where view = "\<lambda>v. v", OF this s]
  show ?thesis unfolding load_or_create_eqs by (simp del: split_paired_Ex)
qed

lemma pem_paths_same_pair:
  assumes "fs_faults w2 = []" and "a \<noteq> b" and "path_join dir a \<in> pem_paths dir" and "path_join dir b \<in> pem_paths dir"
    and "\<forall>p \<in> pem_paths dir. file_at w2 p = file_at w1 p \<and> (\<forall>bs. file_at w2 p = Some bs \<longrightarrow> utf8_valid (bytes_str bs))"
    and "\<forall>p \<in> {path_join dir a, path_join dir b}. file_at w1 p = file_at w p"
  shows "same_pair (path_join dir a) (path_join dir b) w w2"
  using assms by (simp add: same_pair_def path_join_def)

text \<open>The stages of two starts, the second on the files of the first.\<close>

lemma stages_again:
  assumes pf: "pem_faithful rc" and ff: "fs_faults w2 = []"
    and r: "load_or_create_root (rc\<lparr>rc_generate := k1\<rparr>) d u1 = (u2, Inr root)"
    and i: "load_or_create_intermediate (rc\<lparr>rc_generate := k2\<rparr>) d root u2 = (u3, Inr ic)"
    and c: "load_or_create_server_certificate (rc\<lparr>rc_generate := k3\<rparr>) d ic u3 = (u4, Inr ck)"
    and o: "store_open sd p u4 = (u5, x)" and g: "generate_and_persist sg iss d id1 n1 t1 s u5 = Done (w1, y)"
    and same: "\<forall>p \<in> pem_paths d. file_at w2 p = file_at w1 p \<and>
       (\<forall>bs. file_at w2 p = Some bs \<longrightarrow> utf8_valid (bytes_str bs))"
    and d': "fs_create_dir_all d w2 = (v1, z)"
    and r': "load_or_create_root (rc\<lparr>rc_generate := l1\<rparr>) d v1 = (v2, Inr root')"
    and i': "load_or_create_intermediate (rc\<lparr>rc_generate := l2\<rparr>) d root' v2 = (v3, Inr ic')"
    and c': "load_or_create_server_certificate (rc\<lparr>rc_generate := l3\<rparr>) d ic' v3 = (v4, Inr ck')"
    and o': "store_open sd p' v4 = (v5, x')" and g': "generate_and_persist sg iss' d id2 n2 t2 s' v5 = Done (w3, y')"
  shows "root_cert_pem root' = root_cert_pem root \<and> int_cert_pem ic' = int_cert_pem ic \<and>
    int_cert_der ic' = int_cert_der ic \<and> intermediate_private_key_pem rc ic' = intermediate_private_key_pem rc ic \<and>
    ck' = ck \<and> (\<forall>p \<in> pem_paths d. file_at w3 p = file_at w2 p)"
proof -
  note fl = ready_files[OF r i c o g]
  note sp = pem_paths_same_pair[OF ff _ _ _ same]
  have v1: "v1 = w2" using d' ff by (simp add: fs_create_dir_all_def next_fault_free)
  have "same_pair (path_join d ''root-ca.pem'') (path_join d ''root-ca-key.pem'') u2 w2"
    using fl by (intro sp) (simp_all add: pem_paths_def)
  from root_again[OF pf r this, of l1] r' v1 have rt: "v2 = w2" "root_cert_pem root' = root_cert_pem root" by auto
  have "same_pair (path_join d ''intermediate-ca.pem'') (path_join d ''intermediate-ca-key.pem'') u3 w2"
    using fl by (intro sp) (simp_all add: pem_paths_def)
  from intermediate_again[OF pf i this, of l2 root'] i' rt
  have it: "v3 = w2" "int_cert_pem ic' = int_cert_pem ic" "int_cert_der ic' = int_cert_der ic"
    "intermediate_private_key_pem rc ic' = intermediate_private_key_pem rc ic" by auto
  have "same_pair (path_join d ''server-cert.pem'') (path_join d ''server-key.pem'') u4 w2"
    using fl by (intro sp) (simp_all add: pem_paths_def)
  from server_again[OF c this, of "rc\<lparr>rc_generate := l3\<rparr>" ic'] c' it have ct: "v4 = w2" "ck' = ck" by auto
  have "\<forall>p \<in> pem_paths d. file_at w3 p = file_at w2 p"
    using ready_files[OF r' i' c' o' g'] rt it ct by (simp add: pem_paths_def)
  with rt it ct show ?thesis by simp
qed

section \<open>Becoming ready\<close>

text \<open>
  The crates do their part: there is a key pair for each call, a well-formed request is signed,
  and \<open>rustls\<close> accepts what \<open>rcgen\<close> has written.
\<close>

definition crates_work :: "('key, 'iss, 'c, 'k) http_env \<Rightarrow> 'key boot_fresh \<Rightarrow> bool" where
  "crates_work env fr =
     (let rc = he_rcgen env; ru = he_rustls env in
      is_ok (bf_root_key fr) \<and> is_ok (bf_intermediate_key fr) \<and> is_ok (bf_server_key fr) \<and>
      (\<forall>ps k. is_ok (rc_self_signed rc ps k)) \<and> (\<forall>ps k i. is_ok (rc_signed_by rc ps k i)) \<and>
      rc_dns_ok rc ''daemon-pki-api.internal'' \<and> (\<forall>ps i. is_ok (he_signer env ps i)) \<and>
      (\<forall>ps k c. rc_self_signed rc ps k = Inr c \<longrightarrow>
         (\<exists>ds. ru_certs ru (as_bytes (crt_pem c)) = Some ds \<and> ds \<noteq> [] \<and> list_all (ru_root_ok ru) ds)) \<and>
      (\<forall>ps k i c. rc_signed_by rc ps k i = Inr c \<longrightarrow>
         (\<exists>ds kk. ru_certs ru (as_bytes (crt_pem c)) = Some ds \<and> ds \<noteq> [] \<and>
            ru_private_key ru (as_bytes (rc_serialize_pem rc k)) = Inr (Some kk) \<and> ru_key_ok ru kk \<and>
            ru_single_cert_ok ru ds kk)) \<and>
      (\<forall>ps i d ds. he_signer env ps i = Inr d \<and> ds \<noteq> [] \<and> list_all (ru_root_ok ru) ds \<longrightarrow> ru_verifier_ok ru ds [d]))"

lemma ca_names: "trim ''Daemon PKI Root CA'' \<noteq> []" "trim ''Daemon PKI Workload CA'' \<noteq> []"
  by (subst trim_plain_ends; simp add: plain_char_def)+

lemma server_request_ok: "validate_request server_request = Inr ()"
  by (simp add: validate_request_ok server_request_def with_dns_name_def request_new_def)

text \<open>The list of an empty store is signed whatever the number.\<close>

lemma empty_list_signed:
  assumes "\<forall>ps i. is_ok (signer ps i)" and "st_records s = hm_empty"
  shows "\<exists>der ps. signed_der signer iss n (crl_for_store u now t s) = Done (Inr der) \<and> signer ps iss = Inr der"
proof -
  have "crl_entries (crl_for_store u now t s) = []"
    by (simp add: crl_for_store_entries store_list_def assms(2) hm_values_def hm_empty_def)
  then show ?thesis using assms(1)[unfolded is_ok_iff]
    by (simp add: signed_der_def Let_def result_simps) blast
qed

lemma crates_workD:
  assumes "crates_work env fr"
  shows "\<exists>k. bf_root_key fr = Inr k" and "\<exists>k. bf_intermediate_key fr = Inr k" and "\<exists>k. bf_server_key fr = Inr k"
    and "\<exists>c. rc_self_signed (he_rcgen env) ps k = Inr c" and "\<exists>c. rc_signed_by (he_rcgen env) ps k i = Inr c"
    and "rc_dns_ok (he_rcgen env) ''daemon-pki-api.internal''" and "\<forall>ps i. is_ok (he_signer env ps i)"
  using assms unfolding crates_work_def Let_def is_ok_iff by blast+

lemma crates_config:
  assumes "crates_work env fr" and "rc_self_signed (he_rcgen env) ps k0 = Inr root"
    and "rc_signed_by (he_rcgen env) ps' k i = Inr c" and "he_signer env lp i' = Inr d"
  shows "\<exists>cfg. build_mtls_server_config (he_rustls env) (as_bytes (crt_pem c))
    (as_bytes (rc_serialize_pem (he_rcgen env) k)) (as_bytes (crt_pem root)) (Some d) = Inr cfg"
proof -
  let ?ru = "he_rustls env"
  obtain rs where rs: "ru_certs ?ru (as_bytes (crt_pem root)) = Some rs" "rs \<noteq> []" "list_all (ru_root_ok ?ru) rs"
    using assms(1,2) unfolding crates_work_def Let_def by blast
  obtain ds kk where "ru_certs ?ru (as_bytes (crt_pem c)) = Some ds" "ds \<noteq> []"
    "ru_private_key ?ru (as_bytes (rc_serialize_pem (he_rcgen env) k)) = Inr (Some kk)" "ru_key_ok ?ru kk"
    "ru_single_cert_ok ?ru ds kk"
    using assms(1,3) unfolding crates_work_def Let_def by blast
  moreover have "ru_verifier_ok ?ru rs [d]"
    using assms(1,4) rs(2,3) unfolding crates_work_def Let_def by blast
  ultimately show ?thesis using rs by (simp add: build_config_ok)
qed

text \<open>The stages of a first start, on an empty directory.\<close>

lemma root_stage:
  assumes cw: "crates_work env fr" and "fs_faults w = []" and "file_at w (path_join d ''root-ca.pem'') = None"
    and "file_at w (path_join d ''root-ca-key.pem'') = None"
  shows "\<exists>w' root. load_or_create_root ((he_rcgen env)\<lparr>rc_generate := bf_root_key fr\<rparr>) d w = (w', Inr root) \<and>
    fs_faults w' = [] \<and> (\<exists>ps k c. rc_self_signed (he_rcgen env) ps k = Inr c \<and> root_cert_pem root = crt_pem c)"
proof -
  let ?rc = "(he_rcgen env)\<lparr>rc_generate := bf_root_key fr\<rparr>" and ?n = "''Daemon PKI Root CA''"
  obtain k where k: "bf_root_key fr = Inr k" using crates_workD(1)[OF cw] by blast
  obtain c where c: "rc_self_signed (he_rcgen env) (ca_params ?rc Unconstrained ?n) k = Inr c"
    using crates_workD(4)[OF cw] by blast
  let ?r = "\<lparr>root_issuer = rc_issuer_new ?rc (ca_params ?rc Unconstrained ?n) k, root_cert_pem = crt_pem c,
      root_cert_der = crt_der c\<rparr>"
  have "root_generate ?rc ?n = Inr ?r" using k c ca_names by (simp add: root_generate_ok)
  then have "map_err BootGenerateRoot (map_sum id (\<lambda>r. (r, root_cert_pem r, root_private_key_pem ?rc r))
      (root_generate ?rc ?n)) = Inr (?r, root_cert_pem ?r, root_private_key_pem ?rc ?r)" by simp
  from load_or_create_fresh[OF assms(2-4) this] c show ?thesis unfolding load_or_create_eqs by fastforce
qed

lemma intermediate_stage:
  assumes cw: "crates_work env fr" and "fs_faults w = []" and "file_at w (path_join d ''intermediate-ca.pem'') = None"
    and "file_at w (path_join d ''intermediate-ca-key.pem'') = None"
  shows "\<exists>w' ic. load_or_create_intermediate ((he_rcgen env)\<lparr>rc_generate := bf_intermediate_key fr\<rparr>) d root w =
    (w', Inr ic) \<and> fs_faults w' = []"
proof -
  let ?rc = "(he_rcgen env)\<lparr>rc_generate := bf_intermediate_key fr\<rparr>" and ?n = "''Daemon PKI Workload CA''"
  obtain k where k: "bf_intermediate_key fr = Inr k" using crates_workD(2)[OF cw] by blast
  obtain c where c: "rc_signed_by (he_rcgen env) (ca_params ?rc (Constrained 0) ?n) k (root_issuer root) = Inr c"
    using crates_workD(5)[OF cw] by blast
  let ?i = "\<lparr>int_issuer = rc_issuer_new ?rc (ca_params ?rc (Constrained 0) ?n) k, int_cert_pem = crt_pem c,
      int_cert_der = crt_der c\<rparr>"
  have "intermediate_generate ?rc root ?n = Inr ?i" using k c ca_names by (simp add: intermediate_generate_ok)
  then have "map_err BootGenerateIntermediate (map_sum id
      (\<lambda>i. (i, int_cert_pem i, intermediate_private_key_pem ?rc i)) (intermediate_generate ?rc root ?n)) =
      Inr (?i, int_cert_pem ?i, intermediate_private_key_pem ?rc ?i)" by simp
  from load_or_create_fresh[OF assms(2-4) this] show ?thesis unfolding load_or_create_eqs by fastforce
qed

lemma server_stage:
  assumes cw: "crates_work env fr" and "fs_faults w = []" and "file_at w (path_join d ''server-cert.pem'') = None"
    and "file_at w (path_join d ''server-key.pem'') = None"
  shows "\<exists>w' ps k c. load_or_create_server_certificate ((he_rcgen env)\<lparr>rc_generate := bf_server_key fr\<rparr>) d ic w =
    (w', Inr (crt_pem c, rc_serialize_pem (he_rcgen env) k)) \<and> fs_faults w' = [] \<and>
    rc_signed_by (he_rcgen env) ps k (int_issuer ic) = Inr c"
proof -
  let ?rc = "(he_rcgen env)\<lparr>rc_generate := bf_server_key fr\<rparr>"
  obtain k where k: "bf_server_key fr = Inr k" using crates_workD(3)[OF cw] by blast
  obtain c where c: "rc_signed_by (he_rcgen env) (leaf_params ?rc server_request) k (int_issuer ic) = Inr c"
    using crates_workD(5)[OF cw] by blast
  have "list_all (rc_dns_ok ?rc) (rq_dns_names server_request)"
    using crates_workD(6)[OF cw] by (simp add: server_request_def with_dns_name_def request_new_def)
  with server_request_ok k c have "issuer_issue ?rc (int_issuer ic) server_request = Inr (c, k)"
    by (simp add: issuer_issue_ok)
  then have "map_err BootIssueServer (map_sum id (\<lambda>(c, k). ((crt_pem c, rc_serialize_pem ?rc k), crt_pem c,
          rc_serialize_pem ?rc k)) (issuer_issue ?rc (int_issuer ic) server_request)) =
      Inr ((crt_pem c, rc_serialize_pem ?rc k), crt_pem c, rc_serialize_pem ?rc k)" by simp
  from load_or_create_fresh[OF assms(2-4) this] c show ?thesis unfolding load_or_create_eqs by fastforce
qed

text \<open>From the stages of a start without faults to its end.\<close>

lemma start_from_stages:
  assumes ff: "fs_faults w = []" and bv: "boot_dir bv = d"
    and r: "load_or_create_root ((he_rcgen env)\<lparr>rc_generate := bf_root_key fr\<rparr>) d w = (w2, Inr root)"
    and i: "load_or_create_intermediate ((he_rcgen env)\<lparr>rc_generate := bf_intermediate_key fr\<rparr>) d root w2 = (w3, Inr ic)"
    and c: "load_or_create_server_certificate ((he_rcgen env)\<lparr>rc_generate := bf_server_key fr\<rparr>) d ic w3 =
       (w4, Inr (cert, key))"
    and w4: "fs_faults w4 = []"
    and st: "store_open (he_serde env) (path_join d ''certificates.json'') w4 = (w4, Inr s)"
    and nr: "stored_number d w4 = Some n" "checked_add n 1 = Some m"
    and sg: "\<And>u now t. \<exists>der. signed_der (he_signer env) (int_issuer ic) m (crl_for_store u now t s) = Done (Inr der) \<and>
       (\<exists>cfg. build_mtls_server_config (he_rustls env) (as_bytes cert) (as_bytes key) (as_bytes (root_cert_pem root))
          (Some der) = Inr cfg)"
  shows "\<exists>w' r. server_start env fr bv w = Done (w', Inr r) \<and> fs_faults w' = [] \<and>
    sv_store (hs_service (sr_state r)) = s \<and> stored_number d w' = Some m"
proof -
  let ?f = "bf_crl fr"
  obtain der cfg where der: "signed_der (he_signer env) (int_issuer ic) m
      (crl_for_store (cf_id ?f) (cf_now ?f) (cf_generated_at ?f) s) = Done (Inr der)"
    and cfg: "build_mtls_server_config (he_rustls env) (as_bytes cert) (as_bytes key) (as_bytes (root_cert_pem root))
          (Some der) = Inr cfg"
    using sg by blast
  obtain w' where w': "generate_and_persist (he_signer env) (int_issuer ic) d (cf_id ?f) (cf_now ?f)
      (cf_generated_at ?f) s w4 = Done (w', Inr der)" "fs_faults w' = []" "stored_number d w' = Some m"
    using generate_free[OF w4 nr der] by blast
  have cd: "fs_create_dir_all d w = (w, Inr ())" using ff by (simp add: fs_create_dir_all_def next_fault_free)
  show ?thesis using w' by (simp add: server_start_def Let_def bv cd r i c st cfg)
qed

lemma store_open_absent: "fs_faults w = [] \<Longrightarrow> file_at w p = None \<Longrightarrow>
    store_open sd p w = (w, Inr \<lparr>st_path = p, st_records = hm_empty\<rparr>)"
  by (simp add: store_open_def fs_exists_free)

lemma first_start_on:
  assumes cw: "crates_work env fr" and ff: "fs_faults w = []" and bv: "boot_dir bv = d"
    and no: "\<forall>p \<in> pem_paths d. file_at w p = None"
    and st: "\<And>w'. fs_faults w' = [] \<Longrightarrow> file_at w' (path_join d ''certificates.json'') =
       file_at w (path_join d ''certificates.json'') \<Longrightarrow>
       store_open (he_serde env) (path_join d ''certificates.json'') w' = (w', Inr s)"
    and nr: "file_at w (crl_number_path d) = None"
    and sd: "\<And>iss u now t. \<exists>der ps. signed_der (he_signer env) iss 1 (crl_for_store u now t s) = Done (Inr der) \<and>
       he_signer env ps iss = Inr der"
  shows "\<exists>w' r. server_start env fr bv w = Done (w', Inr r) \<and> fs_faults w' = [] \<and>
    sv_store (hs_service (sr_state r)) = s \<and>
    stored_number d w' = Some 1"
proof -
  have ij: "path_join d a = path_join d b \<longleftrightarrow> a = b" for a b by (simp add: path_join_def)
  have n: "file_at w (path_join d ''root-ca.pem'') = None" "file_at w (path_join d ''root-ca-key.pem'') = None"
    "file_at w (path_join d ''intermediate-ca.pem'') = None" "file_at w (path_join d ''intermediate-ca-key.pem'') = None"
    "file_at w (path_join d ''server-cert.pem'') = None" "file_at w (path_join d ''server-key.pem'') = None"
    using no by (simp_all add: pem_paths_def)
  obtain w2 root ps0 k0 c0 where r: "load_or_create_root ((he_rcgen env)\<lparr>rc_generate := bf_root_key fr\<rparr>) d w = (w2, Inr root)"
    "fs_faults w2 = []" "rc_self_signed (he_rcgen env) ps0 k0 = Inr c0" "root_cert_pem root = crt_pem c0"
    using root_stage[OF cw ff n(1,2)] by blast
  note w2 = load_or_create_otherD[OF r(1)[unfolded load_or_create_eqs]]
  obtain w3 ic where i: "load_or_create_intermediate ((he_rcgen env)\<lparr>rc_generate := bf_intermediate_key fr\<rparr>) d root w2 = (w3, Inr ic)"
    "fs_faults w3 = []"
    using intermediate_stage[OF cw r(2), of d root] n(3,4) by (auto simp: w2 ij)
  note w3 = load_or_create_otherD[OF i(1)[unfolded load_or_create_eqs]]
  obtain w4 ps k c where c: "load_or_create_server_certificate ((he_rcgen env)\<lparr>rc_generate := bf_server_key fr\<rparr>) d ic w3 =
      (w4, Inr (crt_pem c, rc_serialize_pem (he_rcgen env) k))" "fs_faults w4 = []"
    "rc_signed_by (he_rcgen env) ps k (int_issuer ic) = Inr c"
    using server_stage[OF cw i(2), of d ic] n(5,6) by (auto simp: w2 w3 ij)
  note w4 = load_or_create_otherD[OF c(1)[unfolded load_or_create_eqs]]
  have so: "store_open (he_serde env) (path_join d ''certificates.json'') w4 = (w4, Inr s)"
    by (intro st c(2)) (simp add: w2 w3 w4 ij)
  have sn: "stored_number d w4 = Some 0"
    using nr by (simp add: stored_number_def crl_number_path_def w2 w3 w4 ij)
  have sg: "\<exists>der. signed_der (he_signer env) (int_issuer ic) 1 (crl_for_store u now t s) = Done (Inr der) \<and>
     (\<exists>cfg. build_mtls_server_config (he_rustls env) (as_bytes (crt_pem c)) (as_bytes (rc_serialize_pem (he_rcgen env) k))
        (as_bytes (root_cert_pem root)) (Some der) = Inr cfg)" for u now t
    using sd[of "int_issuer ic" u now t] crates_config[OF cw r(3) c(3)] r(4) by fastforce
  show ?thesis using start_from_stages[OF ff bv r(1) i(1) c(1,2) so sn _ sg] by (simp add: checked_add_def)
qed

lemma first_start:
  assumes cw: "crates_work env fr" and ff: "fs_faults w = []" and bv: "boot_dir bv = d"
    and no: "\<forall>p \<in> pem_paths d. file_at w p = None"
    and st: "file_at w (path_join d ''certificates.json'') = None" and nr: "file_at w (crl_number_path d) = None"
  shows "\<exists>w' r. server_start env fr bv w = Done (w', Inr r) \<and> fs_faults w' = [] \<and>
    sv_store (hs_service (sr_state r)) = \<lparr>st_path = path_join d ''certificates.json'', st_records = hm_empty\<rparr> \<and>
    stored_number d w' = Some 1"
  using empty_list_signed[OF crates_workD(7)[OF cw]] st
  by (intro first_start_on[OF cw ff bv no _ nr]) (auto intro: store_open_absent)


text \<open>What a first start leaves behind can be read again.\<close>

definition texts_valid :: "path set \<Rightarrow> fs \<Rightarrow> bool" where
  "texts_valid P w = (\<forall>p \<in> P. \<forall>bs. file_at w p = Some bs \<longrightarrow> utf8_valid (bytes_str bs))"

lemma load_or_create_texts:
  assumes "load_or_create cp kp inc load create w = (w', Inr v)" and "file_at w cp = None"
    and "\<And>c k. create = Inr (v, c, k) \<Longrightarrow> utf8_valid c \<and> utf8_valid k"
  shows "texts_valid {cp, kp} w'"
  using load_or_create_ok[OF assms(1)] assms(2,3) by (auto simp: texts_valid_def split: if_splits)

lemma root_texts:
  assumes "pem_utf8 rc" and "load_or_create_root (rc\<lparr>rc_generate := g\<rparr>) d w = (w', Inr r)"
    and "file_at w (path_join d ''root-ca.pem'') = None"
  shows "texts_valid {path_join d ''root-ca.pem'', path_join d ''root-ca-key.pem''} w'"
  using assms(1)
  by (intro load_or_create_texts[OF assms(2)[unfolded load_or_create_eqs] assms(3)])
    (auto simp: result_simps root_generate_ok pem_utf8_def root_private_key_pem_def)

lemma intermediate_texts:
  assumes "pem_utf8 rc" and "load_or_create_intermediate (rc\<lparr>rc_generate := g\<rparr>) d root w = (w', Inr i)"
    and "file_at w (path_join d ''intermediate-ca.pem'') = None"
  shows "texts_valid {path_join d ''intermediate-ca.pem'', path_join d ''intermediate-ca-key.pem''} w'"
  using assms(1)
  by (intro load_or_create_texts[OF assms(2)[unfolded load_or_create_eqs] assms(3)])
    (auto simp: result_simps intermediate_generate_ok pem_utf8_def intermediate_private_key_pem_def)

lemma server_texts:
  assumes "pem_utf8 rc" and "load_or_create_server_certificate (rc\<lparr>rc_generate := g\<rparr>) d i w = (w', Inr ck)"
    and "file_at w (path_join d ''server-cert.pem'') = None"
  shows "texts_valid {path_join d ''server-cert.pem'', path_join d ''server-key.pem''} w'"
  using assms(1)
  by (intro load_or_create_texts[OF assms(2)[unfolded load_or_create_eqs] assms(3)])
    (auto simp: result_simps issuer_issue_ok pem_utf8_def)

lemma first_start_texts:
  assumes pu: "pem_utf8 (he_rcgen env)" and a: "server_start env fr bv w = Done (w', Inr r)"
    and no: "\<forall>p \<in> pem_paths (boot_dir bv). file_at w p = None"
  shows "texts_valid (pem_paths (boot_dir bv)) w'"
proof (rule server_start_ready[OF a], goal_cases)
  case (1 w1 w2 w3 w4 w5 root ic cert key)
  let ?d = "boot_dir bv"
  have ij: "path_join ?d a = path_join ?d b \<longleftrightarrow> a = b" for a b by (simp add: path_join_def)
  have n: "file_at w1 (path_join ?d ''root-ca.pem'') = None" "file_at w1 (path_join ?d ''intermediate-ca.pem'') = None"
    "file_at w1 (path_join ?d ''server-cert.pem'') = None"
    using no 1(1) by (simp_all add: pem_paths_def)
  note o2 = load_or_create_otherD[OF 1(3)[unfolded load_or_create_eqs]]
  note o3 = load_or_create_otherD[OF 1(4)[unfolded load_or_create_eqs]]
  have "texts_valid {path_join ?d ''root-ca.pem'', path_join ?d ''root-ca-key.pem''} w2"
    by (rule root_texts[OF pu 1(3) n(1)])
  moreover have "texts_valid {path_join ?d ''intermediate-ca.pem'', path_join ?d ''intermediate-ca-key.pem''} w3"
    by (rule intermediate_texts[OF pu 1(4)]) (simp add: o2 ij n)
  moreover have "texts_valid {path_join ?d ''server-cert.pem'', path_join ?d ''server-key.pem''} w4"
    by (rule server_texts[OF pu 1(5)]) (simp add: o2 o3 ij n)
  ultimately show ?case using ready_files[OF 1(3-7)]
    by (simp add: texts_valid_def pem_paths_def)
qed

lemma ready_other:
  assumes a: "server_start env fr bv w = Done (w', Inr r)" and "q \<notin> pem_paths (boot_dir bv)"
    and "q \<noteq> crl_number_path (boot_dir bv)" and "q \<noteq> crl_der_path (boot_dir bv)"
  shows "file_at w' q = file_at w q"
proof (rule server_start_ready[OF a], goal_cases)
  case (1 w1 w2 w3 w4 w5)
  have "file_at w' q = file_at w5 q" by (rule generate_other[OF 1(7) assms(3,4)])
  also have "\<dots> = file_at w4 q" using file_at_open[of "he_serde env" _ w4] 1(6) by (metis fst_conv)
  also have "\<dots> = file_at w3 q"
    using assms(2) by (intro load_or_create_otherD[OF 1(5)[unfolded load_or_create_eqs]]) (auto simp: pem_paths_def)
  also have "\<dots> = file_at w2 q"
    using assms(2) by (intro load_or_create_otherD[OF 1(4)[unfolded load_or_create_eqs]]) (auto simp: pem_paths_def)
  also have "\<dots> = file_at w1 q"
    using assms(2) by (intro load_or_create_otherD[OF 1(3)[unfolded load_or_create_eqs]]) (auto simp: pem_paths_def)
  finally show ?case using 1(1) by simp
qed

lemma start_again_on:
  assumes cw: "crates_work env fr2" and pf: "pem_faithful (he_rcgen env)"
    and a: "server_start env fr bv w = Done (w1, Inr r1)" and ff: "fs_faults v = []"
    and tv: "texts_valid (pem_paths (boot_dir bv)) v" and k: "\<forall>p \<in> pem_paths (boot_dir bv). file_at v p = file_at w1 p"
    and st: "store_open (he_serde env) (path_join (boot_dir bv) ''certificates.json'') v = (v, Inr s)"
    and nr: "stored_number (boot_dir bv) v = Some n" "checked_add n 1 = Some m"
    and sd: "\<And>iss u now t. \<exists>der ps. signed_der (he_signer env) iss m (crl_for_store u now t s) = Done (Inr der) \<and>
       he_signer env ps iss = Inr der"
  shows "\<exists>w2 r2. server_start env fr2 bv v = Done (w2, Inr r2) \<and> fs_faults w2 = [] \<and>
    sv_store (hs_service (sr_state r2)) = s \<and> stored_number (boot_dir bv) w2 = Some m"
proof (rule server_start_ready[OF a], goal_cases)
  case (1 u1 u2 u3 u4 u5 root ic cert key s0 der cfg)
  let ?d = "boot_dir bv" and ?rc = "he_rcgen env"
  have same: "\<forall>p \<in> pem_paths ?d. file_at v p = file_at w1 p \<and> (\<forall>bs. file_at v p = Some bs \<longrightarrow> utf8_valid (bytes_str bs))"
    using tv k by (simp add: texts_valid_def)
  note fl = ready_files[OF 1(3-7)]
  note sp = pem_paths_same_pair[OF ff _ _ _ same]
  have "same_pair (path_join ?d ''root-ca.pem'') (path_join ?d ''root-ca-key.pem'') u2 v"
    using fl by (intro sp) (simp_all add: pem_paths_def)
  from root_again[OF pf 1(3) this, of "bf_root_key fr2"] obtain root' where
    r: "load_or_create_root (?rc\<lparr>rc_generate := bf_root_key fr2\<rparr>) ?d v = (v, Inr root')"
    "root_cert_pem root' = root_cert_pem root" by auto
  have "same_pair (path_join ?d ''intermediate-ca.pem'') (path_join ?d ''intermediate-ca-key.pem'') u3 v"
    using fl by (intro sp) (simp_all add: pem_paths_def)
  from intermediate_again[OF pf 1(4) this, of "bf_intermediate_key fr2" root'] obtain ic' where
    i: "load_or_create_intermediate (?rc\<lparr>rc_generate := bf_intermediate_key fr2\<rparr>) ?d root' v = (v, Inr ic')"
    by auto
  have "same_pair (path_join ?d ''server-cert.pem'') (path_join ?d ''server-key.pem'') u4 v"
    using fl by (intro sp) (simp_all add: pem_paths_def)
  note c = server_again[OF 1(5) this, of "?rc\<lparr>rc_generate := bf_server_key fr2\<rparr>" ic']
  have ver: "ru_verifier_ok (he_rustls env) ds [d]" if "he_signer env ps i = Inr d" "ds \<noteq> []" "list_all (ru_root_ok (he_rustls env)) ds"
    for ps i d ds using cw that unfolding crates_work_def Let_def by blast
  have "\<exists>cfg. build_mtls_server_config (he_rustls env) (as_bytes cert) (as_bytes key) (as_bytes (root_cert_pem root'))
      (Some d) = Inr cfg" if "he_signer env ps i = Inr d" for ps i d
    using 1(8) ver[OF that] r(2) by (auto simp: build_config_ok)
  then have sg: "\<exists>der. signed_der (he_signer env) (int_issuer ic') m (crl_for_store u now t s) = Done (Inr der) \<and>
     (\<exists>cfg. build_mtls_server_config (he_rustls env) (as_bytes cert) (as_bytes key)
        (as_bytes (root_cert_pem root')) (Some der) = Inr cfg)" for u now t
    using sd[of "int_issuer ic'" u now t] by fastforce
  show ?case using start_from_stages[OF ff refl r(1) i c ff st nr sg] by blast
qed

lemma start_again:
  assumes cw: "crates_work env fr2" and pf: "pem_faithful (he_rcgen env)"
    and a: "server_start env fr bv w = Done (w1, Inr r1)" and ff: "fs_faults w1 = []"
    and tv: "texts_valid (pem_paths (boot_dir bv)) w1"
    and st: "file_at w1 (path_join (boot_dir bv) ''certificates.json'') = None"
    and nr: "stored_number (boot_dir bv) w1 = Some n" "checked_add n 1 = Some m"
  shows "\<exists>w2 r2. server_start env fr2 bv w1 = Done (w2, Inr r2) \<and> fs_faults w2 = [] \<and>
    stored_number (boot_dir bv) w2 = Some m"
  using start_again_on[OF cw pf a ff tv _ store_open_absent[OF ff st] nr]
    empty_list_signed[OF crates_workD(7)[OF cw], of "\<lparr>st_path = path_join (boot_dir bv) ''certificates.json'', st_records = hm_empty\<rparr>"]
  by fastforce

text \<open>An error while writing the root's key leaves its certificate there.\<close>

lemma root_key_write_error:
  assumes "server_start env fr bv w = Done (w1, Inl (BootWrite (path_join (boot_dir bv) ''root-ca-key.pem'') e))"
  shows "file_at w1 (path_join (boot_dir bv) ''root-ca.pem'') \<noteq> None"
proof -
  let ?d = "boot_dir bv" and ?q = "path_join (boot_dir bv) ''root-ca-key.pem''"
  have ij: "path_join ?d a = path_join ?d b \<longleftrightarrow> a = b" for a b by (simp add: path_join_def)
  have me: "map_err g r \<noteq> Inl (BootWrite q x)" if "\<And>y. g y \<noteq> BootWrite q x" for g and r :: "'y + 'z" and q x
    using that by (cases r) auto
  have i: False if "load_or_create_intermediate rc ?d root w2 = (w', Inl (BootWrite ?q e))" for rc root w2 w'
    using load_or_create_write_error[OF that[unfolded load_or_create_eqs]] by (auto simp: ij result_simps)
  have s: False if "load_or_create_server_certificate rc ?d ic w3 = (w', Inl (BootWrite ?q e))" for rc ic w3 w'
    using load_or_create_write_error[OF that[unfolded load_or_create_eqs]] by (auto simp: ij result_simps)
  have r: "file_at w' (path_join ?d ''root-ca.pem'') \<noteq> None"
    if "load_or_create_root rc ?d w2 = (w', Inl (BootWrite ?q e))" for rc w2 w'
    using load_or_create_write_error[OF that[unfolded load_or_create_eqs]] by (auto simp: ij result_simps)
  show ?thesis using assms
    by (auto simp: server_start_def Let_def split: prod.splits sum.splits may_panic.splits dest: i s r)
qed

text \<open>What a ready server has opened and published.\<close>

lemma ready_published:
  assumes a: "server_start env fr bv w = Done (w', Inr r)"
  shows "\<exists>der n crl. tc_crls (acceptor_current (hs_acceptor (sr_state r))) = [der] \<and>
    signed_der (he_signer env) (int_issuer (he_ca (sr_env r))) n crl = Done (Inr der) \<and>
    (\<forall>sn. contains_serial sn crl \<longleftrightarrow> is_revoked_serial (sv_store (hs_service (sr_state r))) sn) \<and>
    file_at w' (crl_der_path (boot_dir bv)) = Some der"
proof (rule server_start_ready[OF a], goal_cases)
  case (1 w1 w2 w3 w4 w5 root ic cert key s der cfg)
  from generate_published[OF 1(7)] obtain n crl where
    "signed_der (he_signer env) (int_issuer ic) n crl = Done (Inr der)"
    "\<forall>sn. contains_serial sn crl \<longleftrightarrow> is_revoked_serial s sn" "file_at w' (crl_der_path (boot_dir bv)) = Some der"
    by blast
  moreover have "tc_crls cfg = [der]" using 1(8) by (auto simp: build_config_ok)
  ultimately show ?case by (auto simp: 1(9) acceptor_new_def acceptor_current_def)
qed

lemma ready_store:
  assumes a: "server_start env fr bv w = Done (w', Inr r)" and ff: "fs_faults w = []"
    and f: "file_at w (path_join (boot_dir bv) ''certificates.json'') = Some (as_bytes t)"
    and "serde_round_trips (he_serde env) m" and "sd_to_string_pretty (he_serde env) m = Inr t"
  shows "st_path (sv_store (hs_service (sr_state r))) = path_join (boot_dir bv) ''certificates.json'' \<and>
    hm_rehash m (st_records (sv_store (hs_service (sr_state r))))"
proof (rule server_start_ready[OF a], goal_cases)
  case (1 w1 w2 w3 w4 w5 root ic cert key s der cfg)
  let ?d = "boot_dir bv" and ?q = "path_join (boot_dir bv) ''certificates.json''"
  have ij: "path_join ?d a = path_join ?d b \<longleftrightarrow> a = b" for a b by (simp add: path_join_def)
  have "w1 = w" using 1(2) ff by (simp add: fs_create_dir_all_def next_fault_free)
  then have "fs_faults w2 = []"
    using ff no_faults_load_or_create[OF 1(3)[unfolded load_or_create_eqs]] by simp
  then have "fs_faults w3 = []" by (rule no_faults_load_or_create[OF 1(4)[unfolded load_or_create_eqs]])
  then have ff4: "fs_faults w4 = []" by (rule no_faults_load_or_create[OF 1(5)[unfolded load_or_create_eqs]])
  have "file_at w4 ?q = file_at w1 ?q"
    by (simp add: load_or_create_otherD[OF 1(3)[unfolded load_or_create_eqs]]
        load_or_create_otherD[OF 1(4)[unfolded load_or_create_eqs]]
        load_or_create_otherD[OF 1(5)[unfolded load_or_create_eqs]] ij)
  then have "file_at w4 ?q = Some (as_bytes t)" using f 1(1) by simp
  from open_persisted[OF assms(4,5) this ff4] 1(6) show ?case by (auto simp: 1(9))
qed

section \<open>A sample start\<close>

definition sample_boot :: "nat \<Rightarrow> nat boot_fresh" where
  "sample_boot n = \<lparr>bf_root_key = Inr n, bf_intermediate_key = Inr (n + 1), bf_server_key = Inr (n + 2),
     bf_crl = \<lparr>cf_id = 30, cf_now = 70, cf_generated_at = 71\<rparr>\<rparr>"

definition sample_vars :: boot_vars where
  "sample_vars = \<lparr>bv_data_dir = Some ''d'', bv_issue_fingerprints = Some ''aa, bb'', bv_bind = None\<rparr>"

lemma sample_dir [simp]: "boot_dir sample_vars = [''d'']"
  by (simp add: boot_dir_def sample_vars_def path_from_def starts_with_def)

lemma sample_rcgen_sel:
  "he_rcgen sample_env = sample_rcgen" "he_rustls sample_env = sample_rustls" "he_signer sample_env = (\<lambda>ps i. Inr [9])"
  by (simp_all add: sample_env_def)

lemma sample_crates: "crates_work sample_env (sample_boot n)"
  by (simp add: crates_work_def Let_def sample_rcgen_sel sample_boot_def sample_rcgen_def sample_rustls_def)

lemma sample_fs_empty: "file_at sample_fs p = None" "fs_faults sample_fs = []"
  by (simp_all add: sample_fs_def file_at_def)

lemma sample_restart:
  "\<exists>w1 r1 w2 r2. server_start sample_env (sample_boot 3) sample_vars sample_fs = Done (w1, Inr r1) \<and>
     server_start sample_env (sample_boot 8) sample_vars w1 = Done (w2, Inr r2) \<and> fs_faults w1 = [] \<and>
     texts_valid (pem_paths [''d'']) w1"
proof -
  have no: "\<forall>p \<in> pem_paths (boot_dir sample_vars). file_at sample_fs p = None" by (simp add: sample_fs_empty)
  obtain w1 r1 where a: "server_start sample_env (sample_boot 3) sample_vars sample_fs = Done (w1, Inr r1)"
    "fs_faults w1 = []" "stored_number [''d''] w1 = Some 1"
    using first_start[OF sample_crates sample_fs_empty(2) refl no sample_fs_empty(1,1), of 3] by auto
  have st: "file_at w1 (path_join (boot_dir sample_vars) ''certificates.json'') = None"
    by (subst ready_other[OF a(1)])
      (auto simp: pem_paths_def crl_number_path_def crl_der_path_def path_join_def sample_fs_empty)
  have tv: "texts_valid (pem_paths (boot_dir sample_vars)) w1"
    by (rule first_start_texts[OF _ a(1) no]) (simp add: sample_rcgen_sel sample_rcgen_utf8)
  have ca: "checked_add (1 :: u64) 1 = Some 2" by (simp add: checked_add_def)
  have pf: "pem_faithful (he_rcgen sample_env)" by (simp add: sample_rcgen_sel sample_rcgen_faithful)
  from start_again[OF sample_crates pf a(1,2) tv st _ ca, of 8] a tv show ?thesis by auto
qed

section \<open>Properties\<close>





text \<open>
  C39. An existing authority is overwritten only where the existence tests fail. As long as the two
  tests of a pair work, creating or loading the root, the intermediate or the server certificate
  leaves every existing file of its pair as it is, whatever else fails. But where both tests of
  the root fail with an I/O error, which \<open>Path::exists\<close> reports as absence, an existing root is
  replaced: certificate and private key are those of a new root.
\<close>

theorem existing_authority_overwritten_only_on_failed_test:
  assumes "tests_work w" and "file_at w p = Some b"
    and "fs_faults w' = [Fails e, Fails e']" and "root_generate rc ''Daemon PKI Root CA'' = Inr new"
  shows "(p \<in> {path_join d ''root-ca.pem'', path_join d ''root-ca-key.pem''} \<longrightarrow>
       file_at (fst (load_or_create_root rc d w)) p = Some b) \<and>
    (p \<in> {path_join d ''intermediate-ca.pem'', path_join d ''intermediate-ca-key.pem''} \<longrightarrow>
       file_at (fst (load_or_create_intermediate rc d root w)) p = Some b) \<and>
    (p \<in> {path_join d ''server-cert.pem'', path_join d ''server-key.pem''} \<longrightarrow>
       file_at (fst (load_or_create_server_certificate rc d ic w)) p = Some b) \<and>
    (\<exists>w''. load_or_create_root rc d w' = (w'', Inr new) \<and>
       file_at w'' (path_join d ''root-ca.pem'') = Some (as_bytes (root_cert_pem new)) \<and>
       file_at w'' (path_join d ''root-ca-key.pem'') = Some (as_bytes (root_private_key_pem rc new)))"
proof -
  have "path_join d ''root-ca.pem'' \<noteq> path_join d ''root-ca-key.pem''" by (simp add: path_join_def)
  then have new: "\<exists>w''. load_or_create_root rc d w' = (w'', Inr new) \<and>
       file_at w'' (path_join d ''root-ca.pem'') = Some (as_bytes (root_cert_pem new)) \<and>
       file_at w'' (path_join d ''root-ca-key.pem'') = Some (as_bytes (root_private_key_pem rc new))"
    using assms(3,4) by (simp add: load_or_create_root_def Let_def fs_exists_def fs_write_def next_fault_def file_at_def)
  show ?thesis
    by (intro conjI impI new, unfold load_or_create_eqs) (erule load_or_create_keeps_at[OF assms(1,2)])+
qed

theorem existing_authority_overwritten_only_on_failed_test_witness:
  "file_at (fst (load_or_create_root sample_rcgen [''d''] (sample_fs\<lparr>fs_files := [([''d'', ''root-ca.pem''], [5])]\<rparr>)))
     [''d'', ''root-ca.pem''] = Some [5]"
proof -
  let ?w = "sample_fs\<lparr>fs_files := [([''d'', ''root-ca.pem''], [5])]\<rparr>"
  have f: "fs_faults ?w = []" "file_at ?w [''d'', ''root-ca.pem''] = Some [5]"
    by (simp_all add: sample_fs_def file_at_def hm_get_def)
  have t: "tests_work ?w" using f(1) by (rule tests_work_free)
  have "root_generate sample_rcgen ''Daemon PKI Root CA'' = Inr \<lparr>root_issuer = 7,
      root_cert_pem = crt_pem (sample_crt [7]), root_cert_der = [7]\<rparr>"
    using ca_names by (simp add: root_generate_ok sample_rcgen_def sample_crt_def)
  from existing_authority_overwritten_only_on_failed_test[OF t f(2) _ this,
      where w' = "sample_fs\<lparr>fs_faults := [Fails ''EIO'', Fails ''EIO'']\<rparr>" and d = "[''d'']"]
  show ?thesis by (simp add: path_join_def)
qed



text \<open>
  Revocations are enforced after a restart. Once a revocation was acknowledged, whatever the
  server did to the store afterwards, if its last write of the store was acknowledged and a
  server starts on that file without I/O faults and becomes ready, the acceptor it starts with
  checks clients against one list, signed by its intermediate CA, that has the certificate's
  serial number.
\<close>

theorem restart_enforces_revocations:
  assumes "store_ok s" and "store_revoke (he_serde env) now i reason s u = ((s1, u1), Inr (Some r))"
    and "store_step\<^sup>*\<^sup>* s1 s2" and "store_persist (he_serde env) s2 u2 = (u3, Inr ())"
    and "serde_round_trips (he_serde env) (st_records s2)"
    and "st_path s2 = path_join (boot_dir bv) ''certificates.json''"
    and "file_at w (st_path s2) = file_at u3 (st_path s2)" and "fs_faults w = []"
    and "server_start env fr bv w = Done (w', Inr rr)"
  shows "\<exists>der n crl. tc_crls (acceptor_current (hs_acceptor (sr_state rr))) = [der] \<and>
    signed_der (he_signer env) (int_issuer (he_ca (sr_env rr))) n crl = Done (Inr der) \<and>
    contains_serial (cr_serial_number r) crl \<and> store_get (sv_store (hs_service (sr_state rr))) i = Some r \<and> cr_revoked r"
proof -
  have r: "store_get s1 i = Some r" "cr_revoked r"
    using assms(2) by (auto simp: store_revoke_cases store_get_def split: option.splits prod.splits sum.splits
        simp: map_sum_def)
  have "store_step s s1" using ss_revoke[of s "he_serde env" now i reason u] assms(2) by simp
  from store_steps_revoked[OF assms(3) store_step_ok[OF this assms(1)] r]
  have s2: "store_ok s2" "store_get s2 i = Some r" by auto
  obtain t where t: "sd_to_string_pretty (he_serde env) (st_records s2) = Inr t"
    "file_at u3 (st_path s2) = Some (as_bytes t)" using persist_ok[OF assms(4)] by blast
  let ?s = "sv_store (hs_service (sr_state rr))"
  have "hm_rehash (st_records s2) (st_records ?s)"
    using ready_store[OF assms(9,8) _ assms(5) t(1)] t(2) assms(6,7) by simp
  then have g: "store_get ?s i = Some r"
    using s2 by (simp add: store_get_def store_ok_def hm_rehash_get)
  then have "is_revoked_serial ?s (cr_serial_number r)"
    using r(2) by (auto simp: is_revoked_serial_def list_ex_iff store_get_def intro!: bexI[of _ r] hm_values_get)
  with ready_published[OF assms(9)] g r(2) show ?thesis by blast
qed

definition sample_revoked :: certificate_record where
  "sample_revoked = revoked_by 60 ''superseded'' sample_issued"

definition sample_before :: certificate_store where
  "sample_before = \<lparr>st_path = [''d'', ''certificates.json''], st_records = [(22, sample_issued)]\<rparr>"

definition sample_after :: certificate_store where
  "sample_after = \<lparr>st_path = [''d'', ''certificates.json''], st_records = [(22, sample_revoked)]\<rparr>"

lemma sample_after_text:
  "sd_to_string_pretty sample_run_serde (st_records sample_after) = Inr (show_nat 1)"
  "sd_from_str sample_run_serde (show_nat 1) = Inr (st_records sample_after)"
proof -
  have ne: "sample_issued \<noteq> sample_revoked" by (metis revoked_by_simps(2) sample_issued_id(2) sample_revoked_def)
  have q: "sample_issued\<lparr>cr_revoked := True, cr_revoked_at := Some 60,
        cr_revocation_reason := Some ''superseded''\<rparr> = sample_revoked"
    by (simp add: sample_revoked_def revoked_by_def)
  have n: "show_nat 0 \<noteq> show_nat (Suc 0)" by (metis dec_val_show_nat option.inject zero_neq_one One_nat_def)
  show "sd_to_string_pretty sample_run_serde (st_records sample_after) = Inr (show_nat 1)"
    using ne unfolding sample_run_serde_def q by (simp add: sample_serde_def sample_after_def)
  show "sd_from_str sample_run_serde (show_nat 1) = Inr (st_records sample_after)"
    using n unfolding sample_run_serde_def q by (simp add: sample_serde_def sample_after_def upt_rec)
qed

lemma sample_after_round_trips: "serde_round_trips sample_run_serde (st_records sample_after)"
  by (simp add: serde_round_trips_def sample_after_text[simplified] del: One_nat_def)

lemma sample_persist:
  "\<exists>w'. store_persist sample_run_serde sample_after sample_fs = (w', Inr ()) \<and> fs_faults w' = [] \<and>
     file_at w' [''d'', ''certificates.json''] = Some (as_bytes (show_nat 1)) \<and>
     (\<forall>q. q \<noteq> [''d'', ''certificates.json''] \<longrightarrow> q \<noteq> [''d'', ''certificates.json.tmp''] \<longrightarrow> file_at w' q = None)"
proof -
  have tp: "with_extension (st_path sample_after) ''json.tmp'' = [''d'', ''certificates.json.tmp'']" by code_simp
  have sp: "st_path sample_after = [''d'', ''certificates.json'']" by (simp add: sample_after_def)
  obtain w' where w': "store_persist sample_run_serde sample_after sample_fs = (w', Inr ())" "fs_faults w' = []"
    using tp sp sample_after_text(1)
    by (simp add: store_persist_def persist_parent_def path_parent_def fs_create_dir_all_def fs_write_def fs_rename_def
        next_fault_def Let_def sample_fs_def)
  moreover have "file_at w' [''d'', ''certificates.json''] = Some (as_bytes (show_nat 1))"
    using persist_ok[OF w'(1)] sample_after_text(1) sp by simp
  moreover have "file_at w' q = None" if "q \<noteq> [''d'', ''certificates.json'']" "q \<noteq> [''d'', ''certificates.json.tmp'']" for q
    using persist_other[of q sample_after sample_run_serde sample_fs] that tp sp w'(1) by (simp add: sample_fs_empty)
  ultimately show ?thesis by blast
qed

lemma sample_restarted:
  assumes "fs_faults w = []" and "file_at w [''d'', ''certificates.json''] = Some (as_bytes (show_nat 1))"
    and "\<forall>q. q \<noteq> [''d'', ''certificates.json''] \<longrightarrow> q \<noteq> [''d'', ''certificates.json.tmp''] \<longrightarrow> file_at w q = None"
  shows "\<exists>w' r. server_start sample_env (sample_boot 3) sample_vars w = Done (w', Inr r)"
proof -
  have no: "\<forall>p \<in> pem_paths [''d'']. file_at w p = None" using assms(3) by (simp add: pem_paths_def path_join_def)
  have nr: "file_at w (crl_number_path [''d'']) = None" using assms(3) by (simp add: crl_number_path_def path_join_def)
  have he: "he_serde sample_env = sample_run_serde" by (simp add: sample_env_def)
  have op: "store_open (he_serde sample_env) (path_join [''d''] ''certificates.json'') w' = (w', Inr sample_after)"
    if "fs_faults w' = []" "file_at w' (path_join [''d''] ''certificates.json'') =
      file_at w (path_join [''d''] ''certificates.json'')" for w'
    using that assms(2) sample_after_text(2)
    by (simp add: store_open_def fs_exists_free fs_read_free he path_join_def) (simp add: sample_after_def)
  have h: "hex_to_bytes (hex_of_bytes [1, 7, 3]) = Done (Some [1, 7, 3])" by (rule hex_round_trip) simp
  have sn: "cr_serial_number sample_issued = hex_of_bytes [1, 7, 3]"
    by (simp add: sample_issued_def issued_record_def certificate_record_new_def)
  have "\<exists>der ps. signed_der (he_signer sample_env) iss 1 (crl_for_store u now t sample_after) = Done (Inr der) \<and>
       he_signer sample_env ps iss = Inr der" for iss u now t
    by (simp add: sample_rcgen_sel signed_der_def crl_for_store_entries store_list_def hm_values_def sample_after_def
        sample_revoked_def entry_of_def sn h Let_def)
  from first_start_on[OF sample_crates assms(1) sample_dir no op nr this] show ?thesis by blast
qed

theorem restart_enforces_revocations_witness:
  "\<exists>w w' rr. server_start sample_env (sample_boot 3) sample_vars w = Done (w', Inr rr) \<and>
     store_get (sv_store (hs_service (sr_state (rr :: (nat, nat, bytes, unit) running)))) 22 = Some sample_revoked"
proof -
  obtain w where w: "store_persist sample_run_serde sample_after sample_fs = (w, Inr ())" "fs_faults w = []"
    "file_at w [''d'', ''certificates.json''] = Some (as_bytes (show_nat 1))"
    "\<forall>q. q \<noteq> [''d'', ''certificates.json''] \<longrightarrow> q \<noteq> [''d'', ''certificates.json.tmp''] \<longrightarrow> file_at w q = None"
    using sample_persist by blast
  obtain w' rr where s: "server_start sample_env (sample_boot 3) sample_vars w = Done (w', Inr rr)"
    using sample_restarted[OF w(2-4)] by blast
  have he: "he_serde sample_env = sample_run_serde" by (simp add: sample_env_def)
  have ok: "store_ok sample_before"
    by (simp add: store_ok_def sample_before_def store_get_def hm_get_def hm_ok_def)
  have "store_revoke (he_serde sample_env) 60 22 ''superseded'' sample_before sample_fs =
      ((sample_after, w), Inr (Some sample_revoked))"
    using w(1) by (simp add: store_revoke_cases store_get_def hm_get_def hm_insert_def sample_before_def
        sample_after_def sample_revoked_def he)
  moreover have "store_persist (he_serde sample_env) sample_after sample_fs = (w, Inr ())"
    "serde_round_trips (he_serde sample_env) (st_records sample_after)"
    "st_path sample_after = path_join (boot_dir sample_vars) ''certificates.json''"
    using w(1) by (simp_all add: he sample_after_round_trips path_join_def) (simp add: sample_after_def)
  ultimately show ?thesis
    using restart_enforces_revocations[OF ok _ rtranclp.rtrancl_refl _ _ _ refl w(2) s] s by blast
qed

end
