(* ===== verification/Bootstrap_Client.thy ===== *)
theory Bootstrap_Client
  imports Boot_Props
begin

text \<open>
  The bootstrap client, \<open>daemon-pki-api/src/bin/bootstrap-client.rs\<close>: it loads the intermediate CA
  the server has stored, issues a client certificate under it, writes certificate and key, and
  prints the fingerprint to put into \<open>DAEMON_PKI_ISSUE_FINGERPRINTS\<close>, which is its result
  here. \<open>sha256\<close> is the digest of the \<open>sha2\<close> crate.
\<close>

section \<open>The program\<close>

datatype bootstrap_error =
  BcCreateDir io_error | BcRead path io_error | BcLoadIntermediate ca_error | BcIssue issuance_error
| BcWrite path io_error

definition bootstrap_main ::
  "('key, 'iss) rcgen \<Rightarrow> (bytes \<Rightarrow> bytes) \<Rightarrow> boot_vars \<Rightarrow> fs \<Rightarrow> fs \<times> (bootstrap_error + string)" where
  "bootstrap_main rc sha256 bv w =
     (let data_dir = path_from (case bv_data_dir bv of None \<Rightarrow> ''data/pki'' | Some d \<Rightarrow> d) in
      case fs_create_dir_all data_dir w of
        (w1, Inl e) \<Rightarrow> (w1, Inl (BcCreateDir e))
      | (w1, Inr _) \<Rightarrow>
     (let intermediate_cert_path = path_join data_dir ''intermediate-ca.pem'';
          intermediate_key_path = path_join data_dir ''intermediate-ca-key.pem'';
          client_cert_path = path_join data_dir ''bootstrap-client-cert.pem'';
          client_key_path = path_join data_dir ''bootstrap-client-key.pem'' in
      case fs_read_to_string intermediate_cert_path w1 of
        (w2, Inl e) \<Rightarrow> (w2, Inl (BcRead intermediate_cert_path e))
      | (w2, Inr intermediate_certificate) \<Rightarrow>
     (case fs_read_to_string intermediate_key_path w2 of
        (w3, Inl e) \<Rightarrow> (w3, Inl (BcRead intermediate_key_path e))
      | (w3, Inr intermediate_private_key) \<Rightarrow>
     (case intermediate_from_pem rc intermediate_certificate intermediate_private_key of
        Inl e \<Rightarrow> (w3, Inl (BcLoadIntermediate e))
      | Inr intermediate \<Rightarrow>
     (let request = request_new ''daemon-pki-bootstrap-client'' in
      case issuer_issue rc (int_issuer intermediate) request of
        Inl e \<Rightarrow> (w3, Inl (BcIssue e))
      | Inr (certificate, private_key) \<Rightarrow>
     (let certificate_der = crt_der certificate;
          fingerprint = sha256 certificate_der;
          fingerprint_sha256 = hex_of_bytes fingerprint;
          certificate_pem = crt_pem certificate;
          private_key_pem = rc_serialize_pem rc private_key in
      case fs_write client_cert_path (as_bytes certificate_pem) w3 of
        (w4, Inl e) \<Rightarrow> (w4, Inl (BcWrite client_cert_path e))
      | (w4, Inr _) \<Rightarrow>
     (case fs_write client_key_path (as_bytes private_key_pem) w4 of
        (w5, Inl e) \<Rightarrow> (w5, Inl (BcWrite client_key_path e))
      | (w5, Inr _) \<Rightarrow> (w5, Inr fingerprint_sha256))))))))"

section \<open>The policy the server reads\<close>

lemma allow_all_identities:
  "ap_certificate_issue_identities (allow_all fs a) = ap_certificate_issue_identities a @ fs"
  by (induction fs arbitrary: a) (auto simp: allow_certificate_issuance_def)

lemma env_policy_identities:
  "ap_certificate_issue_identities (env_authorization_policy bv) =
     (case bv_issue_fingerprints bv of None \<Rightarrow> []
      | Some v \<Rightarrow> filter (\<lambda>s. s \<noteq> []) (map trim (split_on (CHR '','') v)))"
  by (simp add: env_authorization_policy_def allow_all_identities authorization_new_def Let_def split: option.split)

lemma split_on_absent: "c \<notin> set s \<Longrightarrow> split_on c s = [s]"
  by (induction s) auto

lemma hex_digit_plain: "d < 16 \<Longrightarrow> plain_char (hex_digit d) \<and> hex_digit d \<noteq> CHR '',''"
  using code_hex_digit[of d] by (auto simp: plain_char_def split: if_splits)

lemma hex_of_bytes_plain: "c \<in> set (hex_of_bytes bs) \<Longrightarrow> plain_char c \<and> c \<noteq> CHR '',''"
proof -
  assume "c \<in> set (hex_of_bytes bs)"
  then obtain b where "c \<in> set (hex_byte b)" by (auto simp: hex_of_bytes_def)
  then have "c = hex_digit (unat b div 16) \<or> c = hex_digit (unat b mod 16)" by (simp add: hex_byte_def)
  moreover have "unat b div 16 < 16" "unat b mod 16 < 16" using unat_u8[of b] by auto
  ultimately show "plain_char c \<and> c \<noteq> CHR '',''"
    using hex_digit_plain[of "unat b div 16"] hex_digit_plain[of "unat b mod 16"] by auto
qed

text \<open>A variable that holds one fingerprint allows exactly that one.\<close>

lemma single_fingerprint_policy:
  assumes "bv_issue_fingerprints bv = Some (hex_of_bytes bs)" and "bs \<noteq> []"
  shows "ap_certificate_issue_identities (env_authorization_policy bv) = [hex_of_bytes bs]"
proof -
  have "trim (hex_of_bytes bs) = hex_of_bytes bs" using hex_of_bytes_plain by (intro trim_plain) blast
  moreover have "hex_of_bytes bs \<noteq> []" using assms(2) length_hex_of_bytes[of bs] by (cases "hex_of_bytes bs") auto
  moreover have "split_on (CHR '','') (hex_of_bytes bs) = [hex_of_bytes bs]"
    using hex_of_bytes_plain by (intro split_on_absent) blast
  ultimately show ?thesis using assms(1) by (simp add: env_policy_identities)
qed

lemma bootstrap_ok:
  assumes "bootstrap_main rc sha bv w = (w', Inr fp)"
  obtains c k ic crt key where
    "file_at w (path_join (boot_dir bv) ''intermediate-ca.pem'') = Some (as_bytes c)"
    "file_at w (path_join (boot_dir bv) ''intermediate-ca-key.pem'') = Some (as_bytes k)"
    "intermediate_from_pem rc c k = Inr ic"
    "issuer_issue rc (int_issuer ic) (request_new ''daemon-pki-bootstrap-client'') = Inr (crt, key)"
    "fp = hex_of_bytes (sha (crt_der crt))"
    "file_at w' = (file_at w)(path_join (boot_dir bv) ''bootstrap-client-cert.pem'' \<mapsto> as_bytes (crt_pem crt),
       path_join (boot_dir bv) ''bootstrap-client-key.pem'' \<mapsto> as_bytes (rc_serialize_pem rc key))"
proof -
  have cd: "file_at w1 = file_at w" if "fs_create_dir_all (boot_dir bv) w = (w1, r)" for w1 r
    using file_at_create_dir[of "boot_dir bv" w] that by simp
  show thesis using assms that
    by (auto simp: bootstrap_main_def Let_def boot_dir_def[symmetric] split: prod.splits sum.splits
        dest!: fs_read_ok fs_write_ok cd)
qed

section \<open>Properties\<close>

text \<open>
  C38. The variable \<open>DAEMON_PKI_ISSUE_FINGERPRINTS\<close> is the whole authorization: a client may issue,
  list and revoke if and only if the variable is set and its certificate's fingerprint is, after
  trimming, one of the non-empty parts between commas; without the variable nobody may. The
  comparison is exact, so a fingerprint in capital letters or with colons allows no one.
\<close>

theorem env_policy_exact:
  "can_issue_certificates (env_authorization_policy bv) i \<longleftrightarrow>
     (\<exists>v part. bv_issue_fingerprints bv = Some v \<and> part \<in> set (split_on (CHR '','') v) \<and>
        trim part = mt_fingerprint_sha256 i \<and> trim part \<noteq> [])"
proof (cases "bv_issue_fingerprints bv")
  case None
  then show ?thesis by (simp add: can_issue_iff env_policy_identities)
next
  case (Some v)
  have "x \<in> set (filter (\<lambda>s. s \<noteq> []) (map trim ps)) \<longleftrightarrow> (\<exists>part. part \<in> set ps \<and> trim part = x \<and> trim part \<noteq> [])"
    for x ps by auto
  then show ?thesis unfolding can_issue_iff env_policy_identities Some by simp
qed

text \<open>
  C15. The bootstrap client is the one the server then trusts. When the program ends normally, the
  certificate it wrote is signed with the key of the stored intermediate CA, is not a CA's, and
  the fingerprint it prints is that of this certificate; a server started with exactly this text
  in the variable authorizes a client if and only if its certificate has the same SHA-256 digest.
  No other file is touched; the certificate is in no store, so the API can never revoke it.
\<close>

theorem bootstrap_client_is_authorized:
  assumes "bootstrap_main rc sha bv w = (w', Inr fp)" and "\<forall>b. sha b \<noteq> []"
    and "bv_issue_fingerprints bv' = Some fp"
    and "identity_from_client_certificate tr der = Some i" and "tr_sha256 tr = sha"
  shows "(\<exists>c k ic (crt :: rcgen_certificate) key ps.
      file_at w (path_join (boot_dir bv) ''intermediate-ca.pem'') = Some (as_bytes c) \<and>
      intermediate_from_pem rc c k = Inr ic \<and> rc_signed_by rc ps key (int_issuer ic) = Inr crt \<and> cp_is_ca ps = NoCa \<and>
      cp_extended_key_usages ps = [ServerAuth, ClientAuth] \<and>
      file_at w' (path_join (boot_dir bv) ''bootstrap-client-cert.pem'') = Some (as_bytes (crt_pem crt)) \<and>
      file_at w' (path_join (boot_dir bv) ''bootstrap-client-key.pem'') = Some (as_bytes (rc_serialize_pem rc key)) \<and>
      fp = hex_of_bytes (sha (crt_der crt)) \<and>
      (can_issue_certificates (env_authorization_policy bv') i \<longleftrightarrow> sha der = sha (crt_der crt))) \<and>
    (\<forall>q. q \<noteq> path_join (boot_dir bv) ''bootstrap-client-cert.pem'' \<longrightarrow>
       q \<noteq> path_join (boot_dir bv) ''bootstrap-client-key.pem'' \<longrightarrow> file_at w' q = file_at w q)"
proof (rule bootstrap_ok[OF assms(1)])
  fix c k ic crt key
  let ?rq = "request_new ''daemon-pki-bootstrap-client''"
  assume c: "file_at w (path_join (boot_dir bv) ''intermediate-ca.pem'') = Some (as_bytes c)"
    and ic: "intermediate_from_pem rc c k = Inr ic" and iss: "issuer_issue rc (int_issuer ic) ?rq = Inr (crt, key)"
    and fp: "fp = hex_of_bytes (sha (crt_der crt))"
    and f: "file_at w' = (file_at w)(path_join (boot_dir bv) ''bootstrap-client-cert.pem'' \<mapsto> as_bytes (crt_pem crt),
       path_join (boot_dir bv) ''bootstrap-client-key.pem'' \<mapsto> as_bytes (rc_serialize_pem rc key))"
  have ps: "rc_signed_by rc (leaf_params rc ?rq) key (int_issuer ic) = Inr crt" "cp_is_ca (leaf_params rc ?rq) = NoCa"
    "cp_extended_key_usages (leaf_params rc ?rq) = [ServerAuth, ClientAuth]"
    using iss by (simp_all add: issuer_issue_ok) (simp_all add: leaf_params_def request_new_def)
  have "mt_fingerprint_sha256 i = hex_of_bytes (sha der)"
    using assms(4,5) by (auto simp: identity_from_client_certificate_def Let_def split: option.splits)
  then have "can_issue_certificates (env_authorization_policy bv') i \<longleftrightarrow> sha der = sha (crt_der crt)"
    using single_fingerprint_policy[of bv' "sha (crt_der crt)"] assms(2,3) fp
      hex_of_bytes_inj[of "sha der" "sha (crt_der crt)"]
    by (auto simp: can_issue_iff)
  moreover have "path_join (boot_dir bv) ''bootstrap-client-cert.pem'' \<noteq> path_join (boot_dir bv) ''bootstrap-client-key.pem''"
    by (simp add: path_join_def)
  ultimately show ?thesis using c ic ps f fp by (intro conjI exI) auto
qed

definition sample_sha :: "bytes \<Rightarrow> bytes" where
  "sample_sha bs = take 32 (bs @ replicate 32 0)"

definition sample_bootstrap_fs :: fs where
  "sample_bootstrap_fs = \<lparr>fs_files = [([''d'', ''intermediate-ca.pem''], as_bytes ''PxE''),
     ([''d'', ''intermediate-ca-key.pem''], as_bytes ''KKKK'')], fs_faults = []\<rparr>"

lemma sample_bootstrap:
  "\<exists>w'. bootstrap_main sample_rcgen sample_sha sample_vars sample_bootstrap_fs =
     (w', Inr (hex_of_bytes (sample_sha [7, 3])))"
proof -
  have t: "trim ''PxE'' = ''PxE''" "trim ''KKKK'' = ''KKKK''" by (rule trim_plain; simp add: plain_char_def)+
  have u: "utf8_valid ''PxE''" "utf8_valid ''KKKK''" by (rule utf8_valid_ascii; simp)+
  have f: "fs_faults sample_bootstrap_fs = []"
    "file_at sample_bootstrap_fs [''d'', ''intermediate-ca.pem''] = Some (as_bytes ''PxE'')"
    "file_at sample_bootstrap_fs [''d'', ''intermediate-ca-key.pem''] = Some (as_bytes ''KKKK'')"
    by (simp_all add: sample_bootstrap_fs_def file_at_def hm_get_def)
  have ip: "\<exists>pem der. intermediate_from_pem sample_rcgen ''PxE'' ''KKKK'' = Inr \<lparr>int_issuer = 3, int_cert_pem = pem, int_cert_der = der\<rparr>"
    using t by (simp add: intermediate_from_pem_ok) (simp add: sample_rcgen_def)
  have iss: "issuer_issue sample_rcgen 3 (request_new ''daemon-pki-bootstrap-client'') = Inr (sample_crt [7, 3], 7)"
  proof -
    have "trim ''daemon-pki-bootstrap-client'' = ''daemon-pki-bootstrap-client''"
      by (rule trim_plain) (simp add: plain_char_def)
    then show ?thesis by (simp add: issuer_issue_ok validate_request_ok request_new_def sample_rcgen_def)
  qed
  have d: "path_from (case bv_data_dir sample_vars of None \<Rightarrow> ''data/pki'' | Some d \<Rightarrow> d) = [''d'']"
    using sample_dir by (simp add: boot_dir_def)
  obtain pem der where ip: "intermediate_from_pem sample_rcgen ''PxE'' ''KKKK'' =
      Inr \<lparr>int_issuer = 3, int_cert_pem = pem, int_cert_der = der\<rparr>" using ip by blast
  have "crt_der (sample_crt [7, 3]) = [7, 3]" by (simp add: sample_crt_def)
  then show ?thesis using f u
    by (simp add: bootstrap_main_def Let_def d fs_create_dir_all_def next_fault_free fs_read_free path_join_def ip iss
        fs_write_def)
qed

theorem bootstrap_client_is_authorized_witness:
  "\<exists>i. identity_from_client_certificate sample_client_reader [7, 3] = Some i \<and>
     can_issue_certificates (env_authorization_policy
       \<lparr>bv_data_dir = None, bv_issue_fingerprints = Some (hex_of_bytes (sample_sha [7, 3])), bv_bind = None\<rparr>) i"
proof -
  let ?bv = "\<lparr>bv_data_dir = None, bv_issue_fingerprints = Some (hex_of_bytes (sample_sha [7, 3])), bv_bind = None\<rparr>"
  obtain w' where b: "bootstrap_main sample_rcgen sample_sha sample_vars sample_bootstrap_fs =
     (w', Inr (hex_of_bytes (sample_sha [7, 3])))" using sample_bootstrap by blast
  obtain i where i: "identity_from_client_certificate sample_client_reader [7, 3] = Some i"
    by (simp add: identity_from_client_certificate_def sample_client_reader_def Let_def)
  have s: "tr_sha256 sample_client_reader = sample_sha" by (simp add: sample_client_reader_def sample_sha_def fun_eq_iff)
  have ne: "\<forall>b. sample_sha b \<noteq> []" by (simp add: sample_sha_def)
  have fp: "bv_issue_fingerprints ?bv = Some (hex_of_bytes (sample_sha [7, 3]))" by simp
  from bootstrap_client_is_authorized[OF b ne fp i s] obtain crt :: rcgen_certificate where
    "hex_of_bytes (sample_sha [7, 3]) = hex_of_bytes (sample_sha (crt_der crt))"
    "can_issue_certificates (env_authorization_policy ?bv) i \<longleftrightarrow> sample_sha [7, 3] = sample_sha (crt_der crt)"
    by blast
  then show ?thesis using i hex_of_bytes_inj by blast
qed

end
