(* ===== verification/Serve.thy ===== *)
theory Serve
  imports Http_Props
begin

text \<open>
  The accept loops: \<open>HttpApi::run\<close> of \<open>http.rs\<close> and \<open>run_tls_server\<close> of \<open>tls/service.rs\<close>. What
  arrives at the listener is a list of events, in the order \<open>accept\<close> returns them, each a failure
  or a connection; the TLS handshake is the parameter \<open>hk\<close>, which is told the configuration of
  the acceptor and the peer. The tasks that \<open>tokio::spawn\<close> starts are run one after the other
  here; the theory \<open>Concurrency\<close> has the interleaving of the revocations among them. A panic of a
  task ends the modelled run.
\<close>

section \<open>Connections\<close>

datatype handshake = HandshakeFailed | Established "bytes list option"

text \<open>A connection: the peer, the bytes of its one read, and what its task reads from outside.\<close>

record 'peer connection =
  cn_peer :: 'peer
  cn_request :: bytes
  cn_fresh :: http_fresh

datatype 'peer accept = AcceptFailed io_error | Accept "'peer connection"

datatype task_outcome =
  TaskHandshakeFailed | TaskNoCertificate | TaskNoIdentity | TaskServed bytes http_outcome

section \<open>The HTTP server\<close>

definition serve_connection ::
  "('key, 'iss, 'c, 'k) http_env \<Rightarrow> 'x client_reader \<Rightarrow> ('k tls_config \<Rightarrow> 'peer \<Rightarrow> handshake) \<Rightarrow> 'peer connection
   \<Rightarrow> 'k http_state \<Rightarrow> ('k http_state \<times> task_outcome) may_panic" where
  "serve_connection env tr hk c st =
     (case hk (acceptor_current (hs_acceptor st)) (cn_peer c) of
        HandshakeFailed \<Rightarrow> Done (st, TaskHandshakeFailed)
      | Established peer_certificates \<Rightarrow>
          (case (case peer_certificates of Some (first # _) \<Rightarrow> Some first | _ \<Rightarrow> None) of
             None \<Rightarrow> Done (st, TaskNoCertificate)
           | Some client_certificate \<Rightarrow>
               (case identity_from_client_certificate tr client_certificate of
                  None \<Rightarrow> Done (st, TaskNoIdentity)
                | Some identity \<Rightarrow>
                    (case handle_connection env (cn_fresh c) identity (cn_request c) st of
                       Panic \<Rightarrow> Panic
                     | Done (st', out) \<Rightarrow> Done (st', TaskServed client_certificate out)))))"

text \<open>The loop over the events seen so far; an error is what \<open>run\<close> returns.\<close>

fun accept_loop ::
  "('key, 'iss, 'c, 'k) http_env \<Rightarrow> 'x client_reader \<Rightarrow> ('k tls_config \<Rightarrow> 'peer \<Rightarrow> handshake) \<Rightarrow> 'peer accept list
   \<Rightarrow> 'k http_state \<Rightarrow> ('k http_state \<times> task_outcome list \<times> io_error option) may_panic" where
  "accept_loop env tr hk [] st = Done (st, [], None)"
| "accept_loop env tr hk (AcceptFailed e # _) st = Done (st, [], Some e)"
| "accept_loop env tr hk (Accept c # events) st =
     (case serve_connection env tr hk c st of
        Panic \<Rightarrow> Panic
      | Done (st', o1) \<Rightarrow>
          (case accept_loop env tr hk events st' of
             Panic \<Rightarrow> Panic
           | Done (st'', os, r) \<Rightarrow> Done (st'', o1 # os, r)))"

datatype run_error = RunBind io_error | RunAccept io_error

definition http_run ::
  "('key, 'iss, 'c, 'k) http_env \<Rightarrow> 'x client_reader \<Rightarrow> ('k tls_config \<Rightarrow> 'peer \<Rightarrow> handshake) \<Rightarrow> io_error + unit
   \<Rightarrow> 'peer accept list \<Rightarrow> 'k http_state \<Rightarrow> ('k http_state \<times> task_outcome list \<times> run_error option) may_panic" where
  "http_run env tr hk bound events st =
     (case bound of
        Inl e \<Rightarrow> Done (st, [], Some (RunBind e))
      | Inr _ \<Rightarrow>
          (case accept_loop env tr hk events st of
             Panic \<Rightarrow> Panic
           | Done (st', os, r) \<Rightarrow> Done (st', os, map_option RunAccept r)))"

section \<open>The TLS demo service\<close>

text \<open>\<open>run_tls_server\<close> keeps the acceptor it was started with; a task's outcome is what it writes.\<close>

definition tls_greeting :: bytes where
  "tls_greeting = as_bytes (''Daemon PKI mTLS connection established'' @ [char_of (10::nat)])"

definition tls_service_task :: "('k tls_config \<Rightarrow> 'peer \<Rightarrow> handshake) \<Rightarrow> 'k tls_config \<Rightarrow> 'peer \<Rightarrow> bytes option" where
  "tls_service_task hk cfg peer =
     (case hk cfg peer of HandshakeFailed \<Rightarrow> None | Established _ \<Rightarrow> Some tls_greeting)"

datatype tls_service_error = TsRuntime io_error | TsBind io_error | TsAccept io_error

fun tls_service_loop ::
  "('k tls_config \<Rightarrow> 'peer \<Rightarrow> handshake) \<Rightarrow> 'k tls_config \<Rightarrow> (io_error + 'peer) list
   \<Rightarrow> bytes option list \<times> tls_service_error option" where
  "tls_service_loop hk acceptor [] = ([], None)"
| "tls_service_loop hk acceptor (Inl e # _) = ([], Some (TsAccept e))"
| "tls_service_loop hk acceptor (Inr peer # events) =
     (case tls_service_loop hk acceptor events of (os, r) \<Rightarrow> (tls_service_task hk acceptor peer # os, r))"

definition run_tls_server ::
  "('k tls_config \<Rightarrow> 'peer \<Rightarrow> handshake) \<Rightarrow> io_error + unit \<Rightarrow> io_error + unit \<Rightarrow> 'k tls_config \<Rightarrow> (io_error + 'peer) list
   \<Rightarrow> bytes option list \<times> tls_service_error option" where
  "run_tls_server hk runtime bound config events =
     (case runtime of Inl e \<Rightarrow> ([], Some (TsRuntime e))
      | Inr _ \<Rightarrow>
          (case bound of Inl e \<Rightarrow> ([], Some (TsBind e)) | Inr _ \<Rightarrow> tls_service_loop hk config events))"

section \<open>What a request does to the store and the acceptor\<close>

lemma service_issue_store:
  assumes "service_issue rc dr sd pol fr p ca rq st = (st', q)" and "store_get (sv_store st) (if_record_id fr) = None"
  shows "store_step\<^sup>*\<^sup>* (sv_store st) (sv_store st') \<and>
    (\<forall>i. i \<noteq> if_record_id fr \<longrightarrow> store_get (sv_store st') i = store_get (sv_store st) i)"
proof (cases rule: issue_stages[where p = p and pol = pol and rq = rq])
  case (signing ips)
  let ?r = "\<lambda>crt parsed. issued_record fr rq (crt_pem crt) (dr_serial_to_bytes_be dr parsed) (dr_not_after dr parsed)"
  have id: "cr_id (issued_record fr rq pem sn na) = if_record_id fr" for pem sn na
    by (simp add: issued_record_def certificate_record_new_def)
  have step: "store_step (sv_store st) s' \<and> (\<forall>i. i \<noteq> if_record_id fr \<longrightarrow> store_get s' i = store_get (sv_store st) i)"
    if "store_insert sd (issued_record fr rq pem sn na) (sv_store st) (sv_fs st) = ((s', w'), x)" for pem sn na s' w' x
  proof -
    have s': "s' = fst (fst (store_insert sd (issued_record fr rq pem sn na) (sv_store st) (sv_fs st)))" using that by simp
    then have "store_step (sv_store st) s'" using assms(2) by (simp only: s') (rule ss_insert, simp only: id)
    moreover have "store_get s' i = store_get (sv_store st) i" if "i \<noteq> if_record_id fr" for i
      using that by (simp only: s' insert_store id) (simp add: store_get_def)
    ultimately show ?thesis by blast
  qed
  show ?thesis using assms(1)
    by (auto simp: issue_signing[OF signing] split: sum.splits prod.splits dest!: step)
qed (use assms(1) in \<open>auto simp: issue_unauthorized issue_invalid issue_bad_address\<close>)

definition refreshed :: "('key, 'iss, 'c, 'k) http_env \<Rightarrow> 'k http_state \<Rightarrow> 'k http_state \<Rightarrow> bool" where
  "refreshed env st st' =
     (\<exists>cf w w'. acceptor_refresh (he_rustls env) (he_signer env) (int_issuer (he_ca env)) (he_data_dir env) cf
        (sv_store (hs_service st')) w (hs_acceptor st) = Done ((w', hs_acceptor st'), Inr ()))"

lemma revoke_effect:
  assumes "handle_revoke_certificate env fr i path body st = Done (st', out)"
  shows "store_step\<^sup>*\<^sup>* (sv_store (hs_service st)) (sv_store (hs_service st')) \<and>
    (\<forall>j. store_get (sv_store (hs_service st)) j = None \<longrightarrow> store_get (sv_store (hs_service st')) j = None) \<and>
    (hs_acceptor st' = hs_acceptor st \<or> refreshed env st st')"
proof (cases "\<not> can_issue_certificates (he_authorization env) i \<or> certificate_id_from_revoke_path env path = None \<or>
    (if body = [] then Some None else he_revoke_body env body) = None")
  case True
  with assms show ?thesis by (auto simp: handle_revoke_certificate_def split: if_splits option.splits)
next
  case False
  then obtain cid rq where c: "can_issue_certificates (he_authorization env) i"
    and cid: "certificate_id_from_revoke_path env path = Some cid"
    and rq: "(if body = [] then Some None else he_revoke_body env body) = Some rq" by auto
  let ?reason = "case rq of None \<Rightarrow> ''revoked by operator'' | Some r \<Rightarrow> r"
  obtain s' w' q where rv: "store_revoke (he_serde env) (hf_revoke_now fr) cid ?reason
      (sv_store (hs_service st)) (sv_fs (hs_service st)) = ((s', w'), q)"
    by (metis prod.collapse)
  have s': "s' = fst (fst (store_revoke (he_serde env) (hf_revoke_now fr) cid ?reason
      (sv_store (hs_service st)) (sv_fs (hs_service st))))" by (simp add: rv)
  have st1: "store_step (sv_store (hs_service st)) s'" unfolding s' by (rule ss_revoke)
  have none: "store_get s' j = None" if "store_get (sv_store (hs_service st)) j = None" for j
    using that unfolding s' by (auto simp: revoke_store store_get_def split: option.split)
  note h = assms[unfolded handle_revoke_certificate_def Let_def cid option.case rq rv prod.case]
  from h c have "sv_store (hs_service st') = s' \<and> (hs_acceptor st' = hs_acceptor st \<or>
      (\<exists>w''. acceptor_refresh (he_rustls env) (he_signer env) (int_issuer (he_ca env)) (he_data_dir env)
        (hf_crl fr) s' w' (hs_acceptor st) = Done ((w'', hs_acceptor st'), Inr ())))"
    by (auto split: sum.splits option.splits may_panic.splits prod.splits dest: refresh_err)
  then show ?thesis using st1 none by (auto simp: refreshed_def)
qed

lemma connection_effect:
  assumes "handle_connection env fr i bs st = Done (st', out)"
    and "store_get (sv_store (hs_service st)) (if_record_id (hf_issue fr)) = None"
  shows "store_step\<^sup>*\<^sup>* (sv_store (hs_service st)) (sv_store (hs_service st')) \<and>
    (\<forall>j. j \<noteq> if_record_id (hf_issue fr) \<longrightarrow> store_get (sv_store (hs_service st)) j = None \<longrightarrow>
       store_get (sv_store (hs_service st')) j = None) \<and>
    (hs_acceptor st' = hs_acceptor st \<or> refreshed env st st')"
proof -
  have issue: "store_step\<^sup>*\<^sup>* (sv_store (hs_service st)) (sv_store (hs_service st')) \<and>
      (\<forall>j. j \<noteq> if_record_id (hf_issue fr) \<longrightarrow>
         store_get (sv_store (hs_service st')) j = store_get (sv_store (hs_service st)) j) \<and>
      hs_acceptor st' = hs_acceptor st"
    if "handle_issue env fr i body st = (st', out)" for body
    using that by (auto simp: handle_issue_def Let_def split: option.splits prod.splits sum.splits
        dest: service_issue_store[OF _ assms(2)])
  have "store_step\<^sup>*\<^sup>* (sv_store (hs_service st)) (sv_store (hs_service st')) \<and>
    (\<forall>j. j \<noteq> if_record_id (hf_issue fr) \<longrightarrow> store_get (sv_store (hs_service st)) j = None \<longrightarrow>
       store_get (sv_store (hs_service st')) j = None) \<and>
    (hs_acceptor st' = hs_acceptor st \<or> refreshed env st st')"
    if r: "route env fr i meth path body st = Done (st', out)" for meth path body
  proof (cases rule: route_cases[where env = env and fr = fr and i = i and meth = meth and path = path
        and body = body and st = st])
    case issue
    with r have "handle_issue env fr i body st = (st', out)" by simp
    from \<open>\<And>body. handle_issue env fr i body st = (st', out) \<Longrightarrow> _\<close>[OF this] show ?thesis by simp
  next
    case revoke
    with r revoke_effect[of env fr i path body st st' out] show ?thesis by auto
  qed (use r in auto)
  then show ?thesis using assms(1)
    by (auto simp: handle_connection_def Let_def split: if_splits http_parse.splits)
qed

section \<open>What the acceptor refuses\<close>

text \<open>The configuration's one list was signed by the CA over entries with this serial number.\<close>

definition refuses :: "('key, 'iss, 'c, 'k) http_env \<Rightarrow> 'k tls_config \<Rightarrow> bytes \<Rightarrow> bool" where
  "refuses env cfg sn =
     (\<exists>der ps v. tc_crls cfg = [der] \<and> he_signer env ps (int_issuer (he_ca env)) = Inr der \<and>
        v \<in> set (lp_revoked_certs ps) \<and> rv_serial_number v = SerialBytes sn)"

text \<open>
  What \<open>rustls\<close> documents for a client verifier with a revocation list: the handshake of a peer
  whose end-entity certificate was issued by the list's CA and is on the list fails.
\<close>

definition honours_crl ::
  "('key, 'iss, 'c, 'k) http_env \<Rightarrow> ('k tls_config \<Rightarrow> 'peer \<Rightarrow> handshake) \<Rightarrow> bool" where
  "honours_crl env hk =
     (\<forall>cfg peer ps key crt parsed cs.
        rc_signed_by (he_rcgen env) ps key (int_issuer (he_ca env)) = Inr crt \<and>
        dr_from_der (he_reader env) (crt_der crt) = Inr parsed \<and>
        refuses env cfg (dr_serial_to_bytes_be (he_reader env) parsed) \<longrightarrow>
        hk cfg peer \<noteq> Established (Some (crt_der crt # cs)))"

text \<open>A list that was published for a store names every revoked record of it.\<close>

lemma generate_lists:
  assumes "generate_and_persist signer iss dir u now t s w = Done (w', Inr der)"
    and "store_get s i = Some r" and "cr_revoked r" and "cr_serial_number r = hex_of_bytes sn" and "sn \<noteq> []"
  shows "\<exists>ps v. signer ps iss = Inr der \<and> v \<in> set (lp_revoked_certs ps) \<and> rv_serial_number v = SerialBytes sn"
proof -
  have "r \<in> set (store_list s)" using assms(2) by (auto simp: store_get_def intro: hm_values_get)
  then have "entry_of now r \<in> entry_of now ` {x \<in> set (store_list s). cr_revoked x}"
    using assms(3) by (intro imageI) simp
  then have mem: "entry_of now r \<in> set (crl_entries (crl_for_store u now t s))" by (simp add: crl_for_store_entries)
  have "hex_to_bytes (ce_serial_number (entry_of now r)) = Done (Some sn)"
    using assms(4,5) hex_round_trip by (simp add: entry_of_def)
  moreover obtain ps where ps: "revoked_params (crl_entries (crl_for_store u now t s)) = Done (Inr (lp_revoked_certs ps))"
    "signer ps iss = Inr der"
    using generate_signs[OF assms(1)] by blast
  ultimately have "revoked_param (entry_of now r) sn \<in> set (lp_revoked_certs ps)"
    using revoked_params_member[OF _ mem] by blast
  moreover have "rv_serial_number (revoked_param (entry_of now r) sn) = SerialBytes sn"
    by (simp add: revoked_param_def)
  ultimately show ?thesis using ps by blast
qed

lemma refresh_lists:
  assumes "acceptor_refresh ru signer iss dir cf s w m = Done ((w', m'), Inr u)"
    and "store_get s i = Some r" and "cr_revoked r" and "cr_serial_number r = hex_of_bytes sn" and "sn \<noteq> []"
  shows "\<exists>der ps v. tc_crls (ta_acceptor m') = [der] \<and> signer ps iss = Inr der \<and> v \<in> set (lp_revoked_certs ps) \<and>
    rv_serial_number v = SerialBytes sn"
proof -
  obtain der config where g: "generate_and_persist signer iss dir (cf_id cf) (cf_now cf) (cf_generated_at cf) s w =
      Done (w', Inr der)" and c: "m' = m\<lparr>ta_acceptor := config\<rparr>" "tc_crls config = [der]"
    using refresh_ok[OF assms(1)] by blast
  from generate_lists[OF g assms(2-5)] c show ?thesis by auto
qed

text \<open>A serial number that is out: revoked in the store and refused by the acceptor.\<close>

definition locked_out :: "('key, 'iss, 'c, 'k) http_env \<Rightarrow> bytes \<Rightarrow> 'k http_state \<Rightarrow> bool" where
  "locked_out env sn st =
     (store_ok (sv_store (hs_service st)) \<and> refuses env (acceptor_current (hs_acceptor st)) sn \<and>
      (\<exists>i r. store_get (sv_store (hs_service st)) i = Some r \<and> cr_revoked r \<and> cr_serial_number r = hex_of_bytes sn))"

lemma locked_out_step:
  assumes "locked_out env sn st" and "sn \<noteq> []"
    and "store_step\<^sup>*\<^sup>* (sv_store (hs_service st)) (sv_store (hs_service st'))"
    and "hs_acceptor st' = hs_acceptor st \<or> refreshed env st st'"
  shows "locked_out env sn st'"
proof -
  obtain i r where r: "store_ok (sv_store (hs_service st))" "store_get (sv_store (hs_service st)) i = Some r"
    "cr_revoked r" "cr_serial_number r = hex_of_bytes sn" "refuses env (acceptor_current (hs_acceptor st)) sn"
    using assms(1) by (auto simp: locked_out_def)
  have r': "store_ok (sv_store (hs_service st'))" "store_get (sv_store (hs_service st')) i = Some r"
    using store_steps_revoked[OF assms(3) r(1-3)] by auto
  have "refuses env (acceptor_current (hs_acceptor st')) sn"
    using assms(4)
  proof
    assume "refreshed env st st'"
    then show ?thesis using refresh_lists[OF _ r'(2) r(3,4) assms(2)]
      by (fastforce simp: refreshed_def refuses_def acceptor_current_def)
  qed (use r(5) in simp)
  with r r' show ?thesis by (auto simp: locked_out_def)
qed

text \<open>Record ids are fresh: distinct, and not in the store.\<close>

fun event_ids :: "'peer accept list \<Rightarrow> uuid list" where
  "event_ids [] = []"
| "event_ids (AcceptFailed e # events) = event_ids events"
| "event_ids (Accept c # events) = if_record_id (hf_issue (cn_fresh c)) # event_ids events"

definition fresh_ids :: "'peer accept list \<Rightarrow> certificate_store \<Rightarrow> bool" where
  "fresh_ids events s = (distinct (event_ids events) \<and> (\<forall>i \<in> set (event_ids events). store_get s i = None))"

lemma serve_connection_effect:
  assumes "serve_connection env tr hk c st = Done (st', o1)" and "fresh_ids (Accept c # events) (sv_store (hs_service st))"
  shows "store_step\<^sup>*\<^sup>* (sv_store (hs_service st)) (sv_store (hs_service st')) \<and>
    fresh_ids events (sv_store (hs_service st')) \<and> (hs_acceptor st' = hs_acceptor st \<or> refreshed env st st')"
proof -
  have n: "store_get (sv_store (hs_service st)) (if_record_id (hf_issue (cn_fresh c))) = None"
    using assms(2) by (simp add: fresh_ids_def)
  have "st' = st \<or> (\<exists>i out. handle_connection env (cn_fresh c) i (cn_request c) st = Done (st', out))"
    using assms(1) by (auto simp: serve_connection_def split: handshake.splits option.splits list.splits may_panic.splits)
  then have eff: "store_step\<^sup>*\<^sup>* (sv_store (hs_service st)) (sv_store (hs_service st')) \<and>
    (\<forall>j. j \<noteq> if_record_id (hf_issue (cn_fresh c)) \<longrightarrow> store_get (sv_store (hs_service st)) j = None \<longrightarrow>
       store_get (sv_store (hs_service st')) j = None) \<and>
    (hs_acceptor st' = hs_acceptor st \<or> refreshed env st st')"
    using connection_effect[OF _ n] by blast
  then have "fresh_ids events (sv_store (hs_service st'))"
    using assms(2) eff[THEN conjunct2, THEN conjunct1] unfolding fresh_ids_def
    by (metis distinct.simps(2) event_ids.simps(3) list.set_intros(2))
  with eff show ?thesis by blast
qed

lemma locked_out_served:
  assumes "\<And>cfg peer cs. refuses env cfg sn \<Longrightarrow> hk cfg peer \<noteq> Established (Some (c # cs))"
    and "locked_out env sn st" and "sn \<noteq> []"
    and "fresh_ids events (sv_store (hs_service st))" and "accept_loop env tr hk events st = Done (st', os, r)"
  shows "TaskServed c out \<notin> set os \<and> locked_out env sn st'"
  using assms(2,4,5)
proof (induction events arbitrary: st st' os r)
  case (Cons e events)
  show ?case
  proof (cases e)
    case (AcceptFailed x)
    with Cons.prems show ?thesis by auto
  next
    case (Accept cn)
    obtain st1 o1 os' where s: "serve_connection env tr hk cn st = Done (st1, o1)"
      and l: "accept_loop env tr hk events st1 = Done (st', os', r)" and os: "os = o1 # os'"
      using Cons.prems(3) Accept by (auto split: may_panic.splits prod.splits)
    note eff = serve_connection_effect[OF s Cons.prems(2)[unfolded Accept]]
    have "refuses env (acceptor_current (hs_acceptor st)) sn" using Cons.prems(1) by (simp add: locked_out_def)
    then have "hk (acceptor_current (hs_acceptor st)) (cn_peer cn) \<noteq> Established (Some (c # cs))" for cs
      by (rule assms(1))
    then have "o1 \<noteq> TaskServed c out"
      using s by (auto simp: serve_connection_def split: handshake.splits option.splits list.splits may_panic.splits)
    moreover have "locked_out env sn st1"
      using eff by (intro locked_out_step[OF Cons.prems(1) assms(3)]) auto
    then have "TaskServed c out \<notin> set os' \<and> locked_out env sn st'" using eff l by (intro Cons.IH) auto
    ultimately show ?thesis by (simp add: os)
  qed
qed simp

text \<open>What an answer 200 to a revocation leaves.\<close>

lemma revoked_locked_out:
  assumes "store_ok (sv_store (hs_service st))" and "certificate_id_from_revoke_path env path = Some cid"
    and "store_get (sv_store (hs_service st)) cid = Some r" and "cr_serial_number r = hex_of_bytes sn" and "sn \<noteq> []"
    and "handle_revoke_certificate env fr i path body st = Done (st1, Answer 200 b)"
  shows "\<exists>r1. store_get (sv_store (hs_service st1)) cid = Some r1 \<and> cr_revoked r1 \<and>
    cr_serial_number r1 = hex_of_bytes sn \<and> store_ok (sv_store (hs_service st1)) \<and>
    refuses env (acceptor_current (hs_acceptor st1)) sn"
proof -
  obtain reason q s' w' w'' m where
    rv: "store_revoke (he_serde env) (hf_revoke_now fr) cid reason (sv_store (hs_service st)) (sv_fs (hs_service st)) =
      ((s', w'), Inr (Some q))"
    and rf: "acceptor_refresh (he_rustls env) (he_signer env) (int_issuer (he_ca env)) (he_data_dir env) (hf_crl fr)
      s' w' (hs_acceptor st) = Done ((w'', m), Inr ())"
    and st1: "st1 = \<lparr>hs_service = (hs_service st)\<lparr>sv_store := s', sv_fs := w''\<rparr>, hs_acceptor = m\<rparr>"
    using revoke_answer_200[OF assms(6)] assms(2) by auto
  have s': "s' = fst (fst (store_revoke (he_serde env) (hf_revoke_now fr) cid reason
      (sv_store (hs_service st)) (sv_fs (hs_service st))))" by (simp add: rv)
  have "store_step (sv_store (hs_service st)) s'" unfolding s' by (rule ss_revoke)
  then have ok: "store_ok s'" by (rule store_step_ok[OF _ assms(1)])
  let ?r = "revoked_by (hf_revoke_now fr) reason r"
  have r: "store_get s' cid = Some ?r" using assms(3) unfolding s' by (simp add: revoke_store) (simp add: store_get_def)
  have sn: "cr_serial_number ?r = hex_of_bytes sn" by (simp add: assms(4))
  have "refuses env (acceptor_current m) sn"
    using refresh_lists[OF rf r revoked_by_simps(2) sn assms(5)] by (simp add: refuses_def acceptor_current_def)
  then show ?thesis using ok r sn revoked_by_simps(2) unfolding st1 by (intro exI[of _ ?r]) simp
qed

text \<open>
  A revoked client is locked out for good. Take a certificate the CA has signed, recorded in the
  store with its serial number, and suppose a request to revoke that record was answered 200.
  Then, whatever connections and requests come after it, in whatever number and whatever I/O
  fails while they are served, none of them is ever served to a client that presents this
  certificate: its handshake fails, since every list the acceptor is given from then on still
  names it. (The TLS library honours revocation lists; record ids are fresh.)
\<close>

theorem revoked_client_locked_out:
  assumes "honours_crl env hk" and "store_ok (sv_store (hs_service st))"
    and "rc_signed_by (he_rcgen env) ps key (int_issuer (he_ca env)) = Inr crt"
    and "dr_from_der (he_reader env) (crt_der crt) = Inr parsed" and "dr_serial_to_bytes_be (he_reader env) parsed \<noteq> []"
    and "certificate_id_from_revoke_path env path = Some cid"
    and "store_get (sv_store (hs_service st)) cid = Some r"
    and "cr_serial_number r = hex_of_bytes (dr_serial_to_bytes_be (he_reader env) parsed)"
    and "handle_revoke_certificate env fr i path body st = Done (st1, Answer 200 b)"
    and "fresh_ids events (sv_store (hs_service st1))" and "accept_loop env tr hk events st1 = Done (st2, os, e)"
  shows "TaskServed (crt_der crt) out \<notin> set os"
proof -
  let ?sn = "dr_serial_to_bytes_be (he_reader env) parsed"
  have "locked_out env ?sn st1"
    using revoked_locked_out[OF assms(2,6,7,8,5,9)] by (auto simp: locked_out_def)
  moreover have "refuses env cfg ?sn \<Longrightarrow> hk cfg peer \<noteq> Established (Some (crt_der crt # cs))" for cfg peer cs
    using assms(1)[unfolded honours_crl_def, rule_format, of ps key crt parsed] assms(3,4) by blast
  ultimately show ?thesis using locked_out_served[OF _ _ assms(5,10,11)] by blast
qed

text \<open>A toy TLS stack for the witness: a peer presents its bytes as certificate, and is turned away
  as soon as there is a list.\<close>

definition sample_handshake :: "unit tls_config \<Rightarrow> bytes \<Rightarrow> handshake" where
  "sample_handshake cfg peer = (if tc_crls cfg = [] then Established (Some [peer]) else HandshakeFailed)"

definition sample_connection :: "bytes connection" where
  "sample_connection = \<lparr>cn_peer = [7, 3], cn_request = [1],
     cn_fresh = sample_http_fresh\<lparr>hf_issue := sample_fresh\<lparr>if_record_id := 40\<rparr>\<rparr>\<rparr>"

lemma sample_refused:
  assumes "handle_revoke_certificate sample_env sample_http_fresh (sample_client ''aa'')
     ''/v1/certificates/22/revoke'' [1] sample_http = Done (st1, Answer 200 b)"
  shows "accept_loop sample_env sample_client_reader sample_handshake [Accept sample_connection] st1 =
      Done (st1, [TaskHandshakeFailed], None)"
    and "fresh_ids [Accept sample_connection] (sv_store (hs_service st1))"
proof -
  obtain s' w' w'' m where rf: "acceptor_refresh (he_rustls sample_env) (he_signer sample_env) (int_issuer (he_ca sample_env))
      (he_data_dir sample_env) (hf_crl sample_http_fresh) s' w' (hs_acceptor sample_http) = Done ((w'', m), Inr ())"
    and m: "hs_acceptor st1 = m"
    using revoke_answer_200[OF assms] by auto
  have "tc_crls (acceptor_current m) \<noteq> []" using refresh_ok[OF rf] by (auto simp: acceptor_current_def)
  then show "accept_loop sample_env sample_client_reader sample_handshake [Accept sample_connection] st1 =
      Done (st1, [TaskHandshakeFailed], None)"
    by (simp add: serve_connection_def sample_handshake_def m)
  have "store_get (sv_store (hs_service sample_http)) 40 = None"
    by (simp add: sample_http_def store_get_def hm_get_def)
  then show "fresh_ids [Accept sample_connection] (sv_store (hs_service st1))"
    using revoke_effect[OF assms] by (simp add: fresh_ids_def sample_connection_def)
qed

theorem revoked_client_locked_out_witness:
  "\<exists>st1 b os. handle_revoke_certificate sample_env sample_http_fresh (sample_client ''aa'')
       ''/v1/certificates/22/revoke'' [1] sample_http = Done (st1, Answer 200 b) \<and>
     accept_loop sample_env sample_client_reader sample_handshake [Accept sample_connection] st1 = Done (st1, os, None) \<and>
     TaskServed [7, 3] NoAnswer \<notin> set os"
proof -
  obtain st1 b where h: "handle_revoke_certificate sample_env sample_http_fresh (sample_client ''aa'')
      ''/v1/certificates/22/revoke'' [1] sample_http = Done (st1, Answer 200 b)"
    using sample_answer_200 by blast
  note l = sample_refused[OF h]
  have "honours_crl sample_env sample_handshake" by (auto simp: honours_crl_def refuses_def sample_handshake_def)
  moreover have "store_ok (sv_store (hs_service sample_http))"
    by (simp add: sample_http_def store_ok_def store_get_def hm_get_def hm_ok_def)
  moreover have "rc_signed_by (he_rcgen sample_env) ps 7 (int_issuer (he_ca sample_env)) = Inr (sample_crt [7, 3])" for ps
    by (simp add: sample_env_def sample_rcgen_def sample_ca_def)
  moreover have "dr_from_der (he_reader sample_env) (crt_der (sample_crt [7, 3])) = Inr [7, 3]"
    "dr_serial_to_bytes_be (he_reader sample_env) [7, 3] = [1, 7, 3]"
    by (simp_all add: sample_env_def sample_reader_def sample_crt_def)
  moreover have "store_get (sv_store (hs_service sample_http)) 22 = Some sample_issued"
    by (simp add: sample_http_def store_get_def hm_get_def)
  moreover have "cr_serial_number sample_issued = hex_of_bytes [1, 7, 3]"
    by (simp add: sample_issued_def issued_record_def certificate_record_new_def)
  ultimately have "TaskServed (crt_der (sample_crt [7, 3])) NoAnswer \<notin> set [TaskHandshakeFailed]"
    using revoked_client_locked_out[where hk = sample_handshake and tr = sample_client_reader and parsed = "[7, 3]",
        OF _ _ _ _ _ sample_path_id _ _ h l(2,1)]
    by (metis list.distinct(1))
  then show ?thesis using h l(1) by (auto simp: sample_crt_def)
qed

section \<open>No request stops the server\<close>

definition ascii_serials :: "certificate_store \<Rightarrow> bool" where
  "ascii_serials s = (\<forall>r \<in> set (hm_values (st_records s)). ascii (cr_serial_number r))"

lemma hm_values_insert: "set (hm_values (hm_insert k v m)) \<subseteq> insert v (set (hm_values m))"
  by (induction m) (auto simp: hm_values_def hm_insert_def split: if_splits)

lemma ascii_serials_insert:
  "ascii_serials s \<Longrightarrow> ascii (cr_serial_number r) \<Longrightarrow> ascii_serials (s\<lparr>st_records := hm_insert i r (st_records s)\<rparr>)"
  using hm_values_insert[of i r "st_records s"] by (auto simp: ascii_serials_def)

lemma generate_no_panic:
  assumes "ascii_serials s"
  shows "generate_and_persist signer iss dir u now t s w \<noteq> Panic"
proof -
  have "\<forall>e \<in> set (crl_entries (crl_for_store u now t s)). ascii (ce_serial_number e)"
    using assms by (auto simp: crl_for_store_entries entry_of_def ascii_serials_def)
  from revoked_params_ascii[OF this] have "signed_der signer iss n (crl_for_store u now t s) \<noteq> Panic" for n
    by (auto simp: signed_der_def Let_def split: may_panic.split sum.split)
  then show ?thesis
    by (auto simp: generate_and_persist_def split: prod.split sum.split may_panic.split)
qed

lemma revoke_ascii:
  assumes "ascii_serials s"
  shows "ascii_serials (fst (fst (store_revoke sd now i reason s w)))"
proof (cases "store_get s i")
  case (Some r)
  then have "ascii (cr_serial_number (revoked_by now reason r))"
    using assms by (auto simp: ascii_serials_def store_get_def dest: hm_values_get)
  with assms Some show ?thesis by (simp add: revoke_store ascii_serials_insert)
qed (use assms in \<open>simp add: revoke_store\<close>)

lemma handle_revoke_done:
  assumes "ascii_serials (sv_store (hs_service st))"
  shows "\<exists>st' out. handle_revoke_certificate env fr i path body st = Done (st', out) \<and>
    ascii_serials (sv_store (hs_service st'))"
proof (cases "\<not> can_issue_certificates (he_authorization env) i \<or> certificate_id_from_revoke_path env path = None \<or>
    (if body = [] then Some None else he_revoke_body env body) = None")
  case True
  then have "\<exists>out. handle_revoke_certificate env fr i path body st = Done (st, out)"
    by (cases "can_issue_certificates (he_authorization env) i"; cases "certificate_id_from_revoke_path env path")
      (simp_all add: handle_revoke_certificate_def)
  with assms show ?thesis by blast
next
  case False
  then obtain cid rq where c: "can_issue_certificates (he_authorization env) i"
    and cid: "certificate_id_from_revoke_path env path = Some cid"
    and rq: "(if body = [] then Some None else he_revoke_body env body) = Some rq" by auto
  let ?reason = "case rq of None \<Rightarrow> ''revoked by operator'' | Some r \<Rightarrow> r"
  obtain s' w' q where rv: "store_revoke (he_serde env) (hf_revoke_now fr) cid ?reason
      (sv_store (hs_service st)) (sv_fs (hs_service st)) = ((s', w'), q)"
    by (metis prod.collapse)
  have s': "ascii_serials s'"
    using revoke_ascii[OF assms, of "he_serde env" "hf_revoke_now fr" cid ?reason "sv_fs (hs_service st)"] rv by simp
  have "acceptor_refresh (he_rustls env) (he_signer env) (int_issuer (he_ca env)) (he_data_dir env) (hf_crl fr)
      s' w' (hs_acceptor st) \<noteq> Panic"
    by (auto simp: acceptor_refresh_def generate_no_panic[OF s'] split: may_panic.split prod.split sum.split)
  then obtain y where "acceptor_refresh (he_rustls env) (he_signer env) (int_issuer (he_ca env)) (he_data_dir env)
      (hf_crl fr) s' w' (hs_acceptor st) = Done y"
    by (cases "acceptor_refresh (he_rustls env) (he_signer env) (int_issuer (he_ca env)) (he_data_dir env)
      (hf_crl fr) s' w' (hs_acceptor st)") auto
  with c s' show ?thesis
    unfolding handle_revoke_certificate_def Let_def cid option.case rq rv prod.case
    by (cases y) (auto split: sum.split option.split)
qed

lemma service_issue_ascii:
  assumes "ascii_serials (sv_store st)"
  shows "ascii_serials (sv_store (fst (service_issue rc dr sd pol fr p ca rq st)))"
proof (cases rule: issue_stages[where p = p and pol = pol and rq = rq])
  case (signing ips)
  have "ascii_serials s'"
    if "store_insert sd (issued_record fr rq pem sn na) (sv_store st) (sv_fs st) = ((s', w'), x)" for pem sn na s' w' x
  proof -
    have "s' = fst (fst (store_insert sd (issued_record fr rq pem sn na) (sv_store st) (sv_fs st)))" using that by simp
    moreover have "ascii (cr_serial_number (issued_record fr rq pem sn na))"
      by (auto simp: issued_record_def certificate_record_new_def ascii_def dest: hex_of_bytes_ascii)
    ultimately show ?thesis using assms by (simp add: ascii_serials_insert)
  qed
  then show ?thesis using assms by (auto simp: issue_signing[OF signing] split: sum.split prod.split)
qed (use assms in \<open>auto simp: issue_unauthorized issue_invalid issue_bad_address\<close>)

lemma handle_issue_ascii:
  assumes "ascii_serials (sv_store (hs_service st))"
  shows "\<exists>st' out. handle_issue env fr i body st = (st', out) \<and> ascii_serials (sv_store (hs_service st'))"
proof (cases "he_issue_body env body")
  case (Some rq)
  let ?p = "\<lparr>pr_id = mt_id i, pr_name = mt_name i, pr_roles = roles_for (he_authorization env) i\<rparr>"
  obtain sv x where s: "service_issue (he_rcgen env) (he_reader env) (he_serde env) (he_policy env)
      (hf_issue fr) ?p (he_ca env) rq (hs_service st) = (sv, x)" by (metis prod.collapse)
  have "ascii_serials (sv_store sv)"
    using service_issue_ascii[OF assms, of "he_rcgen env" "he_reader env" "he_serde env" "he_policy env" "hf_issue fr" ?p
      "he_ca env" rq] s by simp
  with Some s show ?thesis by (cases x) (auto simp: handle_issue_def Let_def)
qed (use assms in \<open>simp add: handle_issue_def\<close>)

lemma handle_connection_done:
  assumes a: "ascii_serials (sv_store (hs_service st))"
  shows "\<exists>st' out. handle_connection env fr i bs st = Done (st', out) \<and> ascii_serials (sv_store (hs_service st'))"
proof -
  have "\<exists>st' out. route env fr i meth path body st = Done (st', out) \<and> ascii_serials (sv_store (hs_service st'))"
    for meth path body
  proof (cases rule: route_cases[where env = env and fr = fr and i = i and meth = meth and path = path
        and body = body and st = st])
    case issue
    with handle_issue_ascii[OF a, of env fr i body] show ?thesis by auto
  next
    case revoke
    with handle_revoke_done[OF a] show ?thesis by simp
  qed (use a in auto)
  then show ?thesis using a by (auto simp: handle_connection_def Let_def split: http_parse.split)
qed

lemma serve_connection_done:
  assumes "ascii_serials (sv_store (hs_service st))"
  shows "\<exists>st' o1. serve_connection env tr hk c st = Done (st', o1) \<and> ascii_serials (sv_store (hs_service st'))"
proof (cases "hk (acceptor_current (hs_acceptor st)) (cn_peer c)")
  case HandshakeFailed
  then show ?thesis using assms by (simp add: serve_connection_def)
next
  case (Established certs)
  let ?first = "case certs of Some (first # _) \<Rightarrow> Some first | _ \<Rightarrow> None"
  show ?thesis
  proof (cases "?first = None \<or> identity_from_client_certificate tr (the ?first) = None")
    case True
    then show ?thesis using assms Established by (cases ?first) (auto simp: serve_connection_def)
  next
    case False
    then obtain cert i where "?first = Some cert" "identity_from_client_certificate tr cert = Some i" by auto
    moreover obtain st' out where "handle_connection env (cn_fresh c) i (cn_request c) st = Done (st', out)"
      "ascii_serials (sv_store (hs_service st'))"
      using handle_connection_done[OF assms, of env "cn_fresh c" i "cn_request c"] by blast
    ultimately show ?thesis using Established by (simp add: serve_connection_def)
  qed
qed

definition is_connection :: "'peer accept \<Rightarrow> bool" where
  "is_connection e = (case e of Accept _ \<Rightarrow> True | AcceptFailed _ \<Rightarrow> False)"

lemma is_connection_simps [simp]: "is_connection (Accept c)" "\<not> is_connection (AcceptFailed e)"
  by (simp_all add: is_connection_def)

lemma accept_loop_done:
  assumes "ascii_serials (sv_store (hs_service st))"
  shows "\<exists>st' os r. accept_loop env tr hk events st = Done (st', os, r) \<and>
    length os = length (takeWhile is_connection events) \<and>
    r = (case dropWhile is_connection events of AcceptFailed e # _ \<Rightarrow> Some e | _ \<Rightarrow> None) \<and>
    ascii_serials (sv_store (hs_service st'))"
  using assms
proof (induction events arbitrary: st)
  case (Cons e events)
  show ?case
  proof (cases e)
    case (AcceptFailed x)
    with Cons.prems show ?thesis by simp
  next
    case (Accept c)
    obtain st1 o1 where "serve_connection env tr hk c st = Done (st1, o1)" "ascii_serials (sv_store (hs_service st1))"
      using serve_connection_done[OF Cons.prems] by blast
    with Cons.IH[of st1] Accept show ?thesis by auto
  qed
qed simp



end
