(* ===== verification/Serve_Disk.thy ===== *)
theory Serve_Disk
  imports Serve
begin

text \<open>
  What serving does to the files, whatever fails: a connection, and hence a run of the accept
  loop, touches four files only, and the store's file is at every moment either what it was or
  the text of a store that the requests have led to. This is what a later start of the server
  finds.
\<close>

section \<open>The files of the server\<close>

definition store_file :: "path \<Rightarrow> path" where
  "store_file dir = path_join dir ''certificates.json''"

definition served_files :: "path \<Rightarrow> path set" where
  "served_files dir =
     {store_file dir, path_join dir ''certificates.json.tmp'', crl_number_path dir, crl_der_path dir}"

lemma path_join_inj [simp]: "path_join d a = path_join d b \<longleftrightarrow> a = b"
  by (simp add: path_join_def)

lemma store_file_temp: "with_extension (store_file dir) ''json.tmp'' = path_join dir ''certificates.json.tmp''"
proof -
  have "file_stem ''certificates.json'' = ''certificates''" by code_simp
  then show ?thesis by (simp add: with_extension_def store_file_def path_join_def)
qed

lemma store_file_regular [simp]: "regular_path (store_file dir)"
  by (simp add: regular_path_def store_file_def path_join_def)

lemma store_file_apart [simp]:
  "store_file dir \<noteq> crl_number_path dir" "store_file dir \<noteq> crl_der_path dir"
  by (simp_all add: store_file_def crl_number_path_def crl_der_path_def)

section \<open>Stores that grow\<close>

text \<open>The requests lead from one store to another, using new ids from a given set only.\<close>

definition grows :: "uuid set \<Rightarrow> certificate_store \<Rightarrow> certificate_store \<Rightarrow> bool" where
  "grows ids s s' =
     (store_step\<^sup>*\<^sup>* s s' \<and> st_path s' = st_path s \<and>
      (\<forall>j. j \<notin> ids \<longrightarrow> store_get s j = None \<longrightarrow> store_get s' j = None))"

lemma grows_refl [simp]: "grows ids s s"
  by (simp add: grows_def)

lemma grows_trans: "grows a s s' \<Longrightarrow> grows b s' s'' \<Longrightarrow> grows (a \<union> b) s s''"
  by (auto simp: grows_def)

lemma grows_mono: "grows a s s' \<Longrightarrow> a \<subseteq> b \<Longrightarrow> grows b s s'"
  by (auto simp: grows_def)

text \<open>The file has the text of a store.\<close>

definition has_text :: "serde \<Rightarrow> fs \<Rightarrow> certificate_store \<Rightarrow> bool" where
  "has_text sd w s = (\<exists>t. sd_to_string_pretty sd (st_records s) = Inr t \<and> file_at w (st_path s) = Some (as_bytes t))"

lemma persist_text:
  assumes "store_persist sd s w = (w', r)" and "regular_path (st_path s)"
  shows "file_at w' (st_path s) = file_at w (st_path s) \<or> has_text sd w' s"
  using assms persist_ok[of sd s w w'] persist_err[of sd s w w'] by (cases r) (auto simp: has_text_def)

text \<open>One request, or many: what they did to the store and to the files under \<open>dir\<close>.\<close>

definition served :: "serde \<Rightarrow> path \<Rightarrow> uuid set \<Rightarrow> service_state \<Rightarrow> service_state \<Rightarrow> bool" where
  "served sd dir ids sv sv' =
     (grows ids (sv_store sv) (sv_store sv') \<and>
      (\<forall>q. q \<notin> served_files dir \<longrightarrow> file_at (sv_fs sv') q = file_at (sv_fs sv) q) \<and>
      (file_at (sv_fs sv') (store_file dir) = file_at (sv_fs sv) (store_file dir) \<or>
       (\<exists>s. grows ids (sv_store sv) s \<and> has_text sd (sv_fs sv') s)))"

lemma served_refl [simp]: "served sd dir ids sv sv"
  by (simp add: served_def)

lemma served_mono: "served sd dir a sv sv' \<Longrightarrow> a \<subseteq> b \<Longrightarrow> served sd dir b sv sv'"
  unfolding served_def using grows_mono by blast

lemma served_trans:
  assumes "served sd dir a sv sv'" and "served sd dir b sv' sv''" and "st_path (sv_store sv) = store_file dir"
  shows "served sd dir (a \<union> b) sv sv''"
proof -
  have p: "st_path (sv_store sv') = store_file dir" using assms(1,3) by (simp add: served_def grows_def)
  have f: "file_at (sv_fs sv'') (store_file dir) = file_at (sv_fs sv') (store_file dir) \<or>
      (\<exists>s. grows b (sv_store sv') s \<and> has_text sd (sv_fs sv'') s)"
    using assms(2) by (simp add: served_def)
  have g: "grows a (sv_store sv) (sv_store sv')" using assms(1) by (simp add: served_def)
  have "file_at (sv_fs sv'') (store_file dir) = file_at (sv_fs sv) (store_file dir) \<or>
      (\<exists>s. grows (a \<union> b) (sv_store sv) s \<and> has_text sd (sv_fs sv'') s)"
  proof (rule disjE[OF f])
    assume same: "file_at (sv_fs sv'') (store_file dir) = file_at (sv_fs sv') (store_file dir)"
    have "has_text sd (sv_fs sv'') s" if "grows a (sv_store sv) s" "has_text sd (sv_fs sv') s" for s
      using that same assms(3) by (simp add: has_text_def grows_def)
    then show ?thesis using assms(1) same grows_mono[of a _ _ "a \<union> b"] unfolding served_def by (metis Un_upper1)
  next
    assume "\<exists>s. grows b (sv_store sv') s \<and> has_text sd (sv_fs sv'') s"
    then show ?thesis using grows_trans[OF g] by blast
  qed
  then show ?thesis using assms(1,2) grows_trans[OF g] by (simp add: served_def)
qed

section \<open>Requests\<close>

lemma revoke_grows: "grows {} s (fst (fst (store_revoke sd now i reason s w)))"
proof -
  have "store_step\<^sup>*\<^sup>* s (fst (fst (store_revoke sd now i reason s w)))" by (blast intro: ss_revoke)
  moreover have "st_path (fst (fst (store_revoke sd now i reason s w))) = st_path s"
    by (simp add: revoke_store split: option.split)
  moreover have "store_get (fst (fst (store_revoke sd now i reason s w))) j = None" if "store_get s j = None" for j
    using that by (auto simp: revoke_store store_get_def split: option.split)
  ultimately show ?thesis by (simp add: grows_def)
qed

lemma insert_grows:
  assumes "store_get s (cr_id r) = None"
  shows "grows {cr_id r} s (fst (fst (store_insert sd r s w)))"
proof -
  have "store_step\<^sup>*\<^sup>* s (fst (fst (store_insert sd r s w)))" using ss_insert[OF assms, of sd w] by blast
  then show ?thesis by (auto simp: grows_def) (simp add: store_get_def)
qed

text \<open>A change of the store and the write that follows it.\<close>

lemma served_change:
  assumes "grows ids (sv_store sv) s'" and "st_path (sv_store sv) = store_file dir"
    and "store_persist sd s' (sv_fs sv) = (w', x)"
  shows "served sd dir ids sv (sv\<lparr>sv_store := s', sv_fs := w'\<rparr>)"
proof -
  have p: "st_path s' = store_file dir" using assms(1,2) by (simp add: grows_def)
  have "file_at w' q = file_at (sv_fs sv) q" if "q \<notin> served_files dir" for q
    using persist_other[of q s' sd "sv_fs sv"] that assms(3) p by (auto simp: served_files_def store_file_temp)
  moreover have "file_at w' (store_file dir) = file_at (sv_fs sv) (store_file dir) \<or> has_text sd w' s'"
    using persist_text[OF assms(3)] p by simp
  ultimately show ?thesis using assms(1) by (auto simp: served_def)
qed

lemma served_insert:
  assumes "store_insert sd r (sv_store sv) (sv_fs sv) = ((s', w'), x)" and "store_get (sv_store sv) (cr_id r) = None"
    and "st_path (sv_store sv) = store_file dir"
  shows "served sd dir {cr_id r} sv (sv\<lparr>sv_store := s', sv_fs := w'\<rparr>)"
proof -
  have g: "grows {cr_id r} (sv_store sv) s'"
    using insert_grows[OF assms(2), of sd "sv_fs sv"] assms(1) by simp
  have "\<exists>y. store_persist sd s' (sv_fs sv) = (w', y)"
    using assms(1) by (auto simp: store_insert_def Let_def split: prod.splits sum.splits)
  then show ?thesis using served_change[OF g assms(3)] by blast
qed

lemma served_revoke:
  assumes "store_revoke sd now i reason (sv_store sv) (sv_fs sv) = ((s', w'), x)"
    and "st_path (sv_store sv) = store_file dir"
  shows "served sd dir {} sv (sv\<lparr>sv_store := s', sv_fs := w'\<rparr>)"
proof (cases "store_get (sv_store sv) i")
  case None
  then have "s' = sv_store sv" "w' = sv_fs sv" using assms(1) by (simp_all add: store_revoke_cases)
  then show ?thesis by simp
next
  case (Some r)
  have g: "grows {} (sv_store sv) s'" using revoke_grows[of "sv_store sv" sd now i reason "sv_fs sv"] assms(1) by simp
  have "\<exists>y. store_persist sd s' (sv_fs sv) = (w', y)"
    using assms(1) Some by (auto simp: store_revoke_cases split: prod.splits)
  then show ?thesis using served_change[OF g assms(2)] by blast
qed

text \<open>The audit log and the publication of a list leave the store's file alone.\<close>

lemma served_audit [simp]: "served sd dir ids sv (sv'\<lparr>sv_audit := a\<rparr>) = served sd dir ids sv sv'"
  by (simp add: served_def)

lemma refresh_other:
  assumes "acceptor_refresh ru signer iss dir cf s w m = Done ((w', m'), r)"
    and "q \<noteq> crl_number_path dir" and "q \<noteq> crl_der_path dir"
  shows "file_at w' q = file_at w q"
proof -
  obtain y where "generate_and_persist signer iss dir (cf_id cf) (cf_now cf) (cf_generated_at cf) s w = Done (w', y)"
    using assms(1) by (auto simp: acceptor_refresh_def split: may_panic.splits prod.splits sum.splits)
  then show ?thesis by (rule generate_other[OF _ assms(2,3)])
qed

lemma served_refresh:
  assumes "acceptor_refresh ru signer iss dir cf (sv_store sv') (sv_fs sv') m = Done ((w', m'), r)"
    and "served sd dir ids sv sv'" and "st_path (sv_store sv) = store_file dir"
  shows "served sd dir ids sv (sv'\<lparr>sv_fs := w'\<rparr>)"
proof -
  have o: "file_at w' q = file_at (sv_fs sv') q" if "q \<notin> {crl_number_path dir, crl_der_path dir}" for q
    using refresh_other[OF assms(1)] that by blast
  have "file_at w' (store_file dir) = file_at (sv_fs sv') (store_file dir)" by (rule o) simp
  moreover have "file_at w' q = file_at (sv_fs sv') q" if "q \<notin> served_files dir" for q
    using that by (intro o) (auto simp: served_files_def)
  moreover have "has_text sd w' s" if "has_text sd (sv_fs sv') s" "grows ids (sv_store sv) s" for s
    using that assms(3) calculation(1) by (simp add: has_text_def grows_def)
  ultimately show ?thesis using assms(2) by (auto simp: served_def)
qed

section \<open>Handlers, connections, the loop\<close>

lemma served_issue:
  assumes "service_issue rc dr sd pol fr p ca rq sv = (sv', q)" and "store_get (sv_store sv) (if_record_id fr) = None"
    and "st_path (sv_store sv) = store_file dir"
  shows "served sd dir {if_record_id fr} sv sv'"
proof (cases rule: issue_stages[where p = p and pol = pol and rq = rq])
  case (signing ips)
  have "cr_id (issued_record fr rq pem sn na) = if_record_id fr" for pem sn na
    by (simp add: issued_record_def certificate_record_new_def)
  then have ins: "served sd dir {if_record_id fr} sv (sv\<lparr>sv_store := s', sv_fs := w'\<rparr>)"
    if "store_insert sd (issued_record fr rq pem sn na) (sv_store sv) (sv_fs sv) = ((s', w'), x)" for pem sn na s' w' x
    using served_insert[OF that _ assms(3)] assms(2) by simp
  show ?thesis using assms(1)
    by (auto simp: issue_signing[OF signing] with_event_def split: sum.splits prod.splits dest!: ins)
qed (use assms in \<open>auto simp: issue_unauthorized issue_invalid issue_bad_address with_event_def\<close>)

lemma served_handle_revoke:
  assumes "handle_revoke_certificate env fr i path body st = Done (st', out)"
    and "st_path (sv_store (hs_service st)) = store_file (he_data_dir env)"
  shows "served (he_serde env) (he_data_dir env) {} (hs_service st) (hs_service st')"
proof (cases "\<not> can_issue_certificates (he_authorization env) i \<or> certificate_id_from_revoke_path env path = None \<or>
    (if body = [] then Some None else he_revoke_body env body) = None")
  case True
  with assms(1) show ?thesis by (auto simp: handle_revoke_certificate_def split: if_splits option.splits)
next
  case False
  then obtain cid rq where c: "can_issue_certificates (he_authorization env) i"
    and cid: "certificate_id_from_revoke_path env path = Some cid"
    and rq: "(if body = [] then Some None else he_revoke_body env body) = Some rq" by auto
  let ?reason = "case rq of None \<Rightarrow> ''revoked by operator'' | Some r \<Rightarrow> r"
  obtain s' w' q where rv: "store_revoke (he_serde env) (hf_revoke_now fr) cid ?reason
      (sv_store (hs_service st)) (sv_fs (hs_service st)) = ((s', w'), q)"
    by (metis prod.collapse)
  let ?sv = "(hs_service st)\<lparr>sv_store := s', sv_fs := w'\<rparr>"
  have s: "served (he_serde env) (he_data_dir env) {} (hs_service st) ?sv" by (rule served_revoke[OF rv assms(2)])
  have rf: "served (he_serde env) (he_data_dir env) {} (hs_service st) ((hs_service st)\<lparr>sv_store := s', sv_fs := w''\<rparr>)"
    if "acceptor_refresh (he_rustls env) (he_signer env) (int_issuer (he_ca env)) (he_data_dir env)
      (hf_crl fr) s' w' (hs_acceptor st) = Done ((w'', m), x)" for w'' m x
    using served_refresh[of "he_rustls env" "he_signer env" "int_issuer (he_ca env)" "he_data_dir env" "hf_crl fr" ?sv,
        OF _ s assms(2)] that by simp
  note h = assms(1)[unfolded handle_revoke_certificate_def Let_def cid option.case rq rv prod.case]
  from h c s show ?thesis
    by (auto split: sum.splits option.splits may_panic.splits prod.splits dest!: rf)
qed

lemma served_connection:
  assumes "handle_connection env fr i bs st = Done (st', out)"
    and "store_get (sv_store (hs_service st)) (if_record_id (hf_issue fr)) = None"
    and "st_path (sv_store (hs_service st)) = store_file (he_data_dir env)"
  shows "served (he_serde env) (he_data_dir env) {if_record_id (hf_issue fr)} (hs_service st) (hs_service st')"
proof -
  let ?served = "served (he_serde env) (he_data_dir env) {if_record_id (hf_issue fr)} (hs_service st) (hs_service st')"
  have "?served" if r: "route env fr i meth path body st = Done (st', out)" for meth path body
  proof (cases rule: route_cases[where env = env and fr = fr and i = i and meth = meth and path = path
        and body = body and st = st])
    case issue
    with r have "handle_issue env fr i body st = (st', out)" by simp
    then show ?thesis
      by (auto simp: handle_issue_def Let_def split: option.splits prod.splits sum.splits
          dest: served_issue[OF _ assms(2,3)])
  next
    case revoke
    with r have "handle_revoke_certificate env fr i path body st = Done (st', out)" by simp
    from served_mono[OF served_handle_revoke[OF this assms(3)]] show ?thesis by simp
  qed (use r in auto)
  then show ?thesis using assms(1)
    by (auto simp: handle_connection_def Let_def split: if_splits http_parse.splits)
qed

lemma served_one:
  assumes "serve_connection env tr hk c st = Done (st', o1)"
    and "store_get (sv_store (hs_service st)) (if_record_id (hf_issue (cn_fresh c))) = None"
    and "st_path (sv_store (hs_service st)) = store_file (he_data_dir env)"
  shows "served (he_serde env) (he_data_dir env) {if_record_id (hf_issue (cn_fresh c))} (hs_service st) (hs_service st')"
proof -
  have "st' = st \<or> (\<exists>i out. handle_connection env (cn_fresh c) i (cn_request c) st = Done (st', out))"
    using assms(1) by (auto simp: serve_connection_def split: handshake.splits option.splits list.splits may_panic.splits)
  then show ?thesis using served_connection[OF _ assms(2,3)] by auto
qed

lemma fresh_ids_grows:
  assumes "fresh_ids events s" and "grows ids s s'" and "ids \<inter> set (event_ids events) = {}"
  shows "fresh_ids events s'"
  using assms by (auto simp: fresh_ids_def grows_def)

lemma served_loop:
  assumes "accept_loop env tr hk events st = Done (st', os, e)" and "fresh_ids events (sv_store (hs_service st))"
    and "st_path (sv_store (hs_service st)) = store_file (he_data_dir env)"
  shows "served (he_serde env) (he_data_dir env) (set (event_ids events)) (hs_service st) (hs_service st')"
  using assms
proof (induction events arbitrary: st os)
  case (Cons x events)
  show ?case
  proof (cases x)
    case (Accept c)
    let ?i = "if_record_id (hf_issue (cn_fresh c))"
    obtain st1 o1 os' where s: "serve_connection env tr hk c st = Done (st1, o1)"
      and l: "accept_loop env tr hk events st1 = Done (st', os', e)"
      using Cons.prems(1) Accept by (auto split: may_panic.splits prod.splits)
    have n: "store_get (sv_store (hs_service st)) ?i = None" "?i \<notin> set (event_ids events)"
      "fresh_ids events (sv_store (hs_service st))"
      using Cons.prems(2) Accept by (simp_all add: fresh_ids_def)
    note s1 = served_one[OF s n(1) Cons.prems(3)]
    then have g: "grows {?i} (sv_store (hs_service st)) (sv_store (hs_service st1))" by (simp add: served_def)
    have "served (he_serde env) (he_data_dir env) (set (event_ids events)) (hs_service st1) (hs_service st')"
      using fresh_ids_grows[OF n(3) g] n(2) g Cons.prems(3) by (intro Cons.IH[OF l]) (simp_all add: grows_def)
    from served_trans[OF s1 this Cons.prems(3)] show ?thesis using Accept by simp
  qed (use Cons.prems in auto)
qed simp

end
