(* ===== verification/Restart.thy ===== *)
theory Restart
  imports Boot_Props Serve_Disk
begin

text \<open>
  A start of the server on what an earlier one has left, whatever fails while it starts. The one
  exception is the seven existence tests: \<open>Path::exists\<close> reports an I/O error as absence, and
  what the start does then is in \<open>Boot_Props\<close>. With the tests working, a start either stops and
  leaves the files as they are, or it comes up with the same authority and with the store that
  the file holds.
\<close>

section \<open>The plan of faults along the start\<close>

definition plan_at :: "fault list \<Rightarrow> nat \<Rightarrow> fault" where
  "plan_at plan n = (if n < length plan then plan ! n else NoFault)"

abbreviation fault_at :: "fs \<Rightarrow> nat \<Rightarrow> fault" where
  "fault_at w \<equiv> plan_at (fs_faults w)"

text \<open>The places of the seven tests among the calls: after creating the directory, two for each
  pair, followed by two reads, and one for the store.\<close>

definition start_tests_work :: "fault list \<Rightarrow> bool" where
  "start_tests_work plan = list_all (\<lambda>n. plan_at plan n = NoFault) [1, 2, 5, 6, 9, 10, 13]"

lemma next_fault_faults: "next_fault w = (f, w') \<Longrightarrow> f = fault_at w 0 \<and> fs_faults w' = drop 1 (fs_faults w)"
  by (auto simp: next_fault_def plan_at_def split: list.splits)

lemma plan_at_drop [simp]: "plan_at (drop k plan) n = plan_at plan (k + n)"
  by (auto simp: plan_at_def)

lemma tests_work_at: "tests_work w \<longleftrightarrow> fault_at w 0 = NoFault \<and> fault_at w 1 = NoFault"
  by (auto simp: tests_work_def next_fault_def plan_at_def split: list.split)

lemma call_faults:
  "fs_exists p w = (w', x) \<Longrightarrow> fs_faults w' = drop 1 (fs_faults w)"
  "fs_read_to_string p w = (w', y) \<Longrightarrow> fs_faults w' = drop 1 (fs_faults w)"
  "fs_create_dir_all p w = (w', z) \<Longrightarrow> fs_faults w' = drop 1 (fs_faults w)"
  using next_fault_faults[of w]
  by (auto simp: fs_exists_def fs_read_to_string_def fs_create_dir_all_def split: prod.splits)

section \<open>Loading a pair that is there\<close>

lemma as_bytes_inj [simp]: "as_bytes s = as_bytes t \<longleftrightarrow> s = t"
  by (metis bytes_str_as_bytes)

lemma load_present:
  assumes "load_or_create cp kp inc load create w = (w', r)" and "tests_work w"
    and "file_at w cp \<noteq> None" and "file_at w kp \<noteq> None"
  shows "file_at w' = file_at w \<and>
    (\<forall>v. r = Inr v \<longrightarrow> fs_faults w' = drop 4 (fs_faults w) \<and>
       (\<exists>c k. file_at w cp = Some (as_bytes c) \<and> file_at w kp = Some (as_bytes k) \<and> load c k = Inr v))"
proof -
  obtain w1 c where e1: "fs_exists cp w = (w1, c)" by (cases "fs_exists cp w")
  obtain w2 k where e2: "fs_exists kp w1 = (w2, k)" by (cases "fs_exists kp w1")
  have f: "file_at w2 = file_at w" using fs_exists_at[OF e1] fs_exists_at[OF e2] by simp
  have d: "fs_faults w2 = drop 2 (fs_faults w)"
    using call_faults(1)[OF e1] call_faults(1)[OF e2] by (simp add: numeral_2_eq_2)
  have ck: "c" "k" using load_or_create_tests[OF assms(2) e1 e2] assms(3,4) by simp_all
  obtain w3 x where r1: "fs_read_to_string cp w2 = (w3, x)" by (cases "fs_read_to_string cp w2")
  obtain w4 y where r2: "fs_read_to_string kp w3 = (w4, y)" by (cases "fs_read_to_string kp w3")
  have at: "file_at w3 = file_at w" "file_at w4 = file_at w" using fs_read_at[OF r1] fs_read_at[OF r2] f by simp_all
  have "fs_faults w4 = drop 4 (fs_faults w)"
    using call_faults(2)[OF r1] call_faults(2)[OF r2] d by (simp add: eval_nat_numeral)
  then show ?thesis using assms(1) fs_read_ok at f r1 r2
    by (cases x; cases y) (auto simp: load_or_create_def e1 e2 ck dest!: fs_read_ok)
qed

text \<open>Loaded again, a pair gives what it gave, as far as loading sees what creating wrote.\<close>

lemma load_same:
  assumes first: "load_or_create cp kp inc load create w = (w1, Inr v)" and "cp \<noteq> kp"
    and round: "\<And>c k. create = Inr (v, c, k) \<Longrightarrow> \<exists>v'. load c k = Inr v' \<and> view v' = view v"
    and later: "load_or_create cp kp inc load create' u = (u', Inr v')" and t: "tests_work u"
    and s: "file_at u cp = file_at w1 cp" "file_at u kp = file_at w1 kp"
  shows "view v' = view v \<and> file_at u' = file_at u \<and> fs_faults u' = drop 4 (fs_faults u)"
proof -
  obtain c k where ck: "file_at w1 cp = Some (as_bytes c)" "file_at w1 kp = Some (as_bytes k)"
    and l: "\<exists>v0. load c k = Inr v0 \<and> view v0 = view v"
    using load_or_create_ok[OF first] round assms(2) by auto
  have p: "file_at u' = file_at u" "fs_faults u' = drop 4 (fs_faults u)"
    "\<exists>c k. file_at u cp = Some (as_bytes c) \<and> file_at u kp = Some (as_bytes k) \<and> load c k = Inr v'"
    using load_present[OF later t] ck s by simp_all
  have "load c k = Inr v'" using p(3) ck s by auto
  with l p ck s show ?thesis by auto
qed

section \<open>The stages of a start\<close>

lemma root_same:
  assumes pf: "pem_faithful rc" and first: "load_or_create_root (rc\<lparr>rc_generate := g\<rparr>) d w = (w1, Inr r)"
    and later: "load_or_create_root (rc\<lparr>rc_generate := g'\<rparr>) d u = (u', Inr r')" and t: "tests_work u"
    and s: "file_at u (path_join d ''root-ca.pem'') = file_at w1 (path_join d ''root-ca.pem'')"
      "file_at u (path_join d ''root-ca-key.pem'') = file_at w1 (path_join d ''root-ca-key.pem'')"
  shows "fs_faults u' = drop 4 (fs_faults u)"
proof -
  have "\<exists>v'. map_err BootLoadRoot (root_from_pem rc c k) = Inr v' \<and> root_cert_pem v' = root_cert_pem r"
    if "map_err BootGenerateRoot (map_sum id (\<lambda>r. (r, root_cert_pem r,
          root_private_key_pem (rc\<lparr>rc_generate := g\<rparr>) r))
        (root_generate (rc\<lparr>rc_generate := g\<rparr>) ''Daemon PKI Root CA'')) = Inr (r, c, k)" for c k
    using that root_reloads[of "rc\<lparr>rc_generate := g\<rparr>"] pf by (auto simp: result_simps)
  from load_same[OF first[unfolded load_or_create_eqs] _ this later[unfolded load_or_create_eqs] t s] show ?thesis
    by simp
qed

lemma intermediate_same:
  assumes pf: "pem_faithful rc"
    and first: "load_or_create_intermediate (rc\<lparr>rc_generate := g\<rparr>) d root w = (w1, Inr i)"
    and later: "load_or_create_intermediate (rc\<lparr>rc_generate := g'\<rparr>) d root' u = (u', Inr i')" and t: "tests_work u"
    and s: "file_at u (path_join d ''intermediate-ca.pem'') = file_at w1 (path_join d ''intermediate-ca.pem'')"
      "file_at u (path_join d ''intermediate-ca-key.pem'') = file_at w1 (path_join d ''intermediate-ca-key.pem'')"
  shows "(int_cert_pem i', int_cert_der i', intermediate_private_key_pem rc i') =
      (int_cert_pem i, int_cert_der i, intermediate_private_key_pem rc i) \<and> fs_faults u' = drop 4 (fs_faults u)"
proof -
  let ?view = "\<lambda>i. (int_cert_pem i, int_cert_der i, intermediate_private_key_pem rc i)"
  have "\<exists>v'. map_err BootLoadIntermediate (intermediate_from_pem rc c k) = Inr v' \<and> ?view v' = ?view i"
    if "map_err BootGenerateIntermediate (map_sum id (\<lambda>i. (i, int_cert_pem i,
          intermediate_private_key_pem (rc\<lparr>rc_generate := g\<rparr>) i))
        (intermediate_generate (rc\<lparr>rc_generate := g\<rparr>) root ''Daemon PKI Workload CA'')) = Inr (i, c, k)" for c k
    using that intermediate_reloads[of "rc\<lparr>rc_generate := g\<rparr>"] pf by (auto simp: result_simps)
  from load_same[OF first[unfolded load_or_create_eqs] _ this later[unfolded load_or_create_eqs from_pem_generate] t s]
  show ?thesis by simp
qed

text \<open>A pair that is there is left alone, whatever becomes of the call.\<close>

lemma pairs_kept:
  assumes "tests_work u"
  shows "file_at u (path_join d ''root-ca.pem'') \<noteq> None \<Longrightarrow> file_at u (path_join d ''root-ca-key.pem'') \<noteq> None \<Longrightarrow>
      file_at (fst (load_or_create_root rc d u)) = file_at u"
    and "file_at u (path_join d ''intermediate-ca.pem'') \<noteq> None \<Longrightarrow>
      file_at u (path_join d ''intermediate-ca-key.pem'') \<noteq> None \<Longrightarrow>
      file_at (fst (load_or_create_intermediate rc d root u)) = file_at u"
    and "file_at u (path_join d ''server-cert.pem'') \<noteq> None \<Longrightarrow> file_at u (path_join d ''server-key.pem'') \<noteq> None \<Longrightarrow>
      file_at (fst (load_or_create_server_certificate rc d ic u)) = file_at u"
  unfolding load_or_create_eqs using load_or_create_keeps[OF assms] by blast+

lemma server_pair_faults:
  assumes "load_or_create_server_certificate rc d ic u = (u', Inr ck)" and "tests_work u"
    and "file_at u (path_join d ''server-cert.pem'') \<noteq> None" and "file_at u (path_join d ''server-key.pem'') \<noteq> None"
  shows "fs_faults u' = drop 4 (fs_faults u)"
  using load_present[OF assms(1)[unfolded load_or_create_eqs] assms(2-4)] by blast

text \<open>A server that became ready has all six files.\<close>

lemma pair_there: "load_or_create cp kp inc load create w = (w', Inr v) \<Longrightarrow> file_at w' cp \<noteq> None \<and> file_at w' kp \<noteq> None"
  by (drule load_or_create_ok) auto

lemma ready_pems:
  assumes "server_start env fr bv w = Done (w', Inr r)" and "p \<in> pem_paths (boot_dir bv)"
  shows "file_at w' p \<noteq> None"
proof (rule server_start_ready[OF assms(1)], goal_cases)
  case (1 w1 w2 w3 w4 w5)
  from ready_files[OF 1(3-7)] pair_there[OF 1(3)[unfolded load_or_create_eqs]]
    pair_there[OF 1(4)[unfolded load_or_create_eqs]] pair_there[OF 1(5)[unfolded load_or_create_eqs]] assms(2)
  show ?case by (auto simp: pem_paths_def)
qed

text \<open>Opening a store whose file is there and whose test works.\<close>

lemma open_present:
  assumes "store_open sd p w = (w', Inr s)" and "fault_at w 0 = NoFault" and "file_at w p = Some (as_bytes t)"
  shows "st_path s = p \<and> (trim t = [] \<and> st_records s = hm_empty \<or> sd_from_str sd t = Inr (st_records s))"
proof -
  obtain w1 where n: "next_fault w = (NoFault, w1)"
    using assms(2) next_fault_faults[of w] by (cases "next_fault w") auto
  have at: "file_at w1 = file_at w" using next_fault_at[of w] n by simp
  then have e: "fs_exists p w = (w1, True)" using n assms(3) file_at_files[OF at, of p]
    by (simp add: fs_exists_def hm_contains_def)
  obtain w2 x where r: "fs_read_to_string p w1 = (w2, x)" by (cases "fs_read_to_string p w1")
  show ?thesis using assms(1,3) at fs_read_ok[of p w1 w2]
    by (cases x) (auto simp: store_open_def e r split: if_splits sum.splits)
qed

section \<open>A later start\<close>

definition same_authority :: "('key, 'iss) rcgen \<Rightarrow> 'iss intermediate_ca \<Rightarrow> 'iss intermediate_ca \<Rightarrow> bool" where
  "same_authority rc a b =
     (int_cert_pem a = int_cert_pem b \<and> int_cert_der a = int_cert_der b \<and>
      intermediate_private_key_pem rc a = intermediate_private_key_pem rc b)"

text \<open>The disk as a server that had become ready left it: its six PEM files are untouched.\<close>

definition pems_as :: "path \<Rightarrow> fs \<Rightarrow> fs \<Rightarrow> bool" where
  "pems_as dir w u = (\<forall>p \<in> pem_paths dir. file_at w p \<noteq> None \<and> file_at u p = file_at w p)"

lemma pems_as_files:
  assumes "pems_as dir w u"
  shows "file_at u (path_join dir ''root-ca.pem'') \<noteq> None" "file_at u (path_join dir ''root-ca-key.pem'') \<noteq> None"
    "file_at u (path_join dir ''intermediate-ca.pem'') \<noteq> None" "file_at u (path_join dir ''intermediate-ca-key.pem'') \<noteq> None"
    "file_at u (path_join dir ''server-cert.pem'') \<noteq> None" "file_at u (path_join dir ''server-key.pem'') \<noteq> None"
  using assms by (simp_all add: pems_as_def pem_paths_def)

lemma pems_as_cong: "pems_as dir w u \<Longrightarrow> \<forall>p \<in> pem_paths dir. file_at u' p = file_at u p \<Longrightarrow> pems_as dir w u'"
  by (simp add: pems_as_def)

text \<open>What the first stages of a later start do to the files, and to the plan where they succeed.\<close>

lemma stages_later:
  assumes pf: "pem_faithful rc" and t: "start_tests_work (fs_faults u)" and k: "pems_as d w u"
    and r0: "load_or_create_root (rc\<lparr>rc_generate := k1\<rparr>) d v1 = (v2, Inr root0)"
    and i0: "load_or_create_intermediate (rc\<lparr>rc_generate := k2\<rparr>) d root0 v2 = (v3, Inr ic0)"
    and v2: "\<forall>p \<in> {path_join d ''root-ca.pem'', path_join d ''root-ca-key.pem''}. file_at w p = file_at v2 p"
    and v3: "\<forall>p \<in> {path_join d ''intermediate-ca.pem'', path_join d ''intermediate-ca-key.pem''}. file_at w p = file_at v3 p"
    and c: "fs_create_dir_all d u = (u1, z)"
    and r: "load_or_create_root (rc\<lparr>rc_generate := l1\<rparr>) d u1 = (u2, x)"
  shows "file_at u1 = file_at u \<and> file_at u2 = file_at u \<and>
    (\<forall>root u3 y. x = Inr root \<longrightarrow> load_or_create_intermediate (rc\<lparr>rc_generate := l2\<rparr>) d root u2 = (u3, y) \<longrightarrow>
       file_at u3 = file_at u \<and>
       (\<forall>ic u4 ck. y = Inr ic \<longrightarrow> load_or_create_server_certificate (rc\<lparr>rc_generate := l3\<rparr>) d ic u3 = (u4, ck) \<longrightarrow>
          same_authority rc ic ic0 \<and> file_at u4 = file_at u \<and> (\<forall>v. ck = Inr v \<longrightarrow> fault_at u4 0 = NoFault)))"
proof -
  have a1: "file_at u1 = file_at u" using file_at_create_dir[of d u] c by simp
  have d1: "fs_faults u1 = drop 1 (fs_faults u)" by (rule call_faults(3)[OF c])
  have t1: "tests_work u1" using t by (simp add: tests_work_at d1 start_tests_work_def numeral_2_eq_2)
  note k1 = pems_as_files[OF k, folded a1]
  have a2: "file_at u2 = file_at u" using pairs_kept(1)[OF t1 k1(1,2)] r a1 by (metis fst_conv)
  note k2 = pems_as_files[OF k, folded a2]
  have two: "file_at u3 = file_at u \<and>
       (\<forall>ic u4 ck. y = Inr ic \<longrightarrow> load_or_create_server_certificate (rc\<lparr>rc_generate := l3\<rparr>) d ic u3 = (u4, ck) \<longrightarrow>
          same_authority rc ic ic0 \<and> file_at u4 = file_at u \<and> (\<forall>v. ck = Inr v \<longrightarrow> fault_at u4 0 = NoFault))"
    if x: "x = Inr root" and i: "load_or_create_intermediate (rc\<lparr>rc_generate := l2\<rparr>) d root u2 = (u3, y)" for root u3 y
  proof -
    have eq1: "file_at u1 p = file_at v2 p" if "p \<in> {path_join d ''root-ca.pem'', path_join d ''root-ca-key.pem''}" for p
      using k v2 that a1 by (auto simp: pems_as_def pem_paths_def)
    have "fs_faults u2 = drop 4 (fs_faults u1)"
      using root_same[OF pf r0 r[unfolded x] t1] eq1 by simp
    then have d2: "fs_faults u2 = drop 5 (fs_faults u)" using d1 by simp
    then have t2: "tests_work u2" using t by (simp add: tests_work_at d2 start_tests_work_def)
    have a3: "file_at u3 = file_at u" using pairs_kept(2)[OF t2 k2(3,4)] i a2 by (metis fst_conv)
    note k3 = pems_as_files[OF k, folded a3]
    have three: "same_authority rc ic ic0 \<and> file_at u4 = file_at u \<and> (\<forall>v. ck = Inr v \<longrightarrow> fault_at u4 0 = NoFault)"
      if y: "y = Inr ic" and s: "load_or_create_server_certificate (rc\<lparr>rc_generate := l3\<rparr>) d ic u3 = (u4, ck)" for ic u4 ck
    proof -
      have eq2: "file_at u2 p = file_at v3 p"
        if "p \<in> {path_join d ''intermediate-ca.pem'', path_join d ''intermediate-ca-key.pem''}" for p
        using k v3 that a2 by (auto simp: pems_as_def pem_paths_def)
      have i': "same_authority rc ic ic0" "fs_faults u3 = drop 4 (fs_faults u2)"
        using intermediate_same[OF pf i0 i[unfolded y] t2] eq2 by (simp_all add: same_authority_def)
      then have d3: "fs_faults u3 = drop 9 (fs_faults u)" using d2 by simp
      then have t3: "tests_work u3" using t by (simp add: tests_work_at d3 start_tests_work_def)
      have a4: "file_at u4 = file_at u" using pairs_kept(3)[OF t3 k3(5,6)] s a3 by (metis fst_conv)
      have "fault_at u4 0 = NoFault" if v: "ck = Inr v" for v
      proof -
        have "fs_faults u4 = drop 13 (fs_faults u)" using server_pair_faults[OF s[unfolded v] t3 k3(5,6)] d3 by simp
        then show ?thesis using t by (simp add: start_tests_work_def)
      qed
      with i'(1) a4 show ?thesis by blast
    qed
    with a3 show ?thesis by blast
  qed
  from a1 a2 two show ?thesis by blast
qed

lemma later_start_files:
  assumes pf: "pem_faithful (he_rcgen env)" and a: "server_start env fr bv w0 = Done (w, Inr r)"
    and t: "start_tests_work (fs_faults u)" and k: "pems_as (boot_dir bv) w u" and d: "boot_dir bv' = boot_dir bv"
    and b: "server_start env fr' bv' u = Done (u', x)"
    and q: "q \<noteq> crl_number_path (boot_dir bv)" "q \<noteq> crl_der_path (boot_dir bv)"
  shows "file_at u' q = file_at u q"
proof (rule server_start_ready[OF a], goal_cases)
  case (1 w1 w2 w3 w4 w5 root0 ic0)
  let ?d = "boot_dir bv" and ?rc = "he_rcgen env"
  note rf = ready_files[OF 1(3-7)]
  obtain u1 z where c: "fs_create_dir_all ?d u = (u1, z)" by (cases "fs_create_dir_all ?d u")
  obtain u2 y where r: "load_or_create_root (?rc\<lparr>rc_generate := bf_root_key fr'\<rparr>) ?d u1 = (u2, y)"
    by (cases "load_or_create_root (?rc\<lparr>rc_generate := bf_root_key fr'\<rparr>) ?d u1")
  note st = stages_later[OF pf t k 1(3,4) rf[THEN conjunct1] rf[THEN conjunct2, THEN conjunct1] c r]
  have i: "file_at u3 = file_at u" if "y = Inr root"
    "load_or_create_intermediate (?rc\<lparr>rc_generate := bf_intermediate_key fr'\<rparr>) ?d root u2 = (u3, m)" for root u3 m
    using st that by blast
  have s: "file_at u4 = file_at u" if "y = Inr root"
    "load_or_create_intermediate (?rc\<lparr>rc_generate := bf_intermediate_key fr'\<rparr>) ?d root u2 = (u3, Inr ic)"
    "load_or_create_server_certificate (?rc\<lparr>rc_generate := bf_server_key fr'\<rparr>) ?d ic u3 = (u4, ck)" for root u3 ic u4 ck
    using st that by blast
  have o: "file_at u5 = file_at u4" if "store_open (he_serde env) p u4 = (u5, m)" for p u4 u5 m
    using file_at_open[of "he_serde env" p u4] that by simp
  have g: "file_at u6 q = file_at u5 q"
    if "generate_and_persist (he_signer env) iss ?d v n n' so u5 = Done (u6, m)" for iss v n n' so u5 u6 m
    by (rule generate_other[OF that q])
  from st b show ?case
    by (auto simp: server_start_def Let_def d c r split: prod.splits sum.splits may_panic.splits
        dest: i s dest!: o g)
qed

lemma later_start_ready:
  assumes pf: "pem_faithful (he_rcgen env)" and a: "server_start env fr bv w0 = Done (w, Inr r)"
    and t: "start_tests_work (fs_faults u)" and k: "pems_as (boot_dir bv) w u" and d: "boot_dir bv' = boot_dir bv"
    and b: "server_start env fr' bv' u = Done (u', Inr r')"
    and f: "file_at u (store_file (boot_dir bv)) = Some (as_bytes tx)"
  shows "same_authority (he_rcgen env) (he_ca (sr_env r')) (he_ca (sr_env r))"
    and "st_path (sv_store (hs_service (sr_state r'))) = store_file (boot_dir bv)"
    and "trim tx = [] \<and> st_records (sv_store (hs_service (sr_state r'))) = hm_empty \<or>
      sd_from_str (he_serde env) tx = Inr (st_records (sv_store (hs_service (sr_state r'))))"
proof -
  let ?s = "sv_store (hs_service (sr_state r'))"
  have "same_authority (he_rcgen env) (he_ca (sr_env r')) (he_ca (sr_env r)) \<and> st_path ?s = store_file (boot_dir bv) \<and>
    (trim tx = [] \<and> st_records ?s = hm_empty \<or> sd_from_str (he_serde env) tx = Inr (st_records ?s))"
  proof (rule server_start_ready[OF a], rule server_start_ready[OF b], goal_cases)
    case (1 w1 w2 w3 w4 w5 root ic cert key s der cfg v1 v2 v3 v4 v5 root' ic' cert' key' s')
    note rf = ready_files[OF 1(3-7)]
    note st = stages_later[OF pf t k 1(3,4) rf[THEN conjunct1] rf[THEN conjunct2, THEN conjunct1] 1(11)[unfolded d] 1(12)[unfolded d]]
    from st 1(13,14)[unfolded d] have ic: "same_authority (he_rcgen env) ic' ic" "file_at v4 = file_at u" "fault_at v4 0 = NoFault"
      by blast+
    from open_present[OF 1(15)[unfolded d] ic(3)] f ic(2) show ?case
      using ic(1) by (simp add: 1(9,18) store_file_def)
  qed
  then show "same_authority (he_rcgen env) (he_ca (sr_env r')) (he_ca (sr_env r))"
    and "st_path ?s = store_file (boot_dir bv)"
    and "trim tx = [] \<and> st_records ?s = hm_empty \<or> sd_from_str (he_serde env) tx = Inr (st_records ?s)" by blast+
qed

end
