(* ===== verification/System.thy ===== *)
theory System
  imports Restart
begin

text \<open>
  The server over its whole life: it is started, serves connections, is stopped or crashes, and is
  started again on the files it has left, any number of times, with whatever I/O faults while it
  starts and while it serves. A crash is a plan of faults whose later calls all fail: nothing
  reaches the disk any more, and the state in memory is lost at the next start anyway.
\<close>

section \<open>Lifetimes\<close>

text \<open>One run of the program: \<open>main\<close> of \<open>bin/server.rs\<close>, with what it reads from outside.\<close>

record ('key, 'peer) lifetime =
  lf_fresh :: "'key boot_fresh"
  lf_vars :: boot_vars
  lf_faults :: "fault list"
  lf_bound :: "io_error + unit"
  lf_events :: "'peer accept list"

definition run_lifetime ::
  "('key, 'iss, 'c, 'k) http_env \<Rightarrow> 'x client_reader \<Rightarrow> ('k tls_config \<Rightarrow> 'peer \<Rightarrow> handshake)
   \<Rightarrow> ('key, 'peer) lifetime \<Rightarrow> fs \<Rightarrow> (fs \<times> task_outcome list) may_panic" where
  "run_lifetime env tr hk l w =
     (case server_start env (lf_fresh l) (lf_vars l) (w\<lparr>fs_faults := lf_faults l\<rparr>) of
        Panic \<Rightarrow> Panic
      | Done (w', Inl e) \<Rightarrow> Done (w', [])
      | Done (w', Inr r) \<Rightarrow>
          (case http_run (sr_env r) tr hk (lf_bound l) (lf_events l) (sr_state r) of
             Panic \<Rightarrow> Panic
           | Done (st, os, _) \<Rightarrow> Done (sv_fs (hs_service st), os)))"

fun run_lifetimes ::
  "('key, 'iss, 'c, 'k) http_env \<Rightarrow> 'x client_reader \<Rightarrow> ('k tls_config \<Rightarrow> 'peer \<Rightarrow> handshake)
   \<Rightarrow> ('key, 'peer) lifetime list \<Rightarrow> fs \<Rightarrow> (fs \<times> task_outcome list) may_panic" where
  "run_lifetimes env tr hk [] w = Done (w, [])"
| "run_lifetimes env tr hk (l # ls) w =
     (case run_lifetime env tr hk l w of
        Panic \<Rightarrow> Panic
      | Done (w', os) \<Rightarrow>
          (case run_lifetimes env tr hk ls w' of
             Panic \<Rightarrow> Panic | Done (w'', os') \<Rightarrow> Done (w'', os @ os')))"

text \<open>No lifetime panics, as long as what \<open>serde_json\<close> reads has ASCII serial numbers.\<close>

definition reads_ascii :: "serde \<Rightarrow> bool" where
  "reads_ascii sd = (\<forall>t m. sd_from_str sd t = Inr m \<longrightarrow> (\<forall>r \<in> set (hm_values m). ascii (cr_serial_number r)))"

lemma opened_ascii:
  assumes "reads_ascii sd" and "store_open sd p w = (w', Inr s)"
  shows "ascii_serials s"
proof -
  have "st_records s = hm_empty \<or> (\<exists>t. sd_from_str sd t = Inr (st_records s))"
    using assms(2) by (auto simp: store_open_def split: prod.splits if_splits sum.splits)
  then show ?thesis using assms(1) by (auto simp: ascii_serials_def reads_ascii_def hm_values_def hm_empty_def)
qed

lemma start_done:
  assumes "reads_ascii (he_serde env)"
  shows "\<exists>w' q. server_start env fr bv w = Done (w', q) \<and> (\<forall>r. q = Inr r \<longrightarrow> ascii_serials (sv_store (hs_service (sr_state r))))"
  using generate_no_panic opened_ascii[OF assms]
  by (fastforce simp: server_start_def Let_def split: prod.split sum.split may_panic.split)

lemma lifetime_done:
  assumes "reads_ascii (he_serde env)"
  shows "\<exists>w' os. run_lifetime env tr hk l w = Done (w', os)"
proof -
  obtain u q where u: "server_start env (lf_fresh l) (lf_vars l) (w\<lparr>fs_faults := lf_faults l\<rparr>) = Done (u, q)"
    "\<And>r. q = Inr r \<Longrightarrow> ascii_serials (sv_store (hs_service (sr_state r)))"
    using start_done[OF assms] by blast
  show ?thesis
  proof (cases q)
    case (Inr r)
    obtain st os e where "accept_loop (sr_env r) tr hk (lf_events l) (sr_state r) = Done (st, os, e)"
      using accept_loop_done[OF u(2)[OF Inr], where events = "lf_events l"] by blast
    with u(1) Inr show ?thesis by (cases "lf_bound l") (simp_all add: run_lifetime_def http_run_def)
  qed (simp add: run_lifetime_def u)
qed

lemma lifetimes_done: "reads_ascii (he_serde env) \<Longrightarrow> \<exists>w' os. run_lifetimes env tr hk ls w = Done (w', os)"
proof (induction ls arbitrary: w)
  case (Cons l ls)
  obtain w1 os1 where "run_lifetime env tr hk l w = Done (w1, os1)" using lifetime_done[OF Cons.prems] by blast
  with Cons.IH[OF Cons.prems, of w1] show ?case by auto
qed simp

section \<open>A record in memory and on disk\<close>

definition holds :: "path \<Rightarrow> uuid \<Rightarrow> (certificate_record \<Rightarrow> bool) \<Rightarrow> uuid set \<Rightarrow> certificate_store \<Rightarrow> bool" where
  "holds dir i P unused s =
     (st_path s = store_file dir \<and> store_ok s \<and> has_record i P s \<and> (\<forall>j \<in> unused. store_get s j = None))"

definition on_disk ::
  "serde \<Rightarrow> path \<Rightarrow> uuid \<Rightarrow> (certificate_record \<Rightarrow> bool) \<Rightarrow> uuid set \<Rightarrow> fs \<Rightarrow> bool" where
  "on_disk sd dir i P unused w = (\<exists>s. has_text sd w s \<and> holds dir i P unused s)"

lemma holds_mono: "holds dir i P a s \<Longrightarrow> b \<subseteq> a \<Longrightarrow> holds dir i P b s"
  by (auto simp: holds_def)

lemma on_disk_mono: "on_disk sd dir i P a w \<Longrightarrow> b \<subseteq> a \<Longrightarrow> on_disk sd dir i P b w"
  unfolding on_disk_def using holds_mono by blast

lemma grows_holds:
  assumes "grows ids s s'" and "holds dir i P unused s" and "stable P" and "ids \<inter> unused = {}"
  shows "holds dir i P unused s'"
proof -
  have "store_step\<^sup>*\<^sup>* s s'" "store_ok s" "has_record i P s" using assms(1,2) by (simp_all add: grows_def holds_def)
  from has_record_steps[OF this assms(3)] assms show ?thesis by (auto simp: grows_def holds_def)
qed

lemma on_disk_file:
  "on_disk sd dir i P unused w \<Longrightarrow> file_at w' (store_file dir) = file_at w (store_file dir) \<Longrightarrow> on_disk sd dir i P unused w'"
  unfolding on_disk_def has_text_def holds_def by metis

lemma served_on_disk:
  assumes "served sd dir ids sv sv'" and "holds dir i P unused (sv_store sv)" and "on_disk sd dir i P unused (sv_fs sv)"
    and "stable P" and "ids \<inter> unused = {}"
  shows "holds dir i P unused (sv_store sv')" and "on_disk sd dir i P unused (sv_fs sv')"
proof -
  show "holds dir i P unused (sv_store sv')"
    using assms(1) grows_holds[OF _ assms(2,4,5)] by (simp add: served_def)
  have "on_disk sd dir i P unused (sv_fs sv')" if "grows ids (sv_store sv) s" "has_text sd (sv_fs sv') s" for s
    using grows_holds[OF that(1) assms(2,4,5)] that(2) by (auto simp: on_disk_def)
  then show "on_disk sd dir i P unused (sv_fs sv')"
    using assms(1) on_disk_file[OF assms(3)] unfolding served_def by blast
qed

lemma served_pems:
  assumes "served sd dir ids sv sv'" and "pems_as dir w (sv_fs sv)"
  shows "pems_as dir w (sv_fs sv')"
proof -
  have "p \<notin> served_files dir" if "p \<in> pem_paths dir" for p
    using that by (auto simp: pem_paths_def served_files_def store_file_def crl_number_path_def crl_der_path_def)
  with assms show ?thesis by (intro pems_as_cong[OF assms(2)]) (simp add: served_def)
qed

text \<open>What \<open>serde_json\<close> documents: whatever it writes it can read back.\<close>

definition serde_faithful :: "serde \<Rightarrow> bool" where
  "serde_faithful sd = (\<forall>m t. sd_to_string_pretty sd m = Inr t \<longrightarrow> serde_round_trips sd m)"

lemma holds_reloaded:
  assumes "serde_faithful sd" and "has_text sd w s" and "holds dir i P unused s"
    and "file_at w (store_file dir) = Some (as_bytes t)" and "st_path s' = store_file dir"
    and "trim t = [] \<and> st_records s' = hm_empty \<or> sd_from_str sd t = Inr (st_records s')"
  shows "holds dir i P unused s'"
proof -
  have t: "sd_to_string_pretty sd (st_records s) = Inr t"
    using assms(2,3,4) by (auto simp: has_text_def holds_def)
  with assms(1) have "serde_round_trips sd (st_records s)" by (auto simp: serde_faithful_def)
  with t assms(6) have rh: "hm_rehash (st_records s) (st_records s')" by (auto simp: serde_round_trips_def)
  have ok: "hm_ok (st_records s)" using assms(3) by (simp add: holds_def store_ok_def)
  then have "store_get s' = store_get s" using hm_rehash_get[OF rh] by (auto simp: store_get_def)
  then show ?thesis using assms(3,5) hm_rehash_ok[OF rh] ok by (simp add: holds_def store_ok_def has_record_def)
qed

section \<open>One lifetime\<close>

text \<open>
  What \<open>rustls\<close> documents for a client verifier with a revocation list, for an authority that was
  reloaded: the handshake of a peer whose certificate was issued by it is refused if a list
  that it signed has the serial number.
\<close>

definition honours_lists ::
  "('key, 'iss, 'c, 'k) http_env \<Rightarrow> ('k tls_config \<Rightarrow> 'peer \<Rightarrow> handshake) \<Rightarrow> bool" where
  "honours_lists env hk =
     (\<forall>(ca :: 'iss intermediate_ca) ca' cfg peer ps key crt parsed cs.
        same_authority (he_rcgen env) ca ca' \<and> rc_signed_by (he_rcgen env) ps key (int_issuer ca') = Inr crt \<and>
        dr_from_der (he_reader env) (crt_der crt) = Inr parsed \<and>
        refuses (env\<lparr>he_ca := ca\<rparr>) cfg (dr_serial_to_bytes_be (he_reader env) parsed) \<longrightarrow>
        hk cfg peer \<noteq> Established (Some (crt_der crt # cs)))"

lemma refuses_cong:
  "he_signer env' = he_signer env \<Longrightarrow> he_ca env' = he_ca env \<Longrightarrow> refuses env' cfg sn = refuses env cfg sn"
  by (simp add: refuses_def)

text \<open>What a running server has of the crates and the directory.\<close>

lemma ready_env:
  assumes "server_start env fr bv w = Done (w', Inr r)"
  shows "he_signer (sr_env r) = he_signer env" "he_serde (sr_env r) = he_serde env"
    "he_rcgen (sr_env r) = he_rcgen env" "he_reader (sr_env r) = he_reader env"
    "he_data_dir (sr_env r) = boot_dir bv" "sv_fs (hs_service (sr_state r)) = w'"
    "st_path (sv_store (hs_service (sr_state r))) = store_file (boot_dir bv)"
proof -
  have "st_path s = p" if "store_open sd p w4 = (w5, Inr s)" for sd p w4 w5 s
    using that by (auto simp: store_open_def split: prod.splits if_splits sum.splits)
  note opened = this
  have "he_signer (sr_env r) = he_signer env \<and> he_serde (sr_env r) = he_serde env \<and>
    he_rcgen (sr_env r) = he_rcgen env \<and> he_reader (sr_env r) = he_reader env \<and>
    he_data_dir (sr_env r) = boot_dir bv \<and> sv_fs (hs_service (sr_state r)) = w' \<and>
    st_path (sv_store (hs_service (sr_state r))) = store_file (boot_dir bv)"
    by (rule server_start_ready[OF assms]) (auto simp: store_file_def dest: opened)
  then show "he_signer (sr_env r) = he_signer env" "he_serde (sr_env r) = he_serde env"
    "he_rcgen (sr_env r) = he_rcgen env" "he_reader (sr_env r) = he_reader env"
    "he_data_dir (sr_env r) = boot_dir bv" "sv_fs (hs_service (sr_state r)) = w'"
    "st_path (sv_store (hs_service (sr_state r))) = store_file (boot_dir bv)" by auto
qed

text \<open>A server that has just become ready refuses what its store has as revoked.\<close>

lemma ready_refuses:
  assumes a: "server_start env fr bv w = Done (w', Inr r)" and "store_get (sv_store (hs_service (sr_state r))) i = Some x"
    and "cr_revoked x" and "cr_serial_number x = hex_of_bytes sn" and "sn \<noteq> []"
  shows "refuses (sr_env r) (acceptor_current (hs_acceptor (sr_state r))) sn"
proof (rule server_start_ready[OF a], goal_cases)
  case (1 w1 w2 w3 w4 w5 root ic cert key s der cfg)
  have "store_get s i = Some x" using assms(2) by (simp add: 1(9))
  from generate_lists[OF 1(7) this assms(3-5)] obtain ps v where
    "he_signer env ps (int_issuer ic) = Inr der \<and> v \<in> set (lp_revoked_certs ps) \<and> rv_serial_number v = SerialBytes sn"
    by blast
  moreover have "tc_crls cfg = [der]" using 1(8) by (auto simp: build_config_ok)
  ultimately show ?case
    unfolding refuses_def by (intro exI[of _ der] exI[of _ ps] exI[of _ v])
      (simp add: 1(9) acceptor_new_def acceptor_current_def)
qed

definition usual_lifetime :: "path \<Rightarrow> ('key, 'peer) lifetime \<Rightarrow> bool" where
  "usual_lifetime dir l = (boot_dir (lf_vars l) = dir \<and> start_tests_work (lf_faults l))"

lemma file_at_plan [simp]: "file_at (w\<lparr>fs_faults := p\<rparr>) = file_at w"
  by (rule ext) (simp add: file_at_def)

text \<open>A server that becomes ready on such a disk has the record in its store.\<close>

lemma later_start_holds:
  assumes pf: "pem_faithful (he_rcgen env)" and sf: "serde_faithful (he_serde env)"
    and a: "server_start env fr bv w0 = Done (w, Inr r0)"
    and t: "start_tests_work (fs_faults u)" and k: "pems_as (boot_dir bv) w u" and bd: "boot_dir bv' = boot_dir bv"
    and d: "on_disk (he_serde env) (boot_dir bv) i P ids u" and b: "server_start env fr' bv' u = Done (u1, Inr r)"
  shows "same_authority (he_rcgen env) (he_ca (sr_env r)) (he_ca (sr_env r0))"
    and "holds (boot_dir bv) i P ids (sv_store (hs_service (sr_state r)))"
proof -
  obtain s0 tx where s0: "has_text (he_serde env) u s0" "holds (boot_dir bv) i P ids s0"
    and tx: "file_at u (store_file (boot_dir bv)) = Some (as_bytes tx)"
    using d by (auto simp: on_disk_def has_text_def holds_def)
  note later = later_start_ready[OF pf a t k bd b tx]
  show "same_authority (he_rcgen env) (he_ca (sr_env r)) (he_ca (sr_env r0))" by (rule later(1))
  show "holds (boot_dir bv) i P ids (sv_store (hs_service (sr_state r)))"
    by (rule holds_reloaded[OF sf s0 tx later(2,3)])
qed

lemma later_start_disk:
  assumes pf: "pem_faithful (he_rcgen env)" and a: "server_start env fr bv w0 = Done (w, Inr r0)"
    and t: "start_tests_work (fs_faults u)" and k: "pems_as (boot_dir bv) w u" and bd: "boot_dir bv' = boot_dir bv"
    and d: "on_disk sd (boot_dir bv) i P ids u" and b: "server_start env fr' bv' u = Done (u1, q)"
  shows "pems_as (boot_dir bv) w u1" and "on_disk sd (boot_dir bv) i P ids u1"
proof -
  let ?d = "boot_dir bv"
  have at: "file_at u1 p = file_at u p" if "p \<noteq> crl_number_path ?d" "p \<noteq> crl_der_path ?d" for p
    by (rule later_start_files[OF pf a t k bd b that])
  show "pems_as ?d w u1"
    using k by (rule pems_as_cong) (auto simp: at pem_paths_def crl_number_path_def crl_der_path_def)
  show "on_disk sd ?d i P ids u1" using d by (rule on_disk_file) (simp add: at)
qed

text \<open>
  A whole lifetime on such a disk: it ends before serving, with the disk as it was in this
  respect, or it serves its events.
\<close>

lemma lifetime_cases:
  assumes "run_lifetime env tr hk l u = Done (u', os)"
  obtains (unready) q where "os = []"
      "server_start env (lf_fresh l) (lf_vars l) (u\<lparr>fs_faults := lf_faults l\<rparr>) = Done (u', q)"
  | (ready) u1 r st e where "server_start env (lf_fresh l) (lf_vars l) (u\<lparr>fs_faults := lf_faults l\<rparr>) = Done (u1, Inr r)"
      "accept_loop (sr_env r) tr hk (lf_events l) (sr_state r) = Done (st, os, e)" "u' = sv_fs (hs_service st)"
proof -
  obtain u1 q where b: "server_start env (lf_fresh l) (lf_vars l) (u\<lparr>fs_faults := lf_faults l\<rparr>) = Done (u1, q)"
    using assms by (auto simp: run_lifetime_def split: may_panic.splits)
  show thesis
  proof (cases q)
    case (Inl e)
    then show thesis using unready b assms by (simp add: run_lifetime_def)
  next
    case (Inr r)
    show thesis
    proof (cases "lf_bound l")
      case (Inl e)
      then have "u' = u1" "os = []" using assms b ready_env(6)[OF b[unfolded Inr]]
        by (auto simp: run_lifetime_def http_run_def \<open>q = Inr r\<close>)
      then show thesis using unready b by simp
    next
      case (Inr y)
      then show thesis using assms b \<open>q = Inr r\<close>
        by (auto simp: run_lifetime_def http_run_def split: may_panic.splits prod.splits intro: ready)
    qed
  qed
qed

lemma plan_again:
  "pems_as dir w u \<Longrightarrow> pems_as dir w (u\<lparr>fs_faults := p\<rparr>)"
  "on_disk sd dir i P ids u \<Longrightarrow> on_disk sd dir i P ids (u\<lparr>fs_faults := p\<rparr>)"
  by (simp add: pems_as_def) (simp add: on_disk_file)

lemma lifetime_disk:
  assumes pf: "pem_faithful (he_rcgen env)" and sf: "serde_faithful (he_serde env)"
    and a: "server_start env fr bv w0 = Done (w, Inr r0)" and P: "stable P"
    and l: "usual_lifetime (boot_dir bv) l" and ids: "distinct (event_ids (lf_events l))"
      "set (event_ids (lf_events l)) \<inter> later = {}"
    and k: "pems_as (boot_dir bv) w u"
    and d: "on_disk (he_serde env) (boot_dir bv) i P (set (event_ids (lf_events l)) \<union> later) u"
    and run: "run_lifetime env tr hk l u = Done (u', os)"
  shows "pems_as (boot_dir bv) w u' \<and> on_disk (he_serde env) (boot_dir bv) i P later u'"
proof -
  let ?u = "u\<lparr>fs_faults := lf_faults l\<rparr>" and ?d = "boot_dir bv" and ?sd = "he_serde env"
  have bd: "boot_dir (lf_vars l) = ?d" and t: "start_tests_work (fs_faults ?u)" using l by (simp_all add: usual_lifetime_def)
  note begun = later_start_disk[OF pf a t plan_again(1)[OF k] bd plan_again(2)[OF d]]
  show ?thesis
  proof (cases rule: lifetime_cases[OF run])
    case (1 q)
    show ?thesis using begun[OF 1(2)] on_disk_mono by fastforce
  next
    case (2 u1 r st e)
    note env' = ready_env[OF 2(1)] and begun = begun[OF 2(1)]
    have h: "holds ?d i P (set (event_ids (lf_events l)) \<union> later) (sv_store (hs_service (sr_state r)))"
      by (rule later_start_holds(2)[OF pf sf a t plan_again(1)[OF k] bd plan_again(2)[OF d] 2(1)])
    have fresh: "fresh_ids (lf_events l) (sv_store (hs_service (sr_state r)))" using h ids(1) by (simp add: fresh_ids_def holds_def)
    have sv: "served ?sd ?d (set (event_ids (lf_events l))) (hs_service (sr_state r)) (hs_service st)"
      using served_loop[OF 2(2) fresh] env' bd by simp
    have "on_disk ?sd ?d i P later u'"
      unfolding 2(3) using ids(2) env'(6)
      by (intro served_on_disk(2)[OF sv _ _ P] holds_mono[OF h] on_disk_mono[OF begun(2), folded env'(6)]) auto
    then show ?thesis unfolding 2(3) using served_pems[OF sv] begun(1) env'(6) by simp
  qed
qed

lemma lifetime_out:
  fixes env :: "('key, 'iss, 'c, 'k) http_env" and hk :: "'k tls_config \<Rightarrow> 'peer \<Rightarrow> handshake"
  assumes pf: "pem_faithful (he_rcgen env)" and sf: "serde_faithful (he_serde env)"
    and a: "server_start env fr bv w0 = Done (w, Inr r0)"
    and away: "\<And>ca cfg peer cs. same_authority (he_rcgen env) ca (he_ca (sr_env r0)) \<Longrightarrow>
       refuses (env\<lparr>he_ca := ca\<rparr>) cfg sn \<Longrightarrow> hk cfg peer \<noteq> Established (Some (c # cs))"
    and rec: "cr_revoked x" "cr_serial_number x = hex_of_bytes sn" "sn \<noteq> []"
    and l: "usual_lifetime (boot_dir bv) l" and ids: "distinct (event_ids (lf_events l))"
    and k: "pems_as (boot_dir bv) w u"
    and d: "on_disk (he_serde env) (boot_dir bv) i (\<lambda>r. r = x) (set (event_ids (lf_events l))) u"
    and run: "run_lifetime env tr hk l u = Done (u', os)"
  shows "TaskServed c out \<notin> set os"
proof (cases rule: lifetime_cases[OF run])
  case (2 u1 r st e)
  let ?st = "sr_state r"
  have bd: "boot_dir (lf_vars l) = boot_dir bv" and t: "start_tests_work (fs_faults (u\<lparr>fs_faults := lf_faults l\<rparr>))"
    using l by (simp_all add: usual_lifetime_def)
  note later = later_start_holds[OF pf sf a t plan_again(1)[OF k] bd plan_again(2)[OF d] 2(1)]
  have g: "store_get (sv_store (hs_service ?st)) i = Some x" "store_ok (sv_store (hs_service ?st))"
    using later(2) by (auto simp: holds_def has_record_def split: option.splits)
  have fresh: "fresh_ids (lf_events l) (sv_store (hs_service ?st))" using later(2) ids by (simp add: fresh_ids_def holds_def)
  have out: "locked_out (sr_env r) sn ?st"
    using g ready_refuses[OF 2(1) g(1) rec] rec by (auto simp: locked_out_def)
  have away': "refuses (sr_env r) cfg sn \<Longrightarrow> hk cfg peer \<noteq> Established (Some (c # cs))" for cfg peer cs
    using away[OF later(1), of cfg peer cs] refuses_cong[of "sr_env r" "env\<lparr>he_ca := he_ca (sr_env r)\<rparr>" cfg sn]
      ready_env(1)[OF 2(1)] by simp
  show ?thesis using locked_out_served[OF away' out rec(3) fresh 2(2)] by blast
qed simp

text \<open>All the lifetimes to come, with ids that are all new.\<close>

definition lifetime_ids :: "('key, 'peer) lifetime list \<Rightarrow> uuid list" where
  "lifetime_ids ls = concat (map (\<lambda>l. event_ids (lf_events l)) ls)"

lemma lifetime_ids_simps [simp]:
  "lifetime_ids [] = []" "lifetime_ids (l # ls) = event_ids (lf_events l) @ lifetime_ids ls"
  by (simp_all add: lifetime_ids_def)

lemma lifetimes_disk:
  assumes pf: "pem_faithful (he_rcgen env)" and sf: "serde_faithful (he_serde env)"
    and a: "server_start env fr bv w0 = Done (w, Inr r0)" and P: "stable P"
    and "list_all (usual_lifetime (boot_dir bv)) ls" and "distinct (lifetime_ids ls)" and "set (lifetime_ids ls) \<inter> later = {}"
    and "pems_as (boot_dir bv) w u"
    and "on_disk (he_serde env) (boot_dir bv) i P (set (lifetime_ids ls) \<union> later) u"
    and "run_lifetimes env tr hk ls u = Done (u', os)"
  shows "pems_as (boot_dir bv) w u' \<and> on_disk (he_serde env) (boot_dir bv) i P later u'"
  using assms(5-10)
proof (induction ls arbitrary: u os)
  case (Cons l ls)
  obtain u1 os1 os2 where one: "run_lifetime env tr hk l u = Done (u1, os1)"
    and rest: "run_lifetimes env tr hk ls u1 = Done (u', os2)"
    using Cons.prems(6) by (auto split: may_panic.splits prod.splits)
  have "pems_as (boot_dir bv) w u1 \<and> on_disk (he_serde env) (boot_dir bv) i P (set (lifetime_ids ls) \<union> later) u1"
    using Cons.prems(1-3,5) by (intro lifetime_disk[OF pf sf a P _ _ _ Cons.prems(4) _ one]) (auto simp: Un_assoc)
  then show ?case using Cons.IH[OF _ _ _ _ _ rest] Cons.prems(1-3) by auto
qed simp

lemma lifetimes_out:
  fixes env :: "('key, 'iss, 'c, 'k) http_env" and hk :: "'k tls_config \<Rightarrow> 'peer \<Rightarrow> handshake"
  assumes pf: "pem_faithful (he_rcgen env)" and sf: "serde_faithful (he_serde env)"
    and a: "server_start env fr bv w0 = Done (w, Inr r0)"
    and away: "\<And>ca cfg peer cs. same_authority (he_rcgen env) ca (he_ca (sr_env r0)) \<Longrightarrow>
       refuses (env\<lparr>he_ca := ca\<rparr>) cfg sn \<Longrightarrow> hk cfg peer \<noteq> Established (Some (c # cs))"
    and rec: "cr_revoked x" "cr_serial_number x = hex_of_bytes sn" "sn \<noteq> []"
    and "list_all (usual_lifetime (boot_dir bv)) ls" and "distinct (lifetime_ids ls)"
    and "pems_as (boot_dir bv) w u"
    and "on_disk (he_serde env) (boot_dir bv) i (\<lambda>r. r = x) (set (lifetime_ids ls)) u"
    and "run_lifetimes env tr hk ls u = Done (u', os)"
  shows "TaskServed c out \<notin> set os"
  using assms(8-12)
proof (induction ls arbitrary: u os)
  case (Cons l ls)
  obtain u1 os1 os2 where one: "run_lifetime env tr hk l u = Done (u1, os1)"
    and rest: "run_lifetimes env tr hk ls u1 = Done (u', os2)" and os: "os = os1 @ os2"
    using Cons.prems(5) by (auto split: may_panic.splits prod.splits)
  have l: "usual_lifetime (boot_dir bv) l" "distinct (event_ids (lf_events l))"
    "set (event_ids (lf_events l)) \<inter> set (lifetime_ids ls) = {}"
    using Cons.prems(1,2) by auto
  have d: "on_disk (he_serde env) (boot_dir bv) i (\<lambda>r. r = x) (set (event_ids (lf_events l)) \<union> set (lifetime_ids ls)) u"
    using Cons.prems(4) by simp
  have "TaskServed c out \<notin> set os1"
    using on_disk_mono[OF d] by (intro lifetime_out[OF pf sf a away rec l(1,2) Cons.prems(3) _ one]) auto
  moreover have "pems_as (boot_dir bv) w u1 \<and> on_disk (he_serde env) (boot_dir bv) i (\<lambda>r. r = x) (set (lifetime_ids ls)) u1"
    by (rule lifetime_disk[OF pf sf a stable_revoked[OF rec(1)] l Cons.prems(3) d one])
  then have "TaskServed c out \<notin> set os2" using Cons.IH[OF _ _ _ _ rest] Cons.prems(1,2) by simp
  ultimately show ?case using os by simp
qed simp

lemma event_ids_append [simp]: "event_ids (a @ b) = event_ids a @ event_ids b"
  by (induction a rule: event_ids.induct) simp_all

lemma event_ids_lifetimes [simp]: "event_ids (concat (map lf_events ls)) = lifetime_ids ls"
  by (induction ls) simp_all

section \<open>The rest of a run, and the lifetimes after it\<close>

text \<open>A server that became ready and served connections has its files in order.\<close>

lemma ready_served:
  assumes a: "server_start env fr bv w0 = Done (w, Inr r)" and ok: "store_ok (sv_store (hs_service (sr_state r)))"
    and loop: "accept_loop (sr_env r) tr hk before (sr_state r) = Done (st, os, e)"
    and f: "fresh_ids (before @ after) (sv_store (hs_service (sr_state r)))"
  shows "store_ok (sv_store (hs_service st))" and "st_path (sv_store (hs_service st)) = store_file (boot_dir bv)"
    and "\<forall>j \<in> set (event_ids after). store_get (sv_store (hs_service st)) j = None"
    and "pems_as (boot_dir bv) w (sv_fs (hs_service st))"
proof -
  note e = ready_env[OF a]
  have fb: "fresh_ids before (sv_store (hs_service (sr_state r)))" using f by (simp add: fresh_ids_def)
  have s: "served (he_serde env) (boot_dir bv) (set (event_ids before)) (hs_service (sr_state r)) (hs_service st)"
    using served_loop[OF loop fb] e by simp
  then have g: "grows (set (event_ids before)) (sv_store (hs_service (sr_state r))) (sv_store (hs_service st))"
    by (simp add: served_def)
  show "store_ok (sv_store (hs_service st))" using g ok by (auto simp: grows_def dest: store_steps_ok)
  show "st_path (sv_store (hs_service st)) = store_file (boot_dir bv)" using g e(7) by (simp add: grows_def)
  show "\<forall>j \<in> set (event_ids after). store_get (sv_store (hs_service st)) j = None"
    using g f by (auto simp: grows_def fresh_ids_def)
  have "pems_as (boot_dir bv) w (sv_fs (hs_service (sr_state r)))" using ready_pems[OF a] e(6) by (simp add: pems_as_def)
  then show "pems_as (boot_dir bv) w (sv_fs (hs_service st))" by (rule served_pems[OF s])
qed

text \<open>An answer 200 means that the file has the change.\<close>

lemma revoke_200_on_disk:
  assumes "handle_revoke_certificate env hf i path body st = Done (st1, Answer 200 b)"
    and "st_path (sv_store (hs_service st)) = store_file (he_data_dir env)"
  shows "has_text (he_serde env) (sv_fs (hs_service st1)) (sv_store (hs_service st1))"
proof -
  obtain cid reason q s' w' w'' m where
    rv: "store_revoke (he_serde env) (hf_revoke_now hf) cid reason (sv_store (hs_service st)) (sv_fs (hs_service st)) =
      ((s', w'), Inr (Some q))"
    and rf: "acceptor_refresh (he_rustls env) (he_signer env) (int_issuer (he_ca env)) (he_data_dir env) (hf_crl hf)
      s' w' (hs_acceptor st) = Done ((w'', m), Inr ())"
    and st1: "st1 = \<lparr>hs_service = (hs_service st)\<lparr>sv_store := s', sv_fs := w''\<rparr>, hs_acceptor = m\<rparr>"
    using revoke_answer_200[OF assms(1)] by blast
  obtain u where "store_persist (he_serde env) s' (sv_fs (hs_service st)) = (w', Inr u)"
    using rv by (auto simp: store_revoke_cases map_sum_Inr_iff split: option.splits prod.splits)
  then have t: "has_text (he_serde env) w' s'" using persist_ok by (auto simp: has_text_def)
  have "st_path s' = store_file (he_data_dir env)"
    using revoke_grows[of "sv_store (hs_service st)" "he_serde env" "hf_revoke_now hf" cid reason "sv_fs (hs_service st)"]
      rv assms(2) by (simp add: grows_def)
  then have "has_text (he_serde env) w'' s'" using t refresh_other[OF rf] by (simp add: has_text_def)
  then show ?thesis by (simp add: st1)
qed

end
