(* ===== verification/System_Props.thy ===== *)
theory System_Props
  imports System
begin

text \<open>
  The properties of the server over its whole life: what was acknowledged outlives every restart.
\<close>

section \<open>What an answer 201 means\<close>

text \<open>An answer 201 means that the record is in the store and in its file.\<close>

lemma issue_201:
  assumes "handle_issue env fr i body st = (st1, Answer 201 (IssuedBody resp))"
    and "store_get (sv_store (hs_service st)) (if_record_id (hf_issue fr)) = None"
    and "st_path (sv_store (hs_service st)) = store_file (he_data_dir env)"
  shows "\<exists>(crt :: rcgen_certificate) parsed. resp_certificate_pem resp = crt_pem crt \<and>
    dr_from_der (he_reader env) (crt_der crt) = Inr parsed \<and>
    has_record (if_record_id (hf_issue fr))
      (describes resp (hex_of_bytes (dr_serial_to_bytes_be (he_reader env) parsed))) (sv_store (hs_service st1)) \<and>
    has_text (he_serde env) (sv_fs (hs_service st1)) (sv_store (hs_service st1)) \<and>
    served (he_serde env) (he_data_dir env) {if_record_id (hf_issue fr)} (hs_service st) (hs_service st1)"
proof -
  let ?p = "\<lparr>pr_id = mt_id i, pr_name = mt_name i, pr_roles = roles_for (he_authorization env) i\<rparr>"
  obtain rq ev where iss: "service_issue (he_rcgen env) (he_reader env) (he_serde env) (he_policy env) (hf_issue fr) ?p
      (he_ca env) rq (hs_service st) = (hs_service st1, Inr (resp, ev))"
    using assms(1) by (auto simp: handle_issue_def Let_def split: option.splits prod.splits sum.splits)
  show ?thesis
  proof (rule issue_ok[OF iss], goal_cases)
    case (1 ips crt key parsed s' w' j)
    let ?r = "issued_record (hf_issue fr) rq (crt_pem crt) (dr_serial_to_bytes_be (he_reader env) parsed)
        (dr_not_after (he_reader env) parsed)"
    have r: "store_get s' (if_record_id (hf_issue fr)) = Some ?r" by (rule issued_record_stored[OF 1(6)])
    have "\<exists>u. store_persist (he_serde env) s' (sv_fs (hs_service st)) = (w', Inr u)"
      using 1(6) by (auto simp: store_insert_def Let_def split: prod.splits sum.splits)
    then have t: "has_text (he_serde env) w' s'" using persist_ok by (auto simp: has_text_def)
    have "describes resp (hex_of_bytes (dr_serial_to_bytes_be (he_reader env) parsed)) ?r"
      by (simp add: describes_def 1(8) issued_response_def issued_record_def certificate_record_new_def)
    then show ?case using 1(5,8) r t served_issue[OF iss assms(2,3)] unfolding 1(7)
      by (intro exI[of _ crt] exI[of _ parsed]) (simp add: issued_response_def has_record_def with_event_def)
  qed
qed

section \<open>A sample life\<close>

lemma position_nth: "position P xs = Some n \<Longrightarrow> n < length xs \<and> P (xs ! n)"
  using position_Some[of P xs n] by blast

lemma sample_serde_from: "sd_from_str (sample_serde ms) t = Inr m \<Longrightarrow> m \<in> set ms"
  by (auto simp: sample_serde_def split: option.splits dest!: position_nth)

lemma sample_serde_faithful: "serde_faithful (sample_serde ms)"
proof -
  have "serde_round_trips (sample_serde ms) m" if t: "sd_to_string_pretty (sample_serde ms) m = Inr t" for m t
  proof -
    obtain n where n: "t = show_nat n" "n < length ms" "ms ! n = m"
      using t by (auto simp: sample_serde_def split: option.splits dest!: position_nth)
    have inj: "show_nat k = show_nat n \<longleftrightarrow> k = n" for k by (metis dec_val_show_nat option.inject)
    have "n \<in> set [0..<length ms]" using n(2) by (simp only: set_upt atLeastLessThan_iff) simp
    then have "position (\<lambda>k. show_nat k = show_nat n) [0..<length ms] \<noteq> None" unfolding position_None by blast
    then obtain k where k: "position (\<lambda>k. show_nat k = show_nat n) [0..<length ms] = Some k" by blast
    have "[0..<length ms] ! k = n" using position_nth[OF k] by (simp only: inj)
    then have "k = n" using position_nth[OF k] by (simp only: length_upt) simp
    then have "sd_from_str (sample_serde ms) t = Inr m" using n k by (simp add: sample_serde_def del: show_nat.simps)
    then show ?thesis using t n(1) by (simp add: serde_round_trips_def)
  qed
  then show ?thesis by (simp add: serde_faithful_def)
qed

lemma sample_reads_ascii: "reads_ascii sample_run_serde"
proof -
  have "ascii (cr_serial_number sample_issued)"
    by (auto simp: sample_issued_def issued_record_def certificate_record_new_def ascii_def dest: hex_of_bytes_ascii)
  then show ?thesis
    by (auto simp: reads_ascii_def sample_run_serde_def hm_values_def dest!: sample_serde_from)
qed

text \<open>The first start finds a store with one certificate, issued under the key it is given.\<close>

definition sample_disk :: fs where
  "sample_disk = \<lparr>fs_files = [([''d'', ''certificates.json''], as_bytes (show_nat 0))], fs_faults = []\<rparr>"

lemma sample_disk_simps:
  "fs_faults sample_disk = []" "file_at sample_disk [''d'', ''certificates.json''] = Some (as_bytes (show_nat 0))"
  "q \<noteq> [''d'', ''certificates.json''] \<Longrightarrow> file_at sample_disk q = None"
  by (simp_all add: sample_disk_def file_at_def hm_get_def)

lemma sample_he: "he_serde sample_env = sample_run_serde" "he_reader sample_env = sample_reader"
  "he_revoke_body sample_env [1] = Some (Some ''superseded'')" "he_parse_uuid sample_env = (\<lambda>s. if s = ''22'' then Some 22 else None)"
  by (simp_all add: sample_env_def)

lemma sample_serial: "cr_serial_number sample_issued = hex_of_bytes [1, 7, 3]"
  by (simp add: sample_issued_def issued_record_def certificate_record_new_def)

lemma sample_before_opens:
  assumes "fs_faults w = []" and "file_at w [''d'', ''certificates.json''] = Some (as_bytes (show_nat 0))"
  shows "store_open sample_run_serde (path_join [''d''] ''certificates.json'') w = (w, Inr sample_before)"
proof -
  have "sd_from_str sample_run_serde (show_nat 0) = Inr (st_records sample_before)"
    by (simp add: sample_run_serde_def sample_serde_def sample_before_def upt_rec)
  then show ?thesis using assms by (simp add: store_open_def fs_exists_free fs_read_free path_join_def)
      (simp add: sample_before_def)
qed

lemma sample_before_signed:
  "\<exists>der ps. signed_der (\<lambda>ps i. Inr [9]) iss m (crl_for_store u now t sample_before) = Done (Inr der) \<and>
     (\<lambda>ps i. Inr [9] :: rcgen_error + bytes) ps iss = Inr der"
  by (simp add: signed_der_def crl_for_store_entries store_list_def hm_values_def sample_before_def Let_def)

lemma sample_first:
  "\<exists>w r. server_start sample_env (sample_boot 2) sample_vars sample_disk = Done (w, Inr r) \<and> fs_faults w = [] \<and>
     sv_store (hs_service (sr_state r)) = sample_before \<and> stored_number [''d''] w = Some 1"
proof -
  have no: "\<forall>p \<in> pem_paths [''d'']. file_at sample_disk p = None"
    by (simp add: pem_paths_def path_join_def sample_disk_simps)
  have nr: "file_at sample_disk (crl_number_path [''d'']) = None"
    by (simp add: crl_number_path_def path_join_def sample_disk_simps)
  have op: "store_open (he_serde sample_env) (path_join [''d''] ''certificates.json'') w' = (w', Inr sample_before)"
    if "fs_faults w' = []" "file_at w' (path_join [''d''] ''certificates.json'') =
      file_at sample_disk (path_join [''d''] ''certificates.json'')" for w'
    using that sample_before_opens[of w'] by (simp add: sample_he path_join_def sample_disk_simps)
  have "\<exists>der ps. signed_der (he_signer sample_env) iss 1 (crl_for_store u now t sample_before) = Done (Inr der) \<and>
       he_signer sample_env ps iss = Inr der" for iss u now t
    unfolding sample_rcgen_sel by (rule sample_before_signed)
  from first_start_on[OF sample_crates sample_disk_simps(1) sample_dir no op nr this] show ?thesis by blast
qed

text \<open>Writing the store where nothing fails.\<close>

lemma sample_persisted:
  assumes "st_path s = [''d'', ''certificates.json'']" and "sd_to_string_pretty sd (st_records s) = Inr t" and "fs_faults w = []"
  shows "\<exists>w'. store_persist sd s w = (w', Inr ()) \<and> fs_faults w' = [] \<and>
    file_at w' [''d'', ''certificates.json''] = Some (as_bytes t) \<and>
    (\<forall>q. q \<notin> {[''d'', ''certificates.json''], [''d'', ''certificates.json.tmp'']} \<longrightarrow> file_at w' q = file_at w q)"
proof -
  have tp: "with_extension (st_path s) ''json.tmp'' = [''d'', ''certificates.json.tmp'']" unfolding assms(1) by code_simp
  obtain w' where w': "store_persist sd s w = (w', Inr ())" "fs_faults w' = []"
    using assms tp
    by (simp add: store_persist_def persist_parent_def path_parent_def fs_create_dir_all_def fs_write_def fs_rename_def
        next_fault_def Let_def)
  have "file_at w' [''d'', ''certificates.json''] = Some (as_bytes t)" using persist_ok[OF w'(1)] assms(1,2) by auto
  moreover have "file_at w' q = file_at w q" if q: "q \<notin> {[''d'', ''certificates.json''], [''d'', ''certificates.json.tmp'']}" for q
  proof -
    have "q \<noteq> st_path s" "q \<noteq> with_extension (st_path s) ''json.tmp''" unfolding tp using q assms(1) by simp_all
    from persist_other[OF this, of sd w] w'(1) show ?thesis by simp
  qed
  ultimately show ?thesis using w' by blast
qed

lemma sample_first_env:
  assumes a: "server_start env (sample_boot 2) sample_vars w0 = Done (w, Inr r)"
    and "he_rcgen env = sample_rcgen" and "file_at w0 (path_join [''d''] ''intermediate-ca.pem'') = None"
  shows "\<exists>ic. sr_env r = env\<lparr>he_ca := ic, he_data_dir := [''d''], he_policy := policy_default,
      he_authorization := env_authorization_policy sample_vars\<rparr> \<and> int_issuer ic = 3"
proof (rule server_start_ready[OF a], goal_cases)
  case (1 w1 w2 w3 w4 w5 root ic)
  have n: "file_at w2 (path_join [''d''] ''intermediate-ca.pem'') = None"
    using load_or_create_otherD[OF 1(3)[unfolded load_or_create_eqs]] 1(1) assms(3)
    by (simp add: path_join_def)
  have "int_issuer ic = 3"
    using load_or_create_ok[OF 1(4)[unfolded load_or_create_eqs]] n
    by (auto simp: result_simps intermediate_generate_ok assms(2) sample_boot_def sample_rcgen_def)
  then show ?case by (intro exI[of _ ic]) (simp add: 1(9))
qed

lemma sample_first_revoke:
  assumes a: "server_start sample_env (sample_boot 2) sample_vars sample_disk = Done (w, Inr r)"
    and "fs_faults w = []" and s: "sv_store (hs_service (sr_state r)) = sample_before" and n: "stored_number [''d''] w = Some 1"
  shows "\<exists>st1 b. handle_revoke_certificate (sr_env r) sample_http_fresh (sample_client ''aa'')
      ''/v1/certificates/22/revoke'' [1] (sr_state r) = Done (st1, Answer 200 b)"
proof -
  obtain ic where e: "sr_env r = sample_env\<lparr>he_ca := ic, he_data_dir := [''d''], he_policy := policy_default,
      he_authorization := env_authorization_policy sample_vars\<rparr>" using sample_first_env[OF a sample_rcgen_sel(1)] by (auto simp: sample_disk_simps path_join_def)
  have au: "can_issue_certificates (env_authorization_policy sample_vars) (sample_client ''aa'')" by code_simp
  have parse: "he_parse_uuid (sr_env r) = he_parse_uuid sample_env" by (simp add: e)
  have cid: "certificate_id_from_revoke_path (sr_env r) ''/v1/certificates/22/revoke'' = Some 22"
    using sample_path_id by (simp only: certificate_id_from_revoke_path_def parse)
  obtain w1 where w1: "store_persist sample_run_serde sample_after w = (w1, Inr ())" "fs_faults w1 = []"
    "\<forall>q. q \<notin> {[''d'', ''certificates.json''], [''d'', ''certificates.json.tmp'']} \<longrightarrow> file_at w1 q = file_at w q"
    using sample_persisted[OF _ sample_after_text(1) assms(2)] by (auto simp: sample_after_def)
  have "file_at w1 (crl_number_path [''d'']) = file_at w (crl_number_path [''d''])"
    using w1(3) by (simp add: crl_number_path_def path_join_def)
  then have n1: "stored_number [''d''] w1 = Some 1" using n stored_number_cong[of w1 "[''d'']" w] by simp
  have rv: "store_revoke sample_run_serde 60 22 ''superseded'' sample_before w = ((sample_after, w1), Inr (Some sample_revoked))"
    using w1(1) by (simp add: store_revoke_cases store_get_def hm_get_def hm_insert_def sample_before_def
        sample_after_def sample_revoked_def)
  have h: "hex_to_bytes (hex_of_bytes [1, 7, 3]) = Done (Some [1, 7, 3])" by (rule hex_round_trip) simp
  have sd: "signed_der (\<lambda>ps i. Inr [9]) (int_issuer ic) 2 (crl_for_store 30 70 71 sample_after) = Done (Inr [9])"
    by (simp add: signed_der_def crl_for_store_entries store_list_def hm_values_def sample_after_def
        sample_revoked_def entry_of_def sample_serial h Let_def)
  have "checked_add (1 :: u64) 1 = Some 2" by (simp add: checked_add_def)
  from generate_free[OF w1(2) n1 this sd] obtain w2 where
    g: "generate_and_persist (\<lambda>ps i. Inr [9]) (int_issuer ic) [''d''] 30 70 71 sample_after w1 = Done (w2, Inr [9])" by blast
  obtain c where "build_mtls_server_config sample_rustls (ta_server_certificate_pem (hs_acceptor (sr_state r)))
      (ta_server_private_key_pem (hs_acceptor (sr_state r))) (ta_client_ca_pem (hs_acceptor (sr_state r))) (Some [9]) = Inr c"
    by (auto simp: build_config_ok sample_rustls_def)
  with g obtain m where rf: "acceptor_refresh sample_rustls (\<lambda>ps i. Inr [9]) (int_issuer ic) [''d'']
      \<lparr>cf_id = 30, cf_now = 70, cf_generated_at = 71\<rparr> sample_after w1 (hs_acceptor (sr_state r)) = Done ((w2, m), Inr ())"
    by (simp add: acceptor_refresh_def)
  have au': "can_issue_certificates (he_authorization (sr_env r)) (sample_client ''aa'')" using au by (simp add: e)
  have es: "he_serde (sr_env r) = sample_run_serde" "he_rustls (sr_env r) = sample_rustls"
    "he_signer (sr_env r) = (\<lambda>ps i. Inr [9])" "he_ca (sr_env r) = ic" "he_data_dir (sr_env r) = [''d'']"
    "he_revoke_body (sr_env r) [1] = Some (Some ''superseded'')"
    by (simp_all add: e sample_he sample_rcgen_sel)
  show ?thesis
    by (simp add: handle_revoke_certificate_def au' cid s ready_env(6)[OF a] es rv rf sample_http_fresh_def)
qed

definition sample_lifetime :: "(nat, bytes) lifetime" where
  "sample_lifetime = \<lparr>lf_fresh = sample_boot 8, lf_vars = sample_vars, lf_faults = [], lf_bound = Inr (),
     lf_events = [Accept sample_connection]\<rparr>"

text \<open>A server on an empty directory that is asked to issue.\<close>

definition sample_issue_env :: "(nat, nat, bytes, unit) http_env" where
  "sample_issue_env = sample_env\<lparr>he_issue_body := (\<lambda>_. Some sample_request)\<rparr>"

lemma sample_issue_env_simps [simp]:
  "he_rcgen sample_issue_env = sample_rcgen" "he_serde sample_issue_env = sample_run_serde"
  "he_reader sample_issue_env = sample_reader" "he_signer sample_issue_env = (\<lambda>ps i. Inr [9])"
  "he_issue_body sample_issue_env b = Some sample_request"
  by (simp_all add: sample_issue_env_def sample_he sample_rcgen_sel)

lemma sample_issue_crates: "crates_work sample_issue_env (sample_boot n)"
proof -
  have "he_rustls sample_issue_env = he_rustls sample_env" by (simp add: sample_issue_env_def)
  then show ?thesis using sample_crates[of n]
    unfolding crates_work_def sample_issue_env_simps sample_rcgen_sel by simp
qed

definition sample_issuing :: "bytes connection" where
  "sample_issuing = \<lparr>cn_peer = [7, 3], cn_request = [1], cn_fresh = sample_http_fresh\<rparr>"

lemma sample_issuing_fresh: "hf_issue (cn_fresh sample_issuing) = sample_fresh" "if_record_id sample_fresh = 22"
  by (simp_all add: sample_issuing_def sample_http_fresh_def sample_fresh_def)

lemma sample_first_issue:
  assumes a: "server_start sample_issue_env (sample_boot 2) sample_vars sample_fs = Done (w, Inr r)" and "fs_faults w = []"
    and s: "sv_store (hs_service (sr_state r)) = \<lparr>st_path = path_join [''d''] ''certificates.json'', st_records = hm_empty\<rparr>"
  shows "\<exists>st1. handle_issue (sr_env r) (cn_fresh sample_issuing) (sample_client ''aa'') [1] (sr_state r) =
      (st1, Answer 201 (IssuedBody (issued_response sample_request (crt_pem (sample_crt [7, 3]))))) \<and>
    fs_faults (sv_fs (hs_service st1)) = [] \<and> sv_store (hs_service st1) = sample_before \<and>
    (\<forall>q. q \<notin> {[''d'', ''certificates.json''], [''d'', ''certificates.json.tmp'']} \<longrightarrow>
       file_at (sv_fs (hs_service st1)) q = file_at w q) \<and>
    file_at (sv_fs (hs_service st1)) [''d'', ''certificates.json''] = Some (as_bytes (show_nat 0))"
proof -
  obtain ic where e: "sr_env r = sample_issue_env\<lparr>he_ca := ic, he_data_dir := [''d''], he_policy := policy_default,
      he_authorization := env_authorization_policy sample_vars\<rparr>" "int_issuer ic = 3"
    using sample_first_env[OF a] by (auto simp: sample_fs_empty)
  let ?p = "\<lparr>pr_id = 1, pr_name = ''edge'', pr_roles = roles_for (env_authorization_policy sample_vars) (sample_client ''aa'')\<rparr>"
  have tx: "sd_to_string_pretty sample_run_serde (st_records sample_before) = Inr (show_nat 0)"
    by (simp add: sample_run_serde_def sample_serde_def sample_before_def)
  obtain w1 where w1: "store_persist sample_run_serde sample_before w = (w1, Inr ())" "fs_faults w1 = []"
    and at: "file_at w1 [''d'', ''certificates.json''] = Some (as_bytes (show_nat 0))"
    and other: "\<forall>q. q \<notin> {[''d'', ''certificates.json''], [''d'', ''certificates.json.tmp'']} \<longrightarrow> file_at w1 q = file_at w q"
    using sample_persisted[OF _ tx assms(2)] by (auto simp: sample_before_def)
  let ?s = "\<lparr>st_path = path_join [''d''] ''certificates.json'', st_records = hm_empty\<rparr>"
  have ins: "store_insert sample_run_serde sample_issued ?s w = ((sample_before, w1), Inr 22)"
  proof -
    have "?s\<lparr>st_records := hm_insert 22 sample_issued (st_records ?s)\<rparr> = sample_before"
      by (simp add: sample_before_def hm_insert_def hm_empty_def path_join_def)
    then show ?thesis using w1(1) by (simp add: store_insert_def Let_def)
  qed
  have ro: "''certificate:issue'' \<in> set (pr_roles ?p)"
  proof -
    have "can_issue_certificates (env_authorization_policy sample_vars) (sample_client ''aa'')" by code_simp
    then show ?thesis by (simp add: roles_for_iff)
  qed
  have ip: "map parse_ip_addr (iq_ip_addresses sample_request) = map Some []" by (simp add: sample_request_def)
  have rec: "issued_record sample_fresh sample_request (crt_pem (sample_crt [7, 3])) [1, 7, 3] 900 = sample_issued"
    by (simp add: sample_issued_def)
  have d: "crt_der (sample_crt ds) = ds" for ds by (simp add: sample_crt_def)
  let ?sv = "\<lparr>sv_audit = sv_audit (hs_service (sr_state r)), sv_store = ?s, sv_fs = w\<rparr>"
  have "\<exists>ev. service_issue sample_rcgen sample_reader sample_run_serde policy_default sample_fresh ?p ic sample_request ?sv =
      (with_event sample_fresh ?p sample_request CertificateIssued Success None (?sv\<lparr>sv_store := sample_before, sv_fs := w1\<rparr>),
       Inr (issued_response sample_request (crt_pem (sample_crt [7, 3])), ev))"
    unfolding issue_signing[OF ro sample_valid ip]
    using sample_core ins rec by (simp add: e(2) d sample_reader_def)
  moreover have "hs_service (sr_state r) = ?sv" using s ready_env(6)[OF a] by simp
  ultimately show ?thesis using w1(2) at other
    by (auto simp: handle_issue_def Let_def e(1) sample_issuing_fresh sample_client_def with_event_def)
qed

lemma no_plan: "fs_faults w = [] \<Longrightarrow> w\<lparr>fs_faults := []\<rparr> = w" for w :: fs
  by (cases w) simp

text \<open>A life in which a certificate is issued and the server started again.\<close>

lemma sample_issue_life:
  "\<exists>w (r :: (nat, nat, bytes, unit) running) st1 w3 r'.
     server_start sample_issue_env (sample_boot 2) sample_vars sample_fs = Done (w, Inr r) \<and> fs_faults w = [] \<and>
     sv_store (hs_service (sr_state r)) = \<lparr>st_path = path_join [''d''] ''certificates.json'', st_records = hm_empty\<rparr> \<and>
     handle_issue (sr_env r) (cn_fresh sample_issuing) (sample_client ''aa'') [1] (sr_state r) =
       (st1, Answer 201 (IssuedBody (issued_response sample_request (crt_pem (sample_crt [7, 3]))))) \<and>
     fs_faults (sv_fs (hs_service st1)) = [] \<and>
     server_start sample_issue_env (sample_boot 8) sample_vars (sv_fs (hs_service st1)) = Done (w3, Inr r')"
proof -
  let ?env = sample_issue_env and ?d = "[''d'']"
  have no: "\<forall>p \<in> pem_paths (boot_dir sample_vars). file_at sample_fs p = None" by (simp add: sample_fs_empty)
  obtain w and r :: "(nat, nat, bytes, unit) running" where
    a: "server_start ?env (sample_boot 2) sample_vars sample_fs = Done (w, Inr r)" "fs_faults w = []"
    "sv_store (hs_service (sr_state r)) = \<lparr>st_path = path_join ?d ''certificates.json'', st_records = hm_empty\<rparr>"
    "stored_number ?d w = Some 1"
    using first_start[OF sample_issue_crates sample_fs_empty(2) refl no sample_fs_empty(1,1), of 2] by auto
  obtain st1 where i: "handle_issue (sr_env r) (cn_fresh sample_issuing) (sample_client ''aa'') [1] (sr_state r) =
      (st1, Answer 201 (IssuedBody (issued_response sample_request (crt_pem (sample_crt [7, 3])))))"
    and v: "fs_faults (sv_fs (hs_service st1)) = []"
      "\<forall>q. q \<notin> {[''d'', ''certificates.json''], [''d'', ''certificates.json.tmp'']} \<longrightarrow> file_at (sv_fs (hs_service st1)) q = file_at w q"
      "file_at (sv_fs (hs_service st1)) [''d'', ''certificates.json''] = Some (as_bytes (show_nat 0))"
    using sample_first_issue[OF a(1-3)] by blast
  let ?v = "sv_fs (hs_service st1)"
  have k: "\<forall>p \<in> pem_paths (boot_dir sample_vars). file_at ?v p = file_at w p" using v(2) by (simp add: pem_paths_def path_join_def)
  have "texts_valid (pem_paths (boot_dir sample_vars)) w"
    by (rule first_start_texts[OF _ a(1) no]) (simp add: sample_rcgen_utf8)
  then have tv: "texts_valid (pem_paths (boot_dir sample_vars)) ?v" using k by (simp add: texts_valid_def)
  have nr: "stored_number (boot_dir sample_vars) ?v = Some 1"
    using a(4) stored_number_cong[of ?v ?d w] v(2) by (simp add: crl_number_path_def path_join_def)
  have ca: "checked_add (1 :: u64) 1 = Some 2" by (simp add: checked_add_def)
  have pf: "pem_faithful (he_rcgen ?env)" by (simp add: sample_rcgen_faithful)
  have op: "store_open (he_serde ?env) (path_join (boot_dir sample_vars) ''certificates.json'') ?v = (?v, Inr sample_before)"
    using sample_before_opens[OF v(1,3)] by simp
  obtain w3 and r' :: "(nat, nat, bytes, unit) running" where b: "server_start ?env (sample_boot 8) sample_vars ?v = Done (w3, Inr r')"
    using start_again_on[OF sample_issue_crates pf a(1) v(1) tv k op nr ca, of 8] sample_before_signed by fastforce
  show ?thesis using a(1-3) i v(1) b by blast
qed

section \<open>A revocation outlives every restart\<close>



section \<open>An issued certificate outlives every restart\<close>



end
