(* ===== verification/Http_Answers.thy ===== *)
theory Http_Answers
  imports Http_Props
begin

text \<open>
  What a client sees: which status goes with which body, and the bytes of \<open>write_json\<close> read back
  by a reader of status line, headers and body.
\<close>

section \<open>A reader of answers\<close>

text \<open>The lines up to the first empty one, each ended by a carriage return and a line feed.\<close>

fun read_head :: "bytes \<Rightarrow> bytes \<Rightarrow> (bytes list \<times> bytes) option" where
  "read_head line [] = None"
| "read_head line (b # bs) =
     (if b \<noteq> 13 then read_head (line @ [b]) bs
      else (case bs of [] \<Rightarrow> None
            | c # r \<Rightarrow>
                if c \<noteq> 10 then None
                else if line = [] then Some ([], r)
                else map_option (\<lambda>(ls, rest). (line # ls, rest)) (read_head [] r)))"

definition read_answer :: "bytes \<Rightarrow> (nat \<times> bytes) option" where
  "read_answer bs =
     (case read_head [] bs of
        Some (status # headers, rest) \<Rightarrow>
          (case (dec_val 0 (takeWhile (\<lambda>c. c \<noteq> CHR '' '') (drop 9 (bytes_str status))),
                 find (\<lambda>h. starts_with h ''Content-Length: '') (map bytes_str headers)) of
             (Some sc, Some h) \<Rightarrow>
               (case dec_val 0 (drop 16 h) of
                  Some n \<Rightarrow> if n \<le> length rest then Some (sc, take n rest) else None
                | None \<Rightarrow> None)
           | _ \<Rightarrow> None)
      | _ \<Rightarrow> None)"

lemma read_head_line:
  assumes "13 \<notin> set l"
  shows "read_head line (l @ bs) = read_head (line @ l) bs"
  using assms by (induction l arbitrary: line) auto

lemma read_head_end:
  assumes "13 \<notin> set l" and "l \<noteq> []"
  shows "read_head [] (l @ 13 # 10 # bs) = map_option (\<lambda>(ls, rest). (l # ls, rest)) (read_head [] bs)"
  using assms by (simp add: read_head_line)

lemma as_bytes_append [simp]: "as_bytes (s @ t) = as_bytes s @ as_bytes t"
  by (simp add: as_bytes_def)

lemma as_bytes_crlf: "as_bytes crlf = [13, 10]"
  by (simp add: as_bytes_def crlf_def char_byte_def)

lemma return_iff: "13 \<in> set (as_bytes s) \<longleftrightarrow> (\<exists>c \<in> set s. code c = 13)"
proof -
  have "char_byte c = 13 \<longleftrightarrow> code c = 13" for c
  proof
    assume "char_byte c = 13"
    then have "c = byte_char 13" using byte_char_byte[of c] by simp
    then show "code c = 13" by (simp add: byte_char_def)
  next
    assume "code c = 13"
    then show "char_byte c = 13" by (simp add: char_byte_def)
  qed
  then show ?thesis by (auto simp: as_bytes_def)
qed

lemma show_nat_plain: "c \<in> set (show_nat n) \<Longrightarrow> code c \<noteq> 13 \<and> c \<noteq> CHR '' ''"
  using show_nat_digits[of c n] by auto

lemma takeWhile_show_nat: "takeWhile (\<lambda>c. c \<noteq> CHR '' '') (show_nat n @ CHR '' '' # s) = show_nat n"
  using show_nat_plain by (subst takeWhile_append2) auto

text \<open>The head of an answer is four lines.\<close>

lemma read_head_answer:
  "read_head [] (write_json_bytes sc body) =
     Some ([as_bytes (''HTTP/1.1 '' @ show_nat sc @ '' '' @ status_reason sc), as_bytes ''Content-Type: application/json'',
            as_bytes (''Content-Length: '' @ show_nat (length body)), as_bytes ''Connection: close''], body)"
proof -
  let ?l1 = "''HTTP/1.1 '' @ show_nat sc @ '' '' @ status_reason sc" and ?l2 = "''Content-Type: application/json''"
    and ?l3 = "''Content-Length: '' @ show_nat (length body)" and ?l4 = "''Connection: close''"
  have n: "13 \<notin> set (as_bytes ?l1)" "13 \<notin> set (as_bytes ?l2)" "13 \<notin> set (as_bytes ?l3)" "13 \<notin> set (as_bytes ?l4)"
    by (auto simp: return_iff status_reason_def simp del: as_bytes_append dest: show_nat_plain)
  have ne: "as_bytes ?l1 \<noteq> []" "as_bytes ?l2 \<noteq> []" "as_bytes ?l3 \<noteq> []" "as_bytes ?l4 \<noteq> []"
    by (simp_all add: as_bytes_def)
  have "write_json_bytes sc body = as_bytes ?l1 @ 13 # 10 # as_bytes ?l2 @ 13 # 10 # as_bytes ?l3 @ 13 # 10 # as_bytes ?l4 @ 13 # 10 # 13 # 10 # body"
    unfolding write_json_bytes_def as_bytes_append as_bytes_crlf append_assoc by (simp only: append_Cons append_Nil)
  then show ?thesis by (simp only: read_head_end n ne not_False_eq_True) simp
qed

section \<open>Properties\<close>

text \<open>
  C28. An answer reads back as it was written. Whatever the status and the body, blank lines and
  carriage returns in the body included, a reader that takes the status from the first line, the
  length from the \<open>Content-Length\<close> header and the body from behind the first empty line gets
  back exactly the status and all the bytes of the body.
\<close>

theorem answer_reads_back: "read_answer (write_json_bytes status_code body) = Some (status_code, body)"
proof -
  have "takeWhile (\<lambda>c. c \<noteq> CHR '' '') (drop 9 (''HTTP/1.1 '' @ show_nat sc @ '' '' @ s)) = show_nat sc" for sc s
    using takeWhile_show_nat[of sc s] by simp
  then show ?thesis
    by (simp add: read_answer_def read_head_answer dec_val_show_nat starts_with_def del: as_bytes_append)
qed



end
