(* ===== verification/Interleaving.thy ===== *)
theory Interleaving
  imports Prelude
begin

text \<open>
  Requests that are served at the same time. Each is a value of type \<open>'p\<close>, its inputs and where it
  is; \<open>nxt\<close> is its next atomic step on the shared state. A step of the scheduler picks any request
  that is not finished; one that \<open>waits\<close> for the write lock runs only while no request \<open>holds\<close> the
  read lock. The locale \<open>scheduled\<close> is the contract under which every schedule ends: a rank that
  each step lowers, and holders that never wait.
\<close>

inductive interleave ::
  "('p \<Rightarrow> 's \<Rightarrow> 's \<times> 'p) \<Rightarrow> ('p \<Rightarrow> bool) \<Rightarrow> ('p \<Rightarrow> bool) \<Rightarrow> ('p \<Rightarrow> bool) \<Rightarrow> 's \<times> 'p list \<Rightarrow> 's \<times> 'p list \<Rightarrow> bool"
  for nxt finished waits holds where
  il_step: "i < length ts \<Longrightarrow> \<not> finished (ts ! i) \<Longrightarrow> (waits (ts ! i) \<longrightarrow> list_all (\<lambda>t. \<not> holds t) ts) \<Longrightarrow>
    nxt (ts ! i) s = (s', p') \<Longrightarrow> interleave nxt finished waits holds (s, ts) (s', ts[i := p'])"

inductive_cases interleaveE: "interleave nxt finished waits holds (s, ts) c"

text \<open>One request alone, for a number of steps or until it is finished.\<close>

fun solo_run :: "('p \<Rightarrow> 's \<Rightarrow> 's \<times> 'p) \<Rightarrow> ('p \<Rightarrow> bool) \<Rightarrow> nat \<Rightarrow> 's \<times> 'p \<Rightarrow> 's \<times> 'p" where
  "solo_run nxt finished 0 c = c"
| "solo_run nxt finished (Suc n) (s, p) =
     (if finished p then (s, p) else solo_run nxt finished n (nxt p s))"

lemma solo_finished [simp]: "finished p \<Longrightarrow> solo_run nxt finished n (s, p) = (s, p)"
  by (cases n) simp_all

lemma solo_add: "solo_run nxt finished (m + n) c = solo_run nxt finished n (solo_run nxt finished m c)"
proof (induction m arbitrary: c)
  case (Suc m)
  then show ?case by (cases c) simp
qed simp

definition work :: "('p \<Rightarrow> nat) \<Rightarrow> 'p list \<Rightarrow> nat" where
  "work rank ts = sum_list (map rank ts)"

lemma work_update:
  "i < length ts \<Longrightarrow> work rank (ts[i := t]) + rank (ts ! i) = work rank ts + rank t"
proof (induction ts arbitrary: i)
  case (Cons a ts)
  then show ?case by (cases i) (auto simp: work_def add_ac)
qed simp

locale scheduled =
  fixes nxt :: "'p \<Rightarrow> 's \<Rightarrow> 's \<times> 'p" and finished waits holds :: "'p \<Rightarrow> bool" and rank :: "'p \<Rightarrow> nat"
  assumes rank_down: "\<not> finished p \<Longrightarrow> rank (snd (nxt p s)) < rank p"
    and holder_runs: "holds p \<Longrightarrow> \<not> waits p \<and> \<not> finished p"
begin

lemma step_work: "interleave nxt finished waits holds c c' \<Longrightarrow> work rank (snd c') < work rank (snd c)"
proof (induction rule: interleave.induct)
  case (il_step i ts s s' p')
  have "rank p' < rank (ts ! i)" using rank_down[OF il_step(2), of s] il_step(4) by simp
  with work_update[OF il_step(1), of rank p'] show ?case by simp
qed

lemma steps_work: "(interleave nxt finished waits holds ^^ n) c c' \<Longrightarrow> n + work rank (snd c') \<le> work rank (snd c)"
proof (induction n arbitrary: c')
  case (Suc n)
  then obtain d where "(interleave nxt finished waits holds ^^ n) c d" "interleave nxt finished waits holds d c'" by auto
  with Suc.IH[of d] step_work[of d c'] show ?case by simp
qed simp

lemma enabled_unless_finished:
  assumes "t \<in> set ts" and "\<not> finished t"
  shows "\<exists>c'. interleave nxt finished waits holds (s, ts) c'"
proof (cases "list_all (\<lambda>t. \<not> holds t) ts")
  case True
  obtain i where "i < length ts" "ts ! i = t" using assms(1) by (auto simp: in_set_conv_nth)
  then show ?thesis using il_step[of i ts finished waits holds nxt s] assms(2) True
    by (metis prod.collapse)
next
  case False
  then obtain h where h: "h \<in> set ts" "holds h" by (auto simp: list_all_iff)
  then obtain i where "i < length ts" "ts ! i = h" by (auto simp: in_set_conv_nth)
  then show ?thesis using il_step[of i ts finished waits holds nxt s] holder_runs[OF h(2)]
    by (metis prod.collapse)
qed

lemma stuck_iff_finished:
  "(\<forall>c'. \<not> interleave nxt finished waits holds (s, ts) c') \<longleftrightarrow> list_all finished ts"
proof
  assume "\<forall>c'. \<not> interleave nxt finished waits holds (s, ts) c'"
  then show "list_all finished ts" unfolding list_all_iff using enabled_unless_finished by blast
next
  assume "list_all finished ts"
  then show "\<forall>c'. \<not> interleave nxt finished waits holds (s, ts) c'"
    by (auto elim!: interleaveE simp: list_all_iff)
qed

lemma solo_ends: "rank p \<le> n \<Longrightarrow> finished (snd (solo_run nxt finished n (s, p)))"
proof (induction n arbitrary: s p)
  case 0
  then show ?case using rank_down[of p s] by fastforce
next
  case (Suc n)
  show ?case
  proof (cases "finished p")
    case False
    then show ?thesis using Suc.IH[of "snd (nxt p s)" "fst (nxt p s)"] rank_down[OF False, of s] Suc.prems by simp
  qed simp
qed

text \<open>Enough steps are enough, however many more there are.\<close>

lemma solo_more:
  assumes "rank p \<le> m" and "rank p \<le> n"
  shows "solo_run nxt finished m (s, p) = solo_run nxt finished n (s, p)"
proof -
  have "solo_run nxt finished (rank p + k) (s, p) = solo_run nxt finished (rank p) (s, p)" for k
    unfolding solo_add using solo_ends[of p "rank p" s] by (metis order_refl prod.collapse solo_finished)
  from this[of "m - rank p"] this[of "n - rank p"] assms show ?thesis by simp
qed

lemma solo_step:
  assumes "\<not> finished p" and "rank p \<le> n"
  shows "solo_run nxt finished n (s, p) = solo_run nxt finished n (nxt p s)"
proof -
  have r: "rank (snd (nxt p s)) < rank p" by (rule rank_down[OF assms(1)])
  have "solo_run nxt finished n (s, p) = solo_run nxt finished (Suc (rank p - 1)) (s, p)"
    using r assms(2) by (intro solo_more) simp_all
  also have "\<dots> = solo_run nxt finished (rank p - 1) (nxt p s)" using assms(1) by simp
  also have "\<dots> = solo_run nxt finished n (nxt p s)"
    using solo_more[of "snd (nxt p s)" "rank p - 1" n "fst (nxt p s)"] r assms(2) by simp
  finally show ?thesis .
qed

text \<open>A request that runs alone while no other holds the lock is one way to schedule it.\<close>

lemma solo_interleaves:
  assumes "solo_run nxt finished n (s, p) = (s', p')" and "i < length ts"
    and "\<And>j. j < length ts \<Longrightarrow> j \<noteq> i \<Longrightarrow> \<not> holds (ts ! j)"
  shows "(interleave nxt finished waits holds)\<^sup>*\<^sup>* (s, ts[i := p]) (s', ts[i := p'])"
  using assms(1)
proof (induction n arbitrary: s p)
  case (Suc n)
  show ?case
  proof (cases "finished p")
    case True
    then show ?thesis using Suc.prems by simp
  next
    case False
    obtain s1 p1 where n1: "nxt p s = (s1, p1)" by (cases "nxt p s")
    have "waits p \<longrightarrow> list_all (\<lambda>t. \<not> holds t) (ts[i := p])"
      using assms(2,3) holder_runs[of p] by (auto simp: list_all_length nth_list_update)
    then have "interleave nxt finished waits holds (s, ts[i := p]) (s1, (ts[i := p])[i := p1])"
      using assms(2) False n1 by (intro il_step) simp_all
    moreover have "(interleave nxt finished waits holds)\<^sup>*\<^sup>* (s1, ts[i := p1]) (s', ts[i := p'])"
      using Suc.IH[of s1 p1] Suc.prems False n1 by simp
    ultimately show ?thesis by (simp add: converse_rtranclp_into_rtranclp)
  qed
qed simp

text \<open>A request that is the only one has one run.\<close>

lemma alone_runs:
  assumes "(interleave nxt finished waits holds)\<^sup>*\<^sup>* (s, [p]) (s', [p'])" and "finished p'" and "rank p \<le> n"
  shows "solo_run nxt finished n (s, p) = (s', p')"
proof -
  have "solo_run nxt finished (rank p) (s, p) = (s', p')"
    if "(interleave nxt finished waits holds)\<^sup>*\<^sup>* c (s', [p'])" "c = (s, [p])" for c s p
    using that
  proof (induction arbitrary: s p rule: converse_rtranclp_induct)
    case base
    then show ?case using assms(2) by simp
  next
    case (step y z)
    from step.hyps(1)[unfolded step.prems] obtain s1 p1 where z: "z = (s1, [p1])" and n: "\<not> finished p" "nxt p s = (s1, p1)"
      by (auto elim!: interleaveE)
    have r: "rank p1 < rank p" using rank_down[OF n(1), of s] n(2) by simp
    have "solo_run nxt finished (Suc (rank p - 1)) (s, p) = solo_run nxt finished (rank p - 1) (s1, p1)" using n by simp
    also have "\<dots> = solo_run nxt finished (rank p1) (s1, p1)" using r by (intro solo_more) simp_all
    finally show ?case using step.IH[OF z] r by simp
  qed
  from this[OF assms(1) refl] solo_more[of p n "rank p" s] assms(3) show ?thesis by simp
qed

end

end
