(* ===== verification/Concurrency.thy ===== *)
theory Concurrency
  imports Interleaving Http_Props
begin

text \<open>
  Requests that are served at the same time. The accept loop of \<open>http.rs\<close> spawns one task per
  connection, and no handler locks anything for its whole length: \<open>insert\<close> and \<open>revoke\<close> lock the
  map of the store for the change, then again for reading while the file is written
  (\<open>certificates.rs\<close>, \<open>persist\<close>); an audit event is one locked push; the refresh of the acceptor
  (\<open>tls/manager.rs\<close>, \<open>crl.rs\<close>) runs without a lock. Here \<open>handle_connection\<close> is cut into its
  atomic steps: one per call of the file system and one per critical section. A call of the file
  system is one step; a torn write is a fault of the plan.
\<close>

section \<open>Writing the store\<close>

text \<open>Where \<open>persist\<close> is: about to take the lock and serialise, and before each of its calls.\<close>

datatype persist_pc = Serializing | MakingDir string | WritingTemp string | Renaming

text \<open>\<open>Inr None\<close> is the end of \<open>persist\<close> with \<open>Ok\<close>.\<close>

fun persist_step ::
  "serde \<Rightarrow> persist_pc \<Rightarrow> certificate_store \<Rightarrow> fs \<Rightarrow> fs \<times> (certificate_store_error + persist_pc option)" where
  "persist_step sd Serializing s w =
     (w, case sd_to_string_pretty sd (st_records s) of Inl e \<Rightarrow> Inl (Serialization e)
         | Inr serialized \<Rightarrow> Inr (Some (MakingDir serialized)))"
| "persist_step sd (MakingDir serialized) s w =
     (case persist_parent s w of
        (w', Inl e) \<Rightarrow> (w', Inl (Io e)) | (w', Inr _) \<Rightarrow> (w', Inr (Some (WritingTemp serialized))))"
| "persist_step sd (WritingTemp serialized) s w =
     (case fs_write (with_extension (st_path s) ''json.tmp'') (as_bytes serialized) w of
        (w', Inl e) \<Rightarrow> (w', Inl (Io e)) | (w', Inr _) \<Rightarrow> (w', Inr (Some Renaming)))"
| "persist_step sd Renaming s w =
     (case fs_rename (with_extension (st_path s) ''json.tmp'') (st_path s) w of
        (w', Inl e) \<Rightarrow> (w', Inl (Io e)) | (w', Inr _) \<Rightarrow> (w', Inr None))"

text \<open>\<open>persist\<close> keeps the read lock from the serialisation until it returns.\<close>

fun persist_holds :: "persist_pc \<Rightarrow> bool" where
  "persist_holds Serializing = False" | "persist_holds (MakingDir _) = True"
| "persist_holds (WritingTemp _) = True" | "persist_holds Renaming = True"

fun persist_rank :: "persist_pc \<Rightarrow> nat" where
  "persist_rank Serializing = 4" | "persist_rank (MakingDir _) = 3"
| "persist_rank (WritingTemp _) = 2" | "persist_rank Renaming = 1"

lemma persist_rank_down: "persist_step sd ps s w = (w', Inr (Some ps')) \<Longrightarrow> persist_rank ps' < persist_rank ps"
  by (cases ps) (auto split: sum.splits prod.splits)

lemma persist_rank_simps [simp]: "0 < persist_rank ps" "persist_rank ps \<le> 4" "persist_rank ps < 5" "persist_rank ps \<le> 6" "persist_rank ps \<le> 11"
  by (cases ps; simp)+

section \<open>The steps of a revocation\<close>

text \<open>What the request has taken from its path and body, and its readings of the clock.\<close>

record revoke_task =
  rt_id :: uuid
  rt_reason :: string
  rt_now :: instant
  rt_crl :: crl_fresh

text \<open>Where it is; the record is the one \<open>revoke\<close> has changed and will answer with.\<close>

datatype 'k revoke_pc =
  PcStart
| PcPersist certificate_record persist_pc
| PcNumberExists certificate_record
| PcNumberRead certificate_record
| PcNumberWrite certificate_record u64
| PcSign certificate_record u64
| PcWriteCrl certificate_record bytes
| PcInstall certificate_record "'k tls_config"
| PcAnswered http_outcome
| PcPanicked

definition with_fs :: "fs \<Rightarrow> 'k http_state \<Rightarrow> 'k http_state" where
  "with_fs w st = st\<lparr>hs_service := (hs_service st)\<lparr>sv_fs := w\<rparr>\<rparr>"

definition with_store :: "certificate_store \<Rightarrow> 'k http_state \<Rightarrow> 'k http_state" where
  "with_store s st = st\<lparr>hs_service := (hs_service st)\<lparr>sv_store := s\<rparr>\<rparr>"

definition not_refreshed :: "'k revoke_pc" where
  "not_refreshed = PcAnswered (Answer 500 (ErrorBody
     ''certificate revoked but TLS revocation state could not be refreshed''))"

definition persist_failed :: "certificate_store_error \<Rightarrow> 'k revoke_pc" where
  "persist_failed e = PcAnswered (Answer 500 (ErrorBody (store_error_text e)))"

definition number_found :: "certificate_record \<Rightarrow> u64 \<Rightarrow> 'k revoke_pc" where
  "number_found r current =
     (case checked_add current 1 of None \<Rightarrow> not_refreshed | Some n \<Rightarrow> PcNumberWrite r n)"

fun revoke_step ::
  "('key, 'iss, 'c, 'k) http_env \<Rightarrow> revoke_task \<Rightarrow> 'k revoke_pc \<Rightarrow> 'k http_state \<Rightarrow> 'k http_state \<times> 'k revoke_pc"
where
  "revoke_step env q PcStart st =
     (let s = sv_store (hs_service st) in
      case hm_get (st_records s) (rt_id q) of
        None \<Rightarrow> (st, PcAnswered (Answer 404 (ErrorBody ''certificate not found'')))
      | Some r \<Rightarrow>
          (let updated = (if \<not> cr_revoked r
                          then r\<lparr>cr_revoked := True, cr_revoked_at := Some (rt_now q),
                                 cr_revocation_reason := Some (rt_reason q)\<rparr>
                          else r)
           in (with_store (s\<lparr>st_records := hm_insert (rt_id q) updated (st_records s)\<rparr>) st,
               PcPersist updated Serializing)))"
| "revoke_step env q (PcPersist r ps) st =
     (case persist_step (he_serde env) ps (sv_store (hs_service st)) (sv_fs (hs_service st)) of
        (w, Inl e) \<Rightarrow> (with_fs w st, persist_failed e)
      | (w, Inr None) \<Rightarrow> (with_fs w st, PcNumberExists r)
      | (w, Inr (Some ps')) \<Rightarrow> (with_fs w st, PcPersist r ps'))"
| "revoke_step env q (PcNumberExists r) st =
     (case fs_exists (crl_number_path (he_data_dir env)) (sv_fs (hs_service st)) of (w, ex) \<Rightarrow>
        (with_fs w st, if ex then PcNumberRead r else number_found r 0))"
| "revoke_step env q (PcNumberRead r) st =
     (case fs_read_to_string (crl_number_path (he_data_dir env)) (sv_fs (hs_service st)) of
        (w, Inl e) \<Rightarrow> (with_fs w st, not_refreshed)
      | (w, Inr v) \<Rightarrow>
          (with_fs w st, case parse_u64 (trim v) of None \<Rightarrow> not_refreshed | Some current \<Rightarrow> number_found r current))"
| "revoke_step env q (PcNumberWrite r n) st =
     (case fs_write (crl_number_path (he_data_dir env)) (as_bytes (show_nat (unat n))) (sv_fs (hs_service st)) of
        (w, Inl e) \<Rightarrow> (with_fs w st, not_refreshed)
      | (w, Inr _) \<Rightarrow> (with_fs w st, PcSign r n))"
| "revoke_step env q (PcSign r n) st =
     (case signed_der (he_signer env) (int_issuer (he_ca env)) n
             (crl_for_store (cf_id (rt_crl q)) (cf_now (rt_crl q)) (cf_generated_at (rt_crl q))
               (sv_store (hs_service st))) of
        Panic \<Rightarrow> (st, PcPanicked)
      | Done (Inl e) \<Rightarrow> (st, not_refreshed)
      | Done (Inr der) \<Rightarrow> (st, PcWriteCrl r der))"
| "revoke_step env q (PcWriteCrl r der) st =
     (case fs_write (crl_der_path (he_data_dir env)) der (sv_fs (hs_service st)) of
        (w, Inl e) \<Rightarrow> (with_fs w st, not_refreshed)
      | (w, Inr _) \<Rightarrow>
          (with_fs w st,
           case build_mtls_server_config (he_rustls env) (ta_server_certificate_pem (hs_acceptor st))
                  (ta_server_private_key_pem (hs_acceptor st)) (ta_client_ca_pem (hs_acceptor st)) (Some der) of
             Inl e \<Rightarrow> not_refreshed | Inr config \<Rightarrow> PcInstall r config))"
| "revoke_step env q (PcInstall r config) st =
     (st\<lparr>hs_acceptor := acceptor_replace config (hs_acceptor st)\<rparr>, PcAnswered (Answer 200 (RecordBody r)))"
| "revoke_step env q (PcAnswered out) st = (st, PcAnswered out)"
| "revoke_step env q PcPanicked st = (st, PcPanicked)"

section \<open>The steps of a request to issue\<close>

record issue_task =
  it_fresh :: issue_fresh
  it_principal :: authenticated_principal
  it_request :: issue_certificate_request

text \<open>Where it is; the string is the certificate as PEM, which the answer carries.\<close>

datatype issue_pc =
  IcStart
| IcInsert certificate_record string
| IcPersist string persist_pc
| IcAudit string
| IcAnswered http_outcome

definition issue_failed :: "issuance_service_error \<Rightarrow> issue_pc" where
  "issue_failed e =
     (let status_code = (case e of Unauthorized \<Rightarrow> 403 | _ \<Rightarrow> 400) in
      IcAnswered (Answer status_code (ErrorBody (service_error_text e))))"

fun issue_step ::
  "('key, 'iss, 'c, 'k) http_env \<Rightarrow> issue_task \<Rightarrow> issue_pc \<Rightarrow> 'k http_state \<Rightarrow> 'k http_state \<times> issue_pc"
where
  "issue_step env t IcStart st =
     (case issue_prepared (he_rcgen env) (he_reader env) (he_policy env) (it_fresh t) (it_principal t) (he_ca env)
             (it_request t) (hs_service st) of
        (sv, Inl e) \<Rightarrow> (st\<lparr>hs_service := sv\<rparr>, issue_failed e)
      | (sv, Inr (r, pem)) \<Rightarrow> (st\<lparr>hs_service := sv\<rparr>, IcInsert r pem))"
| "issue_step env t (IcInsert r pem) st =
     (let s = sv_store (hs_service st) in
      (with_store (s\<lparr>st_records := hm_insert (cr_id r) r (st_records s)\<rparr>) st, IcPersist pem Serializing))"
| "issue_step env t (IcPersist pem ps) st =
     (case persist_step (he_serde env) ps (sv_store (hs_service st)) (sv_fs (hs_service st)) of
        (w, Inl e) \<Rightarrow> (with_fs w st, issue_failed (StoreFailed (store_error_text e)))
      | (w, Inr None) \<Rightarrow> (with_fs w st, IcAudit pem)
      | (w, Inr (Some ps')) \<Rightarrow> (with_fs w st, IcPersist pem ps'))"
| "issue_step env t (IcAudit pem) st =
     (st\<lparr>hs_service := record_event (if_event_id (it_fresh t)) (if_event_time (it_fresh t)) CertificateIssued Success
           (it_principal t) (iq_common_name (it_request t)) None (hs_service st)\<rparr>,
      IcAnswered (Answer 201 (IssuedBody (issued_response (it_request t) pem))))"
| "issue_step env t (IcAnswered out) st = (st, IcAnswered out)"

section \<open>Requests\<close>

text \<open>
  A request is what was read from an accepted connection, then one of the two handlers that
  change the state, or answered: the handlers that only read do so in one step.
\<close>

datatype 'k request =
  Arriving http_fresh mtls_identity bytes
| Revoking revoke_task "'k revoke_pc"
| Issuing issue_task issue_pc
| Served http_outcome

definition arrive_issue ::
  "('key, 'iss, 'c, 'k) http_env \<Rightarrow> http_fresh \<Rightarrow> mtls_identity \<Rightarrow> bytes \<Rightarrow> 'k request" where
  "arrive_issue env fr i body =
     (case he_issue_body env body of
        None \<Rightarrow> Served (Answer 400 (ErrorBody ''invalid JSON request body''))
      | Some request \<Rightarrow>
          (let roles = roles_for (he_authorization env) i;
               principal = \<lparr>pr_id = mt_id i, pr_name = mt_name i, pr_roles = roles\<rparr>
           in Issuing \<lparr>it_fresh = hf_issue fr, it_principal = principal, it_request = request\<rparr> IcStart))"

definition arrive_revoke ::
  "('key, 'iss, 'c, 'k) http_env \<Rightarrow> http_fresh \<Rightarrow> mtls_identity \<Rightarrow> string \<Rightarrow> bytes \<Rightarrow> 'k request" where
  "arrive_revoke env fr i path body =
     (if \<not> can_issue_certificates (he_authorization env) i
      then Served (Answer 403 (ErrorBody ''certificate revocation is not authorized''))
      else case certificate_id_from_revoke_path env path of
        None \<Rightarrow> Served (Answer 400 (ErrorBody ''invalid certificate id''))
      | Some cid \<Rightarrow>
      (case (if body = [] then Some None else he_revoke_body env body) of
        None \<Rightarrow> Served (Answer 400 (ErrorBody ''invalid JSON request body''))
      | Some reason \<Rightarrow>
          Revoking \<lparr>rt_id = cid, rt_reason = (case reason of None \<Rightarrow> ''revoked by operator'' | Some r \<Rightarrow> r),
            rt_now = hf_revoke_now fr, rt_crl = hf_crl fr\<rparr> PcStart))"

definition arrive_route ::
  "('key, 'iss, 'c, 'k) http_env \<Rightarrow> http_fresh \<Rightarrow> mtls_identity \<Rightarrow> string \<Rightarrow> string \<Rightarrow> bytes \<Rightarrow> 'k http_state
   \<Rightarrow> 'k request" where
  "arrive_route env fr i meth path body st =
     (if meth = ''GET'' \<and> path = ''/health'' then Served (Answer 200 (HealthBody ''ok'' ''daemon-pki''))
      else if meth = ''POST'' \<and> path = ''/v1/certificates/issue'' then arrive_issue env fr i body
      else if meth = ''GET'' \<and> path = ''/v1/certificates'' then Served (handle_list_certificates env i st)
      else if meth = ''GET'' \<and> starts_with path ''/v1/certificates/'' then Served (handle_get_certificate env i path st)
      else if meth = ''POST'' \<and> ends_with path ''/revoke'' \<and> starts_with path ''/v1/certificates/''
      then arrive_revoke env fr i path body
      else Served (Answer 404 (ErrorBody ''endpoint not found'')))"

definition arrive ::
  "('key, 'iss, 'c, 'k) http_env \<Rightarrow> http_fresh \<Rightarrow> mtls_identity \<Rightarrow> bytes \<Rightarrow> 'k http_state \<Rightarrow> 'k request" where
  "arrive env fr i request_bytes st =
     (if request_bytes = [] then Served NoAnswer
      else case he_parse_request env request_bytes of
        ParseError \<Rightarrow> Served ConnectionError
      | Partial \<Rightarrow> Served (Answer 400 (ErrorBody ''incomplete HTTP request''))
      | Complete body_offset m p \<Rightarrow>
          (let meth = (case m of None \<Rightarrow> [] | Some x \<Rightarrow> x);
               path = (case p of None \<Rightarrow> [] | Some x \<Rightarrow> x);
               body = drop body_offset request_bytes
           in arrive_route env fr i meth path body st))"

fun request_step ::
  "('key, 'iss, 'c, 'k) http_env \<Rightarrow> 'k request \<Rightarrow> 'k http_state \<Rightarrow> 'k http_state \<times> 'k request" where
  "request_step env (Arriving fr i bs) st = (st, arrive env fr i bs st)"
| "request_step env (Revoking q pc) st = (case revoke_step env q pc st of (st', pc') \<Rightarrow> (st', Revoking q pc'))"
| "request_step env (Issuing t pc) st = (case issue_step env t pc st of (st', pc') \<Rightarrow> (st', Issuing t pc'))"
| "request_step env (Served out) st = (st, Served out)"

fun answer_of :: "'k request \<Rightarrow> http_outcome option" where
  "answer_of (Revoking _ (PcAnswered out)) = Some out" | "answer_of (Issuing _ (IcAnswered out)) = Some out"
| "answer_of (Served out) = Some out" | "answer_of _ = None"

fun panicked :: "'k request \<Rightarrow> bool" where
  "panicked (Revoking _ PcPanicked) = True" | "panicked _ = False"

definition rq_finished :: "'k request \<Rightarrow> bool" where
  "rq_finished rq = (answer_of rq \<noteq> None \<or> panicked rq)"

text \<open>\<open>insert\<close> and \<open>revoke\<close> need the write lock for their change.\<close>

fun rq_waits :: "'k request \<Rightarrow> bool" where
  "rq_waits (Revoking _ PcStart) = True" | "rq_waits (Issuing _ (IcInsert _ _)) = True" | "rq_waits _ = False"

text \<open>Where a request is in its call of \<open>persist\<close>, and whether it has the read lock there.\<close>

fun writing :: "'k request \<Rightarrow> persist_pc option" where
  "writing (Revoking _ (PcPersist _ ps)) = Some ps" | "writing (Issuing _ (IcPersist _ ps)) = Some ps"
| "writing _ = None"

definition rq_holds :: "'k request \<Rightarrow> bool" where
  "rq_holds rq = (case writing rq of None \<Rightarrow> False | Some ps \<Rightarrow> persist_holds ps)"

section \<open>Every schedule ends\<close>

fun pc_rank :: "'k revoke_pc \<Rightarrow> nat" where
  "pc_rank PcStart = 11" | "pc_rank (PcPersist _ ps) = 6 + persist_rank ps" | "pc_rank (PcNumberExists _) = 6"
| "pc_rank (PcNumberRead _) = 5" | "pc_rank (PcNumberWrite _ _) = 4" | "pc_rank (PcSign _ _) = 3"
| "pc_rank (PcWriteCrl _ _) = 2" | "pc_rank (PcInstall _ _) = 1" | "pc_rank (PcAnswered _) = 0"
| "pc_rank PcPanicked = 0"

fun ic_rank :: "issue_pc \<Rightarrow> nat" where
  "ic_rank IcStart = 7" | "ic_rank (IcInsert _ _) = 6" | "ic_rank (IcPersist _ ps) = 1 + persist_rank ps"
| "ic_rank (IcAudit _) = 1" | "ic_rank (IcAnswered _) = 0"

fun rq_rank :: "'k request \<Rightarrow> nat" where
  "rq_rank (Arriving _ _ _) = 12" | "rq_rank (Revoking _ pc) = pc_rank pc" | "rq_rank (Issuing _ pc) = ic_rank pc"
| "rq_rank (Served _) = 0"

lemma answer_ranks [simp]:
  "pc_rank not_refreshed = 0" "pc_rank (persist_failed e) = 0" "pc_rank (number_found r n) < 5" "pc_rank (number_found r n) < 6"
  "ic_rank (issue_failed ie) = 0"
  by (simp_all add: not_refreshed_def persist_failed_def number_found_def issue_failed_def Let_def split: option.split)

lemma rank_finished: "rq_finished rq \<longleftrightarrow> rq_rank rq = 0"
  unfolding rq_finished_def by (cases rq rule: rq_rank.cases; simp) (rename_tac pc, case_tac pc; simp)+

lemma revoke_step_rank: "0 < pc_rank pc \<Longrightarrow> pc_rank (snd (revoke_step env q pc st)) < pc_rank pc"
  by (cases pc) (auto simp: Let_def persist_rank_down split: option.split sum.split prod.split may_panic.split)

lemma issue_step_rank: "0 < ic_rank pc \<Longrightarrow> ic_rank (snd (issue_step env t pc st)) < ic_rank pc"
  by (cases pc) (auto simp: Let_def persist_rank_down split: option.split sum.split prod.split)

lemma arrive_rank: "rq_rank (arrive env fr i bs st) < 12"
  by (simp add: arrive_def arrive_route_def arrive_issue_def arrive_revoke_def Let_def split: http_parse.split option.split)

lemma request_step_rank: "\<not> rq_finished rq \<Longrightarrow> rq_rank (snd (request_step env rq st)) < rq_rank rq"
  using revoke_step_rank[of _ env _ st] issue_step_rank[of _ env _ st]
  by (cases rq) (simp_all add: rank_finished arrive_rank split: prod.split, (metis snd_conv)+)

lemma rq_rank_le: "rq_rank rq \<le> 12"
proof (cases rq)
  case (Revoking q pc)
  then show ?thesis by (cases pc) simp_all
next
  case (Issuing t pc)
  then show ?thesis by (cases pc) simp_all
qed simp_all

interpretation serving: scheduled "request_step env" rq_finished rq_waits rq_holds rq_rank
  for env :: "('key, 'iss, 'c, 'k) http_env"
proof
  show "\<not> rq_finished p \<Longrightarrow> rq_rank (snd (request_step env p s)) < rq_rank p" for p s
    by (rule request_step_rank)
  show "rq_holds p \<Longrightarrow> \<not> rq_waits p \<and> \<not> rq_finished p" for p :: "'k request"
    by (cases p rule: writing.cases) (simp_all add: rq_holds_def rq_finished_def)
qed

definition serve_step ::
  "('key, 'iss, 'c, 'k) http_env \<Rightarrow> 'k http_state \<times> 'k request list \<Rightarrow> 'k http_state \<times> 'k request list \<Rightarrow> bool" where
  "serve_step env = interleave (request_step env) rq_finished rq_waits rq_holds"

section \<open>One request alone is the handler\<close>

definition solo_end ::
  "('key, 'iss, 'c, 'k) http_env \<Rightarrow> 'k http_state \<times> 'k request \<Rightarrow> 'k http_state \<times> 'k request" where
  "solo_end env c = solo_run (request_step env) rq_finished 12 c"

lemma solo_end_finished [simp]: "rq_finished rq \<Longrightarrow> solo_end env (st, rq) = (st, rq)"
  by (simp add: solo_end_def)

lemma solo_end_step:
  assumes "\<not> rq_finished rq"
  shows "solo_end env (st, rq) = solo_end env (request_step env rq st)"
  unfolding solo_end_def using serving.solo_step[OF assms rq_rank_le, where env = env] .

lemma finished_simps [simp]:
  "rq_finished (Arriving fr i bs) = False" "rq_finished (Served out)"
  "rq_finished (Revoking q PcStart) = False" "rq_finished (Revoking q (PcPersist r ps)) = False"
  "rq_finished (Revoking q (PcNumberExists r)) = False" "rq_finished (Revoking q (PcNumberRead r)) = False"
  "rq_finished (Revoking q (PcNumberWrite r n)) = False" "rq_finished (Revoking q (PcSign r n)) = False"
  "rq_finished (Revoking q (PcWriteCrl r der)) = False" "rq_finished (Revoking q (PcInstall r cfg)) = False"
  "rq_finished (Revoking q (PcAnswered out))" "rq_finished (Revoking q PcPanicked)"
  "rq_finished (Revoking q not_refreshed)" "rq_finished (Revoking q (persist_failed e))"
  "rq_finished (Issuing t IcStart) = False" "rq_finished (Issuing t (IcInsert r2 pem)) = False"
  "rq_finished (Issuing t (IcPersist pem ps)) = False" "rq_finished (Issuing t (IcAudit pem)) = False"
  "rq_finished (Issuing t (IcAnswered out))" "rq_finished (Issuing t (issue_failed ie))"
  using persist_rank_simps(1)[of ps] by (simp_all add: rank_finished del: persist_rank_simps)

lemma with_fs_simps [simp]:
  "sv_store (hs_service (with_fs w st)) = sv_store (hs_service st)" "sv_fs (hs_service (with_fs w st)) = w"
  "hs_acceptor (with_fs w st) = hs_acceptor st" "with_fs w (with_fs v st) = with_fs w st"
  "sv_audit (hs_service (with_fs w st)) = sv_audit (hs_service st)" "with_fs (sv_fs (hs_service st)) st = st"
  by (simp_all add: with_fs_def)

lemma with_store_simps [simp]:
  "sv_store (hs_service (with_store s st)) = s" "sv_fs (hs_service (with_store s st)) = sv_fs (hs_service st)"
  "hs_acceptor (with_store s st) = hs_acceptor st" "sv_audit (hs_service (with_store s st)) = sv_audit (hs_service st)"
  by (simp_all add: with_store_def)

text \<open>The steps of \<open>persist\<close> are \<open>persist\<close>, in whichever handler.\<close>

lemma solo_persist:
  assumes "\<And>ps st. request_step env (K ps) st =
      (case persist_step (he_serde env) ps (sv_store (hs_service st)) (sv_fs (hs_service st)) of
         (w, Inl e) \<Rightarrow> (with_fs w st, F e) | (w, Inr None) \<Rightarrow> (with_fs w st, D) | (w, Inr (Some ps')) \<Rightarrow> (with_fs w st, K ps'))"
    and "\<And>ps. \<not> rq_finished (K ps)"
  shows "solo_end env (st, K Serializing) =
     (case store_persist (he_serde env) (sv_store (hs_service st)) (sv_fs (hs_service st)) of
        (w, Inl e) \<Rightarrow> solo_end env (with_fs w st, F e) | (w, Inr _) \<Rightarrow> solo_end env (with_fs w st, D))"
  by (simp add: solo_end_step[OF assms(2)] assms(1) store_persist_def Let_def split: sum.split prod.split)

lemma solo_revoke_persist:
  "solo_end env (st, Revoking q (PcPersist r Serializing)) =
     (case store_persist (he_serde env) (sv_store (hs_service st)) (sv_fs (hs_service st)) of
        (w, Inl e) \<Rightarrow> (with_fs w st, Revoking q (persist_failed e))
      | (w, Inr _) \<Rightarrow> solo_end env (with_fs w st, Revoking q (PcNumberExists r)))"
  by (subst solo_persist[where K = "\<lambda>ps. Revoking q (PcPersist r ps)" and F = "\<lambda>e. Revoking q (persist_failed e)"
        and D = "Revoking q (PcNumberExists r)"]) (simp_all split: sum.split prod.split option.split)

lemma solo_found:
  "solo_end env (st, Revoking q (number_found r c)) =
     (case checked_add c 1 of None \<Rightarrow> (st, Revoking q not_refreshed)
      | Some n \<Rightarrow> solo_end env (st, Revoking q (PcNumberWrite r n)))"
  by (simp add: number_found_def split: option.split)

lemma solo_number:
  "solo_end env (st, Revoking q (PcNumberExists r)) =
     (case next_crl_number (he_data_dir env) (sv_fs (hs_service st)) of
        (w, Inl e) \<Rightarrow> (with_fs w st, Revoking q not_refreshed)
      | (w, Inr n) \<Rightarrow> solo_end env (with_fs w st, Revoking q (PcSign r n)))"
  by (simp add: solo_end_step solo_found next_crl_number_def current_crl_number_def Let_def
      split: sum.split prod.split option.split)

lemma solo_refresh:
  "case acceptor_refresh (he_rustls env) (he_signer env) (int_issuer (he_ca env)) (he_data_dir env) (rt_crl q)
          (sv_store (hs_service st)) (sv_fs (hs_service st)) (hs_acceptor st) of
     Panic \<Rightarrow> panicked (snd (solo_end env (st, Revoking q (PcNumberExists r))))
   | Done ((w, m), Inl _) \<Rightarrow> solo_end env (st, Revoking q (PcNumberExists r)) =
       (with_fs w st\<lparr>hs_acceptor := m\<rparr>, Revoking q not_refreshed)
   | Done ((w, m), Inr _) \<Rightarrow> solo_end env (st, Revoking q (PcNumberExists r)) =
       (with_fs w st\<lparr>hs_acceptor := m\<rparr>, Revoking q (PcAnswered (Answer 200 (RecordBody r))))"
  by (auto simp: solo_number solo_end_step acceptor_refresh_def generate_and_persist_def
      split: sum.split prod.split may_panic.split)

text \<open>A request has ended as a handler does: with its answer in its state, or with its panic.\<close>

definition ends_as :: "'k http_state \<times> 'k request \<Rightarrow> ('k http_state \<times> http_outcome) may_panic \<Rightarrow> bool" where
  "ends_as c h =
     (case h of Panic \<Rightarrow> panicked (snd c) | Done (st', out) \<Rightarrow> fst c = st' \<and> answer_of (snd c) = Some out)"

lemma ends_as_simps [simp]:
  "ends_as c Panic \<longleftrightarrow> panicked (snd c)"
  "ends_as (st, rq) (Done (st', out)) \<longleftrightarrow> st = st' \<and> answer_of rq = Some out"
  by (simp_all add: ends_as_def)

lemma solo_revoke:
  "ends_as (solo_end env (st, arrive_revoke env fr i path body)) (handle_revoke_certificate env fr i path body st)"
proof (cases "arrive_revoke env fr i path body")
  case (Revoking q pc)
  then obtain cid reason where c: "can_issue_certificates (he_authorization env) i"
    "certificate_id_from_revoke_path env path = Some cid" "(if body = [] then Some None else he_revoke_body env body) = Some reason"
    and q: "q = \<lparr>rt_id = cid, rt_reason = (case reason of None \<Rightarrow> ''revoked by operator'' | Some r \<Rightarrow> r),
      rt_now = hf_revoke_now fr, rt_crl = hf_crl fr\<rparr>" and pc: "pc = PcStart"
    unfolding arrive_revoke_def by (auto split: if_splits option.splits)
  have q': "rt_id q = cid" "rt_reason q = (case reason of None \<Rightarrow> ''revoked by operator'' | Some r \<Rightarrow> r)"
    "rt_now q = hf_revoke_now fr" "rt_crl q = hf_crl fr" by (simp_all add: q)
  note h = handle_revoke_certificate_def[of env fr i path body st, unfolded Let_def c(2) option.case c(3), folded q'(2-4)]
  show ?thesis
  proof (cases "hm_get (st_records (sv_store (hs_service st))) cid")
    case None
    then show ?thesis using c(1) unfolding Revoking pc
      by (simp add: h solo_end_step q'(1) store_revoke_def Let_def)
  next
    case (Some r)
    let ?r = "revoked_by (rt_now q) (rt_reason q) r"
    let ?s = "(sv_store (hs_service st))\<lparr>st_records := hm_insert cid ?r (st_records (sv_store (hs_service st)))\<rparr>"
    let ?st = "with_store ?s st"
    have start: "solo_end env (st, Revoking q PcStart) = solo_end env (?st, Revoking q (PcPersist ?r Serializing))"
      by (simp add: solo_end_step[of "Revoking q PcStart"] q'(1) Some revoked_by_def Let_def)
    have rv: "store_revoke (he_serde env) (rt_now q) cid (rt_reason q) (sv_store (hs_service st)) (sv_fs (hs_service st)) =
        (case store_persist (he_serde env) ?s (sv_fs (hs_service st)) of (w', x) \<Rightarrow> ((?s, w'), map_sum id (\<lambda>_. Some ?r) x))"
      by (simp add: store_revoke_cases store_get_def Some)
    obtain w x where p: "store_persist (he_serde env) ?s (sv_fs (hs_service st)) = (w, x)"
      by (cases "store_persist (he_serde env) ?s (sv_fs (hs_service st))")
    note rv' = rv[unfolded p prod.case]
    note start' = start[unfolded solo_revoke_persist with_store_simps p prod.case]
    show ?thesis
    proof (cases x)
      case (Inl e)
      then show ?thesis using c(1) unfolding Revoking pc
        by (simp add: h rv' start' persist_failed_def with_fs_def with_store_def)
    next
      case (Inr u)
      note ref = solo_refresh[where env = env and q = q and st = "with_fs w ?st" and r = ?r, unfolded with_fs_simps with_store_simps]
      show ?thesis
      proof (cases "acceptor_refresh (he_rustls env) (he_signer env) (int_issuer (he_ca env)) (he_data_dir env)
          (rt_crl q) ?s w (hs_acceptor st)")
        case Panic
        then show ?thesis using c(1) Inr ref unfolding Revoking pc by (auto simp: h rv' start' split: prod.split)
      next
        case (Done y)
        obtain w2 m z where y: "y = ((w2, m), z)" by (metis prod.collapse)
        with ref Done show ?thesis using c(1) Inr unfolding Revoking pc
          by (cases z) (simp_all add: h rv' start' not_refreshed_def with_fs_def with_store_def)
      qed
    qed
  qed
qed (auto simp: arrive_revoke_def handle_revoke_certificate_def split: if_splits option.splits)

lemma solo_issue:
  "ends_as (solo_end env (st, arrive_issue env fr i body)) (Done (handle_issue env fr i body st))"
proof (cases "he_issue_body env body")
  case None
  then show ?thesis by (simp add: arrive_issue_def handle_issue_def)
next
  case (Some rq)
  let ?p = "\<lparr>pr_id = mt_id i, pr_name = mt_name i, pr_roles = roles_for (he_authorization env) i\<rparr>"
  let ?t = "\<lparr>it_fresh = hf_issue fr, it_principal = ?p, it_request = rq\<rparr>"
  have a: "arrive_issue env fr i body = Issuing ?t IcStart" by (simp add: arrive_issue_def Some Let_def)
  obtain sv x where prep: "issue_prepared (he_rcgen env) (he_reader env) (he_policy env) (hf_issue fr) ?p (he_ca env) rq
      (hs_service st) = (sv, x)"
    by (cases "issue_prepared (he_rcgen env) (he_reader env) (he_policy env) (hf_issue fr) ?p (he_ca env) rq (hs_service st)")
  show ?thesis
  proof (cases x)
    case (Inl e)
    then show ?thesis unfolding a
      by (simp add: solo_end_step prep handle_issue_def Some service_issue_def issue_failed_def Let_def)
  next
    case (Inr y)
    obtain r pem where y: "y = (r, pem)" by (cases y)
    let ?s = "(sv_store sv)\<lparr>st_records := hm_insert (cr_id r) r (st_records (sv_store sv))\<rparr>"
    let ?st = "with_store ?s (st\<lparr>hs_service := sv\<rparr>)"
    obtain w z where p: "store_persist (he_serde env) ?s (sv_fs sv) = (w, z)" by (cases "store_persist (he_serde env) ?s (sv_fs sv)")
    have "solo_end env (st, Issuing ?t IcStart) = solo_end env (?st, Issuing ?t (IcPersist pem Serializing))"
      using Inr by (simp add: solo_end_step prep y Let_def)
    also have "\<dots> = (case z of Inl e \<Rightarrow> solo_end env (with_fs w ?st, Issuing ?t (issue_failed (StoreFailed (store_error_text e))))
        | Inr _ \<Rightarrow> solo_end env (with_fs w ?st, Issuing ?t (IcAudit pem)))"
      using p by (subst solo_persist[where K = "\<lambda>ps. Issuing ?t (IcPersist pem ps)" and D = "Issuing ?t (IcAudit pem)"
            and F = "\<lambda>e. Issuing ?t (issue_failed (StoreFailed (store_error_text e)))"])
        (simp_all split: sum.split prod.split option.split)
    finally have e: "solo_end env (st, Issuing ?t IcStart) = \<dots>" .
    show ?thesis using Inr unfolding a e
      by (cases z) (simp_all add: solo_end_step prep y handle_issue_def Some service_issue_def store_insert_def p
          issue_failed_def with_fs_def with_store_def Let_def)
  qed
qed

lemma solo_arrival: "ends_as (solo_end env (st, Arriving fr i bs)) (handle_connection env fr i bs st)"
  using solo_issue[of env st fr i] solo_revoke[of env st fr i]
  by (simp add: solo_end_step[of "Arriving fr i bs"] arrive_def handle_connection_def arrive_route_def route_def Let_def
      split: http_parse.split)

text \<open>A revocation stays one, so alone it ends with the handler's answer.\<close>

lemma solo_revoking:
  "\<exists>pc'. snd (solo_run (request_step env) rq_finished n (st, Revoking q pc)) = Revoking q pc'"
proof (induction n arbitrary: st pc)
  case (Suc n)
  obtain st1 pc1 where "request_step env (Revoking q pc) st = (st1, Revoking q pc1)"
    by (cases "revoke_step env q pc st") simp
  then show ?case using Suc.IH[of st1 pc1] by simp
qed simp

lemma revoke_alone:
  assumes "arrive_revoke env fr i path body = Revoking q pc"
    and "handle_revoke_certificate env fr i path body st = Done (st', out)"
  shows "solo_end env (st, Revoking q PcStart) = (st', Revoking q (PcAnswered out))"
proof -
  have pc: "pc = PcStart" using assms(1) by (auto simp: arrive_revoke_def split: if_splits option.splits)
  obtain pc' where pc': "snd (solo_end env (st, Revoking q PcStart)) = Revoking q pc'"
    unfolding solo_end_def using solo_revoking by blast
  have "fst (solo_end env (st, Revoking q PcStart)) = st' \<and> answer_of (Revoking q pc') = Some out"
    using solo_revoke[of env st fr i path body] pc' by (simp add: assms pc ends_as_def)
  moreover from this have "pc' = PcAnswered out" by (cases pc') simp_all
  ultimately show ?thesis using pc' by (metis prod.collapse)
qed

end
