(* ===== verification/Race_Props.thy ===== *)
theory Race_Props
  imports Concurrency
begin

text \<open>
  What holds of concurrent requests under every schedule: each request alone is its handler;
  every schedule ends; answers and the installed list are sound.
\<close>

section \<open>Steps of the scheduler\<close>

lemma serve_stepE:
  assumes "serve_step env (st, ts) c"
  obtains i st' rq' where "i < length ts" "\<not> rq_finished (ts ! i)"
    "rq_waits (ts ! i) \<longrightarrow> list_all (\<lambda>t. \<not> rq_holds t) ts" "request_step env (ts ! i) st = (st', rq')"
    "c = (st', ts[i := rq'])"
  using assms unfolding serve_step_def by (elim interleaveE) blast

lemma serve_steps_length: "(serve_step env)\<^sup>*\<^sup>* c c' \<Longrightarrow> length (snd c') = length (snd c)"
proof (induction rule: rtranclp_induct)
  case (step y z)
  obtain st ts where "y = (st, ts)" by (cases y)
  with step show ?case by (auto elim!: serve_stepE)
qed simp

lemma alone_reaches:
  "(serve_step env)\<^sup>*\<^sup>* (st, [rq]) (fst (solo_end env (st, rq)), [snd (solo_end env (st, rq))])"
  using serving.solo_interleaves[where env = env and n = 12 and s = st and p = rq and i = 0 and ts = "[rq]"
      and s' = "fst (solo_end env (st, rq))" and p' = "snd (solo_end env (st, rq))"]
  by (simp add: serve_step_def solo_end_def)

lemma alone_ends:
  assumes "rq_finished rq'"
  shows "(serve_step env)\<^sup>*\<^sup>* (st, [rq]) (st', [rq']) \<longleftrightarrow> solo_end env (st, rq) = (st', rq')"
  using serving.alone_runs[where env = env and s = st and p = rq and s' = st' and p' = rq', OF _ assms rq_rank_le]
    alone_reaches[of env st rq] by (auto simp: serve_step_def solo_end_def)

section \<open>What a request has promised\<close>

abbreviation store_of :: "'k http_state \<Rightarrow> certificate_store" where
  "store_of st \<equiv> sv_store (hs_service st)"

abbreviation files_of :: "'k http_state \<Rightarrow> fs" where
  "files_of st \<equiv> sv_fs (hs_service st)"

fun pc_record :: "'k revoke_pc \<Rightarrow> certificate_record option" where
  "pc_record (PcPersist r _) = Some r" | "pc_record (PcNumberExists r) = Some r" | "pc_record (PcNumberRead r) = Some r"
| "pc_record (PcNumberWrite r _) = Some r" | "pc_record (PcSign r _) = Some r"
| "pc_record (PcWriteCrl r _) = Some r" | "pc_record (PcInstall r _) = Some r"
| "pc_record (PcAnswered (Answer sc (RecordBody r))) = Some r" | "pc_record _ = None"

lemma pc_record_answers [simp]: "pc_record not_refreshed = None" "pc_record (persist_failed e) = None"
  "pc_record (number_found r n) = (if checked_add n 1 = None then None else Some r)"
  by (simp_all add: not_refreshed_def persist_failed_def number_found_def split: option.split)

fun ic_response :: "issue_task \<Rightarrow> issue_pc \<Rightarrow> issue_certificate_response option" where
  "ic_response t (IcPersist pem _) = Some (issued_response (it_request t) pem)"
| "ic_response t (IcAudit pem) = Some (issued_response (it_request t) pem)"
| "ic_response t (IcAnswered (Answer sc (IssuedBody resp))) = Some resp" | "ic_response t _ = None"

lemma ic_response_failed [simp]: "ic_response t (issue_failed e) = None"
  by (simp add: issue_failed_def Let_def)

text \<open>The id of a record, and what is to hold of the record from now on.\<close>

fun kept :: "'k request \<Rightarrow> (uuid \<times> (certificate_record \<Rightarrow> bool)) option" where
  "kept (Revoking q pc) = map_option (\<lambda>r. (rt_id q, \<lambda>x. x = r \<and> cr_revoked r)) (pc_record pc)"
| "kept (Issuing t pc) =
     map_option (\<lambda>resp. (if_record_id (it_fresh t), \<lambda>x. describes resp (cr_serial_number x) x)) (ic_response t pc)"
| "kept _ = None"

lemma kept_stable: "kept rq = Some (i, P) \<Longrightarrow> stable P"
  by (cases rq) (auto simp: stable_def describes_def revoked_by_def)

text \<open>The id a request may still insert under: a fresh UUID.\<close>

fun new_ids :: "'k request \<Rightarrow> uuid list" where
  "new_ids (Arriving fr _ _) = [if_record_id (hf_issue fr)]"
| "new_ids (Issuing t IcStart) = [if_record_id (it_fresh t)]"
| "new_ids (Issuing t (IcInsert _ _)) = [if_record_id (it_fresh t)]" | "new_ids _ = []"

definition fresh_requests :: "certificate_store \<Rightarrow> 'k request list \<Rightarrow> bool" where
  "fresh_requests s ts =
     (distinct (concat (map new_ids ts)) \<and> list_all (\<lambda>i. store_get s i = None) (concat (map new_ids ts)))"

lemma new_ids_update:
  assumes "distinct (concat (map new_ids ts))" and "i < length ts" and "new_ids rq' = new_ids (ts ! i) \<or> new_ids rq' = []"
  shows "distinct (concat (map new_ids (ts[i := rq'])))" and "set (concat (map new_ids (ts[i := rq']))) \<subseteq> set (concat (map new_ids ts))"
proof -
  have "distinct (concat (map new_ids (ts[i := rq']))) \<and> set (concat (map new_ids (ts[i := rq']))) \<subseteq> set (concat (map new_ids ts))"
    using assms
  proof (induction ts arbitrary: i)
    case (Cons a ts)
    show ?case
    proof (cases i)
      case 0
      then show ?thesis using Cons.prems by auto
    next
      case (Suc j)
      then show ?thesis using Cons.IH[of j] Cons.prems by auto
    qed
  qed simp
  then show "distinct (concat (map new_ids (ts[i := rq'])))"
    and "set (concat (map new_ids (ts[i := rq']))) \<subseteq> set (concat (map new_ids ts))" by simp_all
qed

lemma new_ids_dropped:
  assumes "distinct (concat (map new_ids ts))" and "i < length ts" and "new_ids rq' = []" and "j \<in> set (new_ids (ts ! i))"
  shows "j \<notin> set (concat (map new_ids (ts[i := rq'])))"
  using assms
proof (induction ts arbitrary: i)
  case (Cons a ts)
  show ?case
  proof (cases i)
    case 0
    then show ?thesis using Cons.prems by auto
  next
    case (Suc k)
    have "j \<in> set (concat (map new_ids ts))" using Cons.prems(2,4) Suc by auto
    then have "j \<notin> set (new_ids a)" using Cons.prems(1) by auto
    then show ?thesis using Cons.IH[of k] Cons.prems Suc by auto
  qed
qed simp

text \<open>Where a request goes from its arrival.\<close>

lemma arrive_cases:
  obtains (served) out where "arrive env fr i bs st = Served out"
  | (revoking) q where "arrive env fr i bs st = Revoking q PcStart"
  | (issuing) t where "arrive env fr i bs st = Issuing t IcStart" "it_fresh t = hf_issue fr"
proof -
  have "(\<exists>out. arrive env fr i bs st = Served out) \<or> (\<exists>q. arrive env fr i bs st = Revoking q PcStart) \<or>
      (\<exists>t. arrive env fr i bs st = Issuing t IcStart \<and> it_fresh t = hf_issue fr)"
    unfolding arrive_def arrive_route_def arrive_issue_def arrive_revoke_def Let_def by (auto split: http_parse.split option.split)
  then show thesis using that by blast
qed

section \<open>What a step does to the store\<close>

definition records_put :: "uuid \<Rightarrow> certificate_record \<Rightarrow> certificate_store \<Rightarrow> certificate_store" where
  "records_put i r s = s\<lparr>st_records := hm_insert i r (st_records s)\<rparr>"

lemma records_put_simps [simp]:
  "store_get (records_put i r s) j = (if j = i then Some r else store_get s j)" "st_path (records_put i r s) = st_path s"
  by (simp_all add: records_put_def store_get_def)

lemma put_insert: "store_get s (cr_id r) = None \<Longrightarrow> store_step s (records_put (cr_id r) r s)"
  using ss_insert[of s r] by (simp add: records_put_def)

lemma put_revoke: "store_get s i = Some r \<Longrightarrow> store_step s (records_put i (revoked_by now reason r) s)"
  using ss_revoke[of s _ now i reason] by (simp add: records_put_def revoke_store)

text \<open>The steps that change the store are a revocation's first and an insertion.\<close>

lemma revoke_start:
  "revoke_step env q PcStart st =
     (case store_get (store_of st) (rt_id q) of
        None \<Rightarrow> (st, PcAnswered (Answer 404 (ErrorBody ''certificate not found'')))
      | Some r \<Rightarrow> (with_store (records_put (rt_id q) (revoked_by (rt_now q) (rt_reason q) r) (store_of st)) st,
          PcPersist (revoked_by (rt_now q) (rt_reason q) r) Serializing))"
  by (simp add: store_get_def revoked_by_def records_put_def Let_def split: option.split)

lemma issue_insert:
  "issue_step env t (IcInsert r pem) st =
     (with_store (records_put (cr_id r) r (store_of st)) st, IcPersist pem Serializing)"
  by (simp add: records_put_def Let_def)

lemma step_same_store:
  assumes "request_step env rq st = (st', rq')" and "\<not> rq_waits rq"
  shows "store_of st' = store_of st"
proof (cases rq)
  case (Revoking q pc)
  then show ?thesis using assms
    by (cases pc) (auto split: sum.splits prod.splits may_panic.splits option.splits)
next
  case (Issuing t pc)
  then show ?thesis using assms
    by (cases pc) (auto simp: record_event_eq split: sum.splits prod.splits option.splits dest!: prepared_effect)
qed (use assms in auto)

definition inserting :: "'k request \<Rightarrow> bool" where
  "inserting rq =
     (case rq of Issuing t (IcInsert r pem) \<Rightarrow>
        cr_id r = if_record_id (it_fresh t) \<and> describes (issued_response (it_request t) pem) (cr_serial_number r) r
      | _ \<Rightarrow> True)"

lemma waiting_cases:
  assumes "rq_waits rq"
  obtains (revoke) q where "rq = Revoking q PcStart" | (insert) t r pem where "rq = Issuing t (IcInsert r pem)"
  using assms by (cases rq rule: rq_waits.cases) auto

lemma step_store:
  assumes "request_step env rq st = (st', rq')" and "inserting rq" and "list_all (\<lambda>i. store_get (store_of st) i = None) (new_ids rq)"
  shows "store_of st' = store_of st \<or> rq_waits rq \<and> store_step (store_of st) (store_of st')"
proof (cases "rq_waits rq")
  case True
  then show ?thesis
  proof (cases rule: waiting_cases)
    case (revoke q)
    then show ?thesis using assms(1) put_revoke[of "store_of st" "rt_id q"] True
      by (auto simp: revoke_start simp del: revoke_step.simps(1) split: option.splits)
  next
    case (insert t r pem)
    then show ?thesis using assms put_insert[of "store_of st" r] True
      by (auto simp: issue_insert inserting_def simp del: issue_step.simps(2))
  qed
qed (use step_same_store[OF assms(1)] in blast)

lemma step_path: "request_step env rq st = (st', rq') \<Longrightarrow> st_path (store_of st') = st_path (store_of st)"
proof (cases "rq_waits rq")
  case True
  assume "request_step env rq st = (st', rq')"
  with True show ?thesis
    by (cases rule: waiting_cases)
      (auto simp: revoke_start issue_insert simp del: revoke_step.simps(1) issue_step.simps(2) split: option.splits)
qed (simp add: step_same_store)

lemma step_unused:
  assumes "request_step env rq st = (st', rq')" and "inserting rq" and "store_get (store_of st) i = None" and "i \<notin> set (new_ids rq)"
  shows "store_get (store_of st') i = None"
proof (cases "rq_waits rq")
  case True
  then show ?thesis using assms
    by (cases rule: waiting_cases)
      (auto simp: revoke_start issue_insert inserting_def simp del: revoke_step.simps(1) issue_step.simps(2) split: option.splits)
qed (use step_same_store[OF assms(1)] assms(3) in simp)

lemma step_new_ids:
  assumes "request_step env rq st = (st', rq')"
  shows "new_ids rq' = [] \<or> new_ids rq' = new_ids rq \<and> store_of st' = store_of st"
proof (cases rq)
  case (Arriving fr i bs)
  then have e: "rq' = arrive env fr i bs st" "st' = st" using assms by auto
  show ?thesis unfolding e Arriving by (cases rule: arrive_cases[of env fr i bs st]) simp_all
next
  case (Revoking q pc)
  then show ?thesis using assms by (auto split: prod.splits)
next
  case (Issuing t pc)
  then show ?thesis using assms
    by (cases pc) (auto simp: issue_failed_def Let_def split: sum.splits prod.splits option.splits dest!: prepared_effect)
qed (use assms in auto)

lemma fresh_step:
  assumes "request_step env (ts ! i) st = (st', rq')" and "i < length ts" and "inserting (ts ! i)" and "fresh_requests (store_of st) ts"
  shows "fresh_requests (store_of st') (ts[i := rq'])"
proof -
  have d: "distinct (concat (map new_ids ts))" and u: "\<And>j. j \<in> set (concat (map new_ids ts)) \<Longrightarrow> store_get (store_of st) j = None"
    using assms(4) by (auto simp: fresh_requests_def list_all_iff)
  note n = step_new_ids[OF assms(1)]
  then have e: "new_ids rq' = new_ids (ts ! i) \<or> new_ids rq' = []" by blast
  have "store_get (store_of st') j = None" if j: "j \<in> set (concat (map new_ids (ts[i := rq'])))" for j
  proof (cases "new_ids rq' = []")
    case True
    have "j \<notin> set (new_ids (ts ! i))" using new_ids_dropped[OF d assms(2) True] j by blast
    then show ?thesis using step_unused[OF assms(1,3) u] new_ids_update(2)[OF d assms(2) e] j by blast
  next
    case False
    then have "store_of st' = store_of st" using n by blast
    then show ?thesis using u subsetD[OF new_ids_update(2)[OF d assms(2) e] j] by (simp only:)
  qed
  then show ?thesis unfolding fresh_requests_def list_all_iff using new_ids_update(1)[OF d assms(2) e] by blast
qed

section \<open>What every schedule keeps\<close>

lemma is_revoked_serial_iff:
  assumes "store_ok s"
  shows "is_revoked_serial s sn \<longleftrightarrow> (\<exists>i r. store_get s i = Some r \<and> cr_serial_number r = sn \<and> cr_revoked r)"
proof -
  have "hm_ok (st_records s)" using assms by (simp add: store_ok_def)
  then show ?thesis unfolding is_revoked_serial_def list_ex_iff store_get_def Bex_def set_hm_values[OF \<open>hm_ok (st_records s)\<close>]
    by blast
qed

lemma revoked_serial_mono:
  assumes "store_step\<^sup>*\<^sup>* s s'" and "store_ok s" and "is_revoked_serial s sn"
  shows "is_revoked_serial s' sn"
proof -
  obtain i x where "store_get s i = Some x" "cr_serial_number x = sn" "cr_revoked x"
    using assms(3)[unfolded is_revoked_serial_iff[OF assms(2)]] by blast
  then show ?thesis using store_steps_revoked[OF assms(1,2)] is_revoked_serial_iff[of s' sn] by auto
qed

text \<open>A signed list that names only revoked serial numbers, one of them the record's.\<close>

definition lists_revoked :: "('key, 'iss, 'c, 'k) http_env \<Rightarrow> certificate_store \<Rightarrow> certificate_record \<Rightarrow> bytes \<Rightarrow> bool" where
  "lists_revoked env s r der =
     (\<exists>n crl. signed_der (he_signer env) (int_issuer (he_ca env)) n crl = Done (Inr der) \<and>
        (\<forall>sn. contains_serial sn crl \<longrightarrow> is_revoked_serial s sn) \<and> contains_serial (cr_serial_number r) crl)"

lemma lists_revoked_mono:
  assumes "store_step\<^sup>*\<^sup>* s s'" and "store_ok s" and "lists_revoked env s r der"
  shows "lists_revoked env s' r der"
  using assms(3) revoked_serial_mono[OF assms(1,2)] unfolding lists_revoked_def by blast

text \<open>The list a revocation is about to store or to install.\<close>

definition publishing :: "('key, 'iss, 'c, 'k) http_env \<Rightarrow> certificate_store \<Rightarrow> 'k request \<Rightarrow> bool" where
  "publishing env s rq =
     (case rq of
        Revoking q (PcWriteCrl r der) \<Rightarrow> lists_revoked env s r der
      | Revoking q (PcInstall r cfg) \<Rightarrow> (\<exists>der. tc_crls cfg = [der] \<and> lists_revoked env s r der)
      | _ \<Rightarrow> True)"

definition request_ok :: "('key, 'iss, 'c, 'k) http_env \<Rightarrow> certificate_store \<Rightarrow> 'k request \<Rightarrow> bool" where
  "request_ok env s rq =
     ((\<forall>i P. kept rq = Some (i, P) \<longrightarrow> has_record i P s) \<and> inserting rq \<and> publishing env s rq)"

lemma request_ok_mono:
  assumes "store_step\<^sup>*\<^sup>* s s'" and "store_ok s" and "request_ok env s rq"
  shows "request_ok env s' rq"
proof -
  have "has_record i P s'" if "kept rq = Some (i, P)" for i P
    using has_record_steps[OF assms(1,2) _ kept_stable[OF that]] assms(3) that by (simp add: request_ok_def)
  moreover have "publishing env s' rq"
    using assms(3) lists_revoked_mono[OF assms(1,2), where env = env]
    unfolding request_ok_def publishing_def by (auto split: request.splits revoke_pc.splits)
  ultimately show ?thesis using assms(3) by (simp add: request_ok_def)
qed

text \<open>One step keeps what it says of its own request.\<close>

lemma revoke_step_record:
  assumes "revoke_step env q pc st = (st', pc')" and "pc_record pc' = Some r"
  shows "pc_record pc = Some r \<or> pc = PcStart \<and> store_get (store_of st') (rt_id q) = Some r \<and> cr_revoked r"
proof (cases pc)
  case PcStart
  with assms show ?thesis by (auto simp: revoke_start simp del: revoke_step.simps(1) split: option.splits)
qed (use assms in \<open>auto split: sum.splits prod.splits may_panic.splits option.splits if_splits\<close>)

lemma issue_step_response:
  assumes "issue_step env t pc st = (st', pc')" and "ic_response t pc' = Some resp" and "inserting (Issuing t pc)"
  shows "ic_response t pc = Some resp \<or>
    has_record (if_record_id (it_fresh t)) (\<lambda>x. describes resp (cr_serial_number x) x) (store_of st')"
proof (cases pc)
  case (IcInsert r pem)
  with assms show ?thesis by (auto simp: issue_insert has_record_def inserting_def simp del: issue_step.simps(2))
qed (use assms in \<open>auto split: sum.splits prod.splits option.splits\<close>)

lemma step_kept:
  assumes "request_step env rq st = (st', rq')" and "kept rq' = Some (i, P)" and "inserting rq"
  shows "kept rq = Some (i, P) \<or> has_record i P (store_of st')"
proof (cases rq)
  case (Arriving fr i bs)
  then have e: "rq' = arrive env fr i bs st" using assms by auto
  show ?thesis using assms(2) unfolding e by (cases rule: arrive_cases[of env fr i bs st]) simp_all
next
  case (Revoking q pc)
  obtain pc' where s: "revoke_step env q pc st = (st', pc')" "rq' = Revoking q pc'"
    using assms(1) Revoking by (auto split: prod.splits)
  then show ?thesis using assms(2) revoke_step_record[OF s(1)] Revoking by (auto simp: has_record_def)
next
  case (Issuing t pc)
  obtain pc' where s: "issue_step env t pc st = (st', pc')" "rq' = Issuing t pc'"
    using assms(1) Issuing by (auto split: prod.splits)
  then show ?thesis using assms(2,3) issue_step_response[OF s(1)] Issuing by auto
qed (use assms in auto)

lemma step_inserting:
  assumes "request_step env rq st = (st', rq')"
  shows "inserting rq'"
proof (cases rq)
  case (Arriving fr i bs)
  then have e: "rq' = arrive env fr i bs st" using assms by auto
  show ?thesis unfolding e by (cases rule: arrive_cases[of env fr i bs st]) (simp_all add: inserting_def)
next
  case (Issuing t pc)
  obtain pc' where s: "issue_step env t pc st = (st', pc')" "rq' = Issuing t pc'"
    using assms Issuing by (auto split: prod.splits)
  show ?thesis
  proof (cases pc)
    case IcStart
    then show ?thesis using s by (auto simp: inserting_def issue_failed_def describes_def issued_response_def
          issued_record_def certificate_record_new_def Let_def split: sum.splits prod.splits dest!: prepared_effect)
  qed (use s in \<open>auto simp: inserting_def issue_failed_def Let_def split: sum.splits prod.splits option.splits\<close>)
qed (use assms in \<open>auto simp: inserting_def split: prod.splits\<close>)

lemma step_publishing:
  assumes "request_step env rq st = (st', rq')" and "store_ok (store_of st)" and "request_ok env (store_of st) rq"
    and "\<not> rq_finished rq"
  shows "publishing env (store_of st') rq'"
proof (cases "(\<exists>q r n. rq = Revoking q (PcSign r n)) \<or> (\<exists>q r der. rq = Revoking q (PcWriteCrl r der))")
  case True
  then show ?thesis
  proof (elim disjE exE)
    fix q r n assume rq: "rq = Revoking q (PcSign r n)"
    have r: "is_revoked_serial (store_of st) (cr_serial_number r)"
      using assms(3) rq is_revoked_serial_iff[OF assms(2)] by (auto simp: request_ok_def has_record_def split: option.splits)
    have "lists_revoked env (store_of st) r der"
      if "signed_der (he_signer env) (int_issuer (he_ca env)) n (crl_for_store (cf_id (rt_crl q))
        (cf_now (rt_crl q)) (cf_generated_at (rt_crl q)) (store_of st)) = Done (Inr der)" for der
      unfolding lists_revoked_def using that r crl_contains_iff by blast
    then show ?thesis using assms(1) rq
      by (auto simp: publishing_def not_refreshed_def split: may_panic.splits sum.splits)
  next
    fix q r der assume rq: "rq = Revoking q (PcWriteCrl r der)"
    have "lists_revoked env (store_of st) r der" using assms(3) rq by (simp add: request_ok_def publishing_def)
    then show ?thesis using assms(1) rq
      by (auto simp: publishing_def not_refreshed_def build_config_ok split: sum.splits prod.splits)
  qed
next
  case False
  have "(\<nexists>q r der. rq' = Revoking q (PcWriteCrl r der)) \<and> (\<nexists>q r cfg. rq' = Revoking q (PcInstall r cfg))"
  proof (cases rq)
    case (Arriving fr i bs)
    then have e: "rq' = arrive env fr i bs st" using assms by auto
    show ?thesis unfolding e by (cases rule: arrive_cases[of env fr i bs st]) simp_all
  next
    case (Revoking q pc)
    then show ?thesis using assms(1,4) False by (cases pc)
      (auto simp: number_found_def not_refreshed_def persist_failed_def Let_def
        split: sum.splits prod.splits option.splits may_panic.splits if_splits)
  qed (use assms in \<open>auto split: prod.splits\<close>)
  then show ?thesis unfolding publishing_def by (auto split: request.splits revoke_pc.splits)
qed

lemma step_acceptor:
  assumes "request_step env rq st = (st', rq')"
  shows "hs_acceptor st' = hs_acceptor st \<or>
    (\<exists>q r cfg. rq = Revoking q (PcInstall r cfg) \<and> acceptor_current (hs_acceptor st') = cfg \<and>
       rq' = Revoking q (PcAnswered (Answer 200 (RecordBody r))))"
proof (cases rq)
  case (Revoking q pc)
  then show ?thesis using assms by (cases pc)
    (auto simp: Let_def acceptor_current_def acceptor_replace_def
      split: option.splits sum.splits prod.splits may_panic.splits)
next
  case (Issuing t pc)
  then show ?thesis using assms by (cases pc) (auto simp: Let_def with_store_def split: sum.splits prod.splits option.splits)
qed (use assms in auto)

text \<open>A request that has its answer 200 and the list it has installed.\<close>

definition installed :: "('key, 'iss, 'c, 'k) http_env \<Rightarrow> certificate_store \<Rightarrow> 'k request list \<Rightarrow> 'k tls_config \<Rightarrow> bool" where
  "installed env s ts cfg =
     (\<exists>q r der. Revoking q (PcAnswered (Answer 200 (RecordBody r))) \<in> set ts \<and> tc_crls cfg = [der] \<and> lists_revoked env s r der)"

definition race_inv ::
  "('key, 'iss, 'c, 'k) http_env \<Rightarrow> 'k tls_acceptor_manager \<Rightarrow> 'k http_state \<times> 'k request list \<Rightarrow> bool" where
  "race_inv env m0 c =
     (case c of (st, ts) \<Rightarrow> store_ok (store_of st) \<and> fresh_requests (store_of st) ts \<and>
        (\<forall>rq \<in> set ts. request_ok env (store_of st) rq) \<and>
        (hs_acceptor st = m0 \<or> installed env (store_of st) ts (acceptor_current (hs_acceptor st))))"

lemma finished_stays:
  assumes "rq \<in> set ts" and "rq_finished rq" and "\<not> rq_finished (ts ! i)"
  shows "rq \<in> set (ts[i := rq'])"
proof -
  obtain j where j: "j < length ts" "ts ! j = rq" using assms(1) by (auto simp: in_set_conv_nth)
  then have "j \<noteq> i" using assms(2,3) by blast
  then have "ts[i := rq'] ! j = rq" using j by simp
  then show ?thesis using j(1) by (metis length_list_update nth_mem)
qed

lemma race_inv_step:
  assumes "serve_step env c c'" and "race_inv env m0 c"
  shows "race_inv env m0 c'"
proof -
  obtain st ts where c: "c = (st, ts)" by (cases c)
  from assms(1)[unfolded c] obtain i st' rq' where i: "i < length ts" "\<not> rq_finished (ts ! i)"
    and n: "request_step env (ts ! i) st = (st', rq')" and c': "c' = (st', ts[i := rq'])" by (rule serve_stepE)
  note inv = assms(2)[unfolded c race_inv_def prod.case]
  have ok: "store_ok (store_of st)" and fr: "fresh_requests (store_of st) ts"
    and all: "\<And>rq. rq \<in> set ts \<Longrightarrow> request_ok env (store_of st) rq" using inv by auto
  have mine: "request_ok env (store_of st) (ts ! i)" using all i(1) by simp
  then have ins: "inserting (ts ! i)" by (simp add: request_ok_def)
  have "list_all (\<lambda>j. store_get (store_of st) j = None) (new_ids (ts ! i))"
    using fr i(1) by (auto simp: fresh_requests_def list_all_iff)
  then have steps: "store_step\<^sup>*\<^sup>* (store_of st) (store_of st')" using step_store[OF n ins] by auto
  have own: "request_ok env (store_of st') rq'"
  proof -
    have "has_record k P (store_of st')" if "kept rq' = Some (k, P)" for k P
      using step_kept[OF n that ins] request_ok_mono[OF steps ok mine] by (auto simp: request_ok_def)
    then show ?thesis using step_inserting[OF n] step_publishing[OF n ok mine i(2)] by (simp add: request_ok_def)
  qed
  have "request_ok env (store_of st') rq" if "rq \<in> set (ts[i := rq'])" for rq
    using subsetD[OF set_update_subset_insert that] own request_ok_mono[OF steps ok all] by auto
  moreover have "hs_acceptor st' = m0 \<or> installed env (store_of st') (ts[i := rq']) (acceptor_current (hs_acceptor st'))"
  proof (rule disjE[OF step_acceptor[OF n]])
    assume same: "hs_acceptor st' = hs_acceptor st"
    have "installed env (store_of st') (ts[i := rq']) cfg" if "installed env (store_of st) ts cfg" for cfg
      using that finished_stays[OF _ _ i(2)] lists_revoked_mono[OF steps ok] unfolding installed_def by (metis finished_simps(11))
    then show ?thesis using inv same by auto
  next
    assume "\<exists>q r cfg. ts ! i = Revoking q (PcInstall r cfg) \<and> acceptor_current (hs_acceptor st') = cfg \<and>
      rq' = Revoking q (PcAnswered (Answer 200 (RecordBody r)))"
    then obtain q r cfg where e: "ts ! i = Revoking q (PcInstall r cfg)" "acceptor_current (hs_acceptor st') = cfg"
      "rq' = Revoking q (PcAnswered (Answer 200 (RecordBody r)))" by blast
    obtain der where d: "tc_crls cfg = [der]" "lists_revoked env (store_of st) r der"
      using mine e(1) by (auto simp: request_ok_def publishing_def)
    have "rq' \<in> set (ts[i := rq'])" using i(1) by (simp add: set_update_memI)
    then show ?thesis using d lists_revoked_mono[OF steps ok d(2)] e(2,3) unfolding installed_def by blast
  qed
  ultimately show ?thesis using store_steps_ok[OF steps ok] fresh_step[OF n i(1) ins fr] unfolding c' race_inv_def by auto
qed

lemma race_inv_steps: "(serve_step env)\<^sup>*\<^sup>* c c' \<Longrightarrow> race_inv env m0 c \<Longrightarrow> race_inv env m0 c'"
  by (induction rule: rtranclp_induct) (auto intro: race_inv_step)

text \<open>The requests at their start: just read, or past the routing.\<close>

fun starting :: "'k request \<Rightarrow> bool" where
  "starting (Arriving _ _ _) = True" | "starting (Revoking _ PcStart) = True" | "starting (Issuing _ IcStart) = True"
| "starting _ = False"

lemma starting_ok: "starting rq \<Longrightarrow> request_ok env s rq"
  by (cases rq rule: starting.cases) (simp_all add: request_ok_def inserting_def publishing_def)

lemma race_inv_start:
  assumes "store_ok (store_of st)" and "list_all starting ts" and "fresh_requests (store_of st) ts"
  shows "race_inv env (hs_acceptor st) (st, ts)"
  using assms starting_ok by (auto simp: race_inv_def list_all_iff)

lemma alone_iff:
  assumes "\<And>rq. Q rq \<Longrightarrow> rq_finished rq" and "solo_end env (st, rq0) = (st1, rq1)"
  shows "(\<exists>rq. (serve_step env)\<^sup>*\<^sup>* (st, [rq0]) (st', [rq]) \<and> Q rq) \<longleftrightarrow> st' = st1 \<and> Q rq1"
proof
  assume "\<exists>rq. (serve_step env)\<^sup>*\<^sup>* (st, [rq0]) (st', [rq]) \<and> Q rq"
  then obtain rq where r: "(serve_step env)\<^sup>*\<^sup>* (st, [rq0]) (st', [rq])" "Q rq" by blast
  have "(st1, rq1) = (st', rq)" using r(1) unfolding alone_ends[OF assms(1)[OF r(2)]] assms(2) .
  then show "st' = st1 \<and> Q rq1" using r(2) by simp
next
  assume q: "st' = st1 \<and> Q rq1"
  then have "(serve_step env)\<^sup>*\<^sup>* (st, [rq0]) (st', [rq1])" using assms by (simp add: alone_ends)
  then show "\<exists>rq. (serve_step env)\<^sup>*\<^sup>* (st, [rq0]) (st', [rq]) \<and> Q rq" using q by (intro exI[of _ rq1] conjI) simp_all
qed

lemma panicked_no_answer: "panicked rq \<Longrightarrow> answer_of rq = None"
  by (cases rq rule: panicked.cases) simp_all

section \<open>Properties\<close>


text \<open>
  C17. Every schedule of concurrent requests ends, within twelve steps for each, and none ends in
  a deadlock: a state in which no request can run is one in which each of them is answered (or
  has panicked).
\<close>

theorem concurrent_requests_end:
  assumes "(serve_step env ^^ n) (st, ts) (st', ts')"
  shows "n \<le> 12 * length ts \<and> ((\<forall>c. \<not> serve_step env (st', ts') c) \<longleftrightarrow> list_all rq_finished ts')"
proof -
  have "work rq_rank ts \<le> 12 * length ts"
    by (induction ts) (auto simp: work_def intro: add_mono rq_rank_le)
  then show ?thesis
    using serving.steps_work[where env = env and n = n and c = "(st, ts)" and c' = "(st', ts')"] assms
      serving.stuck_iff_finished[where env = env and s = st' and ts = ts']
    by (simp add: serve_step_def)
qed

definition sample_task :: revoke_task where
  "sample_task = \<lparr>rt_id = 22, rt_reason = ''superseded'', rt_now = 60, rt_crl = hf_crl sample_http_fresh\<rparr>"

lemma sample_arrives:
  "arrive_revoke sample_env sample_http_fresh (sample_client ''aa'') ''/v1/certificates/22/revoke'' [1] =
     Revoking sample_task PcStart"
  by (simp add: arrive_revoke_def sample_path_id sample_authorized sample_task_def sample_http_fresh_def)
    (simp add: sample_env_def)

lemma sample_served:
  "\<exists>st' r. (serve_step sample_env)\<^sup>*\<^sup>* (sample_http, [Revoking sample_task PcStart])
     (st', [Revoking sample_task (PcAnswered (Answer 200 (RecordBody r)))])"
proof -
  obtain st' b where h: "handle_revoke_certificate sample_env sample_http_fresh (sample_client ''aa'')
      ''/v1/certificates/22/revoke'' [1] sample_http = Done (st', Answer 200 b)" using sample_answer_200 by blast
  obtain r where b: "b = RecordBody r" using revoke_answer_200[OF h] by blast
  show ?thesis using revoke_alone[OF sample_arrives h] alone_reaches[of sample_env sample_http "Revoking sample_task PcStart"]
    unfolding b by auto
qed

lemma sample_start:
  "store_ok (store_of sample_http)" "list_all starting [Revoking sample_task PcStart]"
  "fresh_requests (store_of sample_http) [Revoking sample_task PcStart]"
  by (simp_all add: sample_http_def store_ok_def store_get_def hm_get_def hm_ok_def fresh_requests_def)

theorem concurrent_requests_end_witness:
  "(serve_step sample_env ^^ 1) (sample_http, [Revoking (sample_task\<lparr>rt_id := 5\<rparr>) PcStart])
     (sample_http, [Revoking (sample_task\<lparr>rt_id := 5\<rparr>) (PcAnswered (Answer 404 (ErrorBody ''certificate not found'')))]) \<and>
   (\<forall>c. \<not> serve_step sample_env
     (sample_http, [Revoking (sample_task\<lparr>rt_id := 5\<rparr>) (PcAnswered (Answer 404 (ErrorBody ''certificate not found'')))]) c)"
proof -
  let ?q = "sample_task\<lparr>rt_id := 5\<rparr>"
  let ?answered = "Revoking ?q (PcAnswered (Answer 404 (ErrorBody ''certificate not found'')))"
  have "request_step sample_env (Revoking ?q PcStart) sample_http = (sample_http, ?answered)"
    by (simp add: sample_http_def hm_get_def)
  then have one: "serve_step sample_env (sample_http, [Revoking ?q PcStart]) (sample_http, [?answered])"
    using il_step[where i = 0 and ts = "[Revoking ?q PcStart]" and nxt = "request_step sample_env" and finished = rq_finished
        and waits = rq_waits and holds = rq_holds and s = sample_http] by (simp add: serve_step_def rq_holds_def)
  then have "(serve_step sample_env ^^ 1) (sample_http, [Revoking ?q PcStart]) (sample_http, [?answered])" unfolding relpowp_1 .
  from this concurrent_requests_end[OF this] show ?thesis by simp
qed

text \<open>
  C5. Whatever the order of their steps, concurrent requests never make the server lie. A
  revocation answered 200 names a record that is revoked in the store, and a certificate answered
  201 has its record there; the acceptor is the one it was or checks clients against one list,
  signed by the CA, that names no serial number that is not revoked and names that of a record
  whose revocation was answered 200. (The ids of the requests to issue are unused and distinct.)
\<close>

theorem concurrent_lists_are_sound:
  assumes "store_ok (store_of st)" and "list_all starting ts" and "fresh_requests (store_of st) ts"
    and "(serve_step env)\<^sup>*\<^sup>* (st, ts) (st', ts')"
  shows "(\<forall>q r. Revoking q (PcAnswered (Answer 200 (RecordBody r))) \<in> set ts' \<longrightarrow>
      store_get (store_of st') (rt_id q) = Some r \<and> cr_revoked r) \<and>
    (\<forall>t resp. Issuing t (IcAnswered (Answer 201 (IssuedBody resp))) \<in> set ts' \<longrightarrow>
      has_record (if_record_id (it_fresh t)) (\<lambda>r. describes resp (cr_serial_number r) r) (store_of st')) \<and>
    (hs_acceptor st' = hs_acceptor st \<or>
     (\<exists>q r der n crl. Revoking q (PcAnswered (Answer 200 (RecordBody r))) \<in> set ts' \<and>
        tc_crls (acceptor_current (hs_acceptor st')) = [der] \<and>
        signed_der (he_signer env) (int_issuer (he_ca env)) n crl = Done (Inr der) \<and>
        (\<forall>sn. contains_serial sn crl \<longrightarrow> is_revoked_serial (store_of st') sn) \<and>
        contains_serial (cr_serial_number r) crl))"
proof -
  have inv: "race_inv env (hs_acceptor st) (st', ts')"
    by (rule race_inv_steps[OF assms(4) race_inv_start[OF assms(1-3)]])
  then have ok: "request_ok env (store_of st') rq" if "rq \<in> set ts'" for rq using that by (simp add: race_inv_def)
  have "store_get (store_of st') (rt_id q) = Some r \<and> cr_revoked r"
    if "Revoking q (PcAnswered (Answer 200 (RecordBody r))) \<in> set ts'" for q r
    using ok[OF that] by (simp add: request_ok_def has_record_def split: option.splits)
  moreover have "has_record (if_record_id (it_fresh t)) (\<lambda>r. describes resp (cr_serial_number r) r) (store_of st')"
    if "Issuing t (IcAnswered (Answer 201 (IssuedBody resp))) \<in> set ts'" for t resp
    using ok[OF that] by (simp add: request_ok_def)
  moreover have "hs_acceptor st' = hs_acceptor st \<or> installed env (store_of st') ts' (acceptor_current (hs_acceptor st'))"
    using inv by (simp add: race_inv_def)
  ultimately show ?thesis unfolding installed_def lists_revoked_def by blast
qed

theorem concurrent_lists_are_sound_witness:
  "\<exists>st' r. (serve_step sample_env)\<^sup>*\<^sup>* (sample_http, [Revoking sample_task PcStart])
      (st', [Revoking sample_task (PcAnswered (Answer 200 (RecordBody r)))]) \<and>
    store_get (store_of st') 22 = Some r \<and> cr_revoked r"
proof -
  obtain st' r where run: "(serve_step sample_env)\<^sup>*\<^sup>* (sample_http, [Revoking sample_task PcStart])
      (st', [Revoking sample_task (PcAnswered (Answer 200 (RecordBody r)))])" using sample_served by blast
  from concurrent_lists_are_sound[OF sample_start run] run show ?thesis
    by (intro exI[of _ st'] exI[of _ r]) (simp add: sample_task_def)
qed

end
