(* ===== verification/Race_Lost.thy ===== *)
theory Race_Lost
  imports Race_Props
begin

text \<open>
  Two revocations that overlap: the older list can be installed last. The schedule is the same
  for any two requests that would be answered 200 one after the other, so the theorem is about
  every state of the server, not about one example.
\<close>

section \<open>A run up to its last step\<close>

lemma only_install_answers_200:
  assumes "revoke_step env q pc st = (st', PcAnswered (Answer 200 b))" and "\<not> rq_finished (Revoking q pc)"
  shows "\<exists>r cfg. pc = PcInstall r cfg"
proof (cases pc)
  case PcStart
  with assms show ?thesis by (auto simp: Let_def split: option.splits)
qed (use assms in \<open>auto simp: not_refreshed_def persist_failed_def number_found_def
    split: sum.splits prod.splits may_panic.splits option.splits if_splits\<close>)

lemma solo_before_install:
  assumes "solo_run (request_step env) rq_finished n (st, Revoking q pc) = (st', Revoking q (PcAnswered (Answer 200 b)))" and "\<not> rq_finished (Revoking q pc)"
  shows "\<exists>m st1 r cfg. solo_run (request_step env) rq_finished m (st, Revoking q pc) = (st1, Revoking q (PcInstall r cfg)) \<and>
    hs_acceptor st1 = hs_acceptor st \<and> st' = st1\<lparr>hs_acceptor := acceptor_replace cfg (hs_acceptor st1)\<rparr> \<and> b = RecordBody r"
  using assms
proof (induction n arbitrary: st pc)
  case 0
  then show ?case by auto
next
  case (Suc n)
  show ?case
  proof (cases "\<exists>r cfg. pc = PcInstall r cfg")
    case True
    then obtain r cfg where pc: "pc = PcInstall r cfg" by blast
    have "solo_run (request_step env) rq_finished 0 (st, Revoking q pc) = (st, Revoking q (PcInstall r cfg))" by (simp add: pc)
    moreover have "st' = st\<lparr>hs_acceptor := acceptor_replace cfg (hs_acceptor st)\<rparr> \<and> b = RecordBody r"
      using Suc.prems(1) by (simp add: pc)
    ultimately show ?thesis by blast
  next
    case False
    obtain st2 pc2 where n: "revoke_step env q pc st = (st2, pc2)" by (cases "revoke_step env q pc st")
    have a: "hs_acceptor st2 = hs_acceptor st" using step_acceptor[of env "Revoking q pc" st st2 "Revoking q pc2"] n False by auto
    have run: "solo_run (request_step env) rq_finished n (st2, Revoking q pc2) = (st', Revoking q (PcAnswered (Answer 200 b)))"
      using Suc.prems n by simp
    have "\<not> rq_finished (Revoking q pc2)"
    proof
      assume "rq_finished (Revoking q pc2)"
      then have "pc2 = PcAnswered (Answer 200 b)" using run by simp
      then show False using only_install_answers_200[of env q pc st st2 b] n Suc.prems(2) False by blast
    qed
    from Suc.IH[OF run this] obtain m st1 r cfg where
      "solo_run (request_step env) rq_finished m (st2, Revoking q pc2) = (st1, Revoking q (PcInstall r cfg))" "hs_acceptor st1 = hs_acceptor st2"
      "st' = st1\<lparr>hs_acceptor := acceptor_replace cfg (hs_acceptor st1)\<rparr>" "b = RecordBody r" by blast
    moreover from this(1) have "solo_run (request_step env) rq_finished (Suc m) (st, Revoking q pc) = (st1, Revoking q (PcInstall r cfg))"
      using Suc.prems(2) n by simp
    ultimately show ?thesis using a by metis
  qed
qed

text \<open>The steps before the last do not look at the configuration that is installed.\<close>

definition with_config :: "'k tls_config \<Rightarrow> 'k http_state \<Rightarrow> 'k http_state" where
  "with_config a st = st\<lparr>hs_acceptor := acceptor_replace a (hs_acceptor st)\<rparr>"

lemma with_config_simps [simp]:
  "hs_service (with_config a st) = hs_service st" "acceptor_current (hs_acceptor (with_config a st)) = a"
  "ta_server_certificate_pem (hs_acceptor (with_config a st)) = ta_server_certificate_pem (hs_acceptor st)"
  "ta_server_private_key_pem (hs_acceptor (with_config a st)) = ta_server_private_key_pem (hs_acceptor st)"
  "ta_client_ca_pem (hs_acceptor (with_config a st)) = ta_client_ca_pem (hs_acceptor st)"
  "with_config a (with_config b st) = with_config a st"
  "with_fs w (with_config a st) = with_config a (with_fs w st)"
  "with_store s (with_config a st) = with_config a (with_store s st)"
  by (simp_all add: with_config_def with_fs_def with_store_def acceptor_replace_def acceptor_current_def)

lemma step_with_config:
  assumes "\<not> (\<exists>r cfg. pc = PcInstall r cfg)"
  shows "revoke_step env q pc (with_config a st) =
    (with_config a (fst (revoke_step env q pc st)), snd (revoke_step env q pc st))"
  using assms by (cases pc) (simp_all add: Let_def split: option.split sum.split prod.split may_panic.split)

lemma solo_with_config:
  assumes "solo_run (request_step env) rq_finished n (st, Revoking q pc) = (st1, Revoking q (PcInstall r cfg))"
  shows "solo_run (request_step env) rq_finished n (with_config a st, Revoking q pc) = (with_config a st1, Revoking q (PcInstall r cfg))"
  using assms
proof (induction n arbitrary: st pc)
  case (Suc n)
  show ?case
  proof (cases "rq_finished (Revoking q pc) \<or> (\<exists>r cfg. pc = PcInstall r cfg)")
    case True
    then show ?thesis
    proof
      assume "\<exists>r cfg. pc = PcInstall r cfg"
      then show ?thesis using Suc.prems by (cases n) auto
    qed (use Suc.prems in auto)
  next
    case False
    obtain st2 pc2 where n: "revoke_step env q pc st = (st2, pc2)" by (cases "revoke_step env q pc st")
    have "revoke_step env q pc (with_config a st) = (with_config a st2, pc2)"
      using step_with_config[of pc env q a st] False n by auto
    then show ?thesis using Suc.IH[of st2 pc2] Suc.prems False n by auto
  qed
qed simp

section \<open>The race\<close>

lemma solo_answered:
  assumes "arrive_revoke env fr i path body = Revoking q PcStart"
    and "handle_revoke_certificate env fr i path body st = Done (st', Answer 200 b)"
  shows "\<exists>n st1 r cfg. solo_run (request_step env) rq_finished n (st, Revoking q PcStart) = (st1, Revoking q (PcInstall r cfg)) \<and>
    hs_acceptor st1 = hs_acceptor st \<and> st' = with_config cfg st1 \<and> b = RecordBody r"
proof -
  have "solo_run (request_step env) rq_finished 12 (st, Revoking q PcStart) = (st', Revoking q (PcAnswered (Answer 200 b)))"
    using revoke_alone[OF assms] by (simp add: solo_end_def)
  from solo_before_install[OF this] show ?thesis unfolding with_config_def by simp
qed

lemma lost_schedule:
  assumes "arrive_revoke env fr1 i1 path1 body1 = Revoking q1 PcStart"
    and "handle_revoke_certificate env fr1 i1 path1 body1 st = Done (st1, Answer 200 b1)"
    and "arrive_revoke env fr2 i2 path2 body2 = Revoking q2 PcStart"
    and "handle_revoke_certificate env fr2 i2 path2 body2 st1 = Done (st2, Answer 200 b2)"
  shows "(serve_step env)\<^sup>*\<^sup>* (st, [Revoking q1 PcStart, Revoking q2 PcStart])
    (with_config (acceptor_current (hs_acceptor st1)) st2, [Revoking q1 (PcAnswered (Answer 200 b1)), Revoking q2 (PcAnswered (Answer 200 b2))])"
proof -
  obtain n sa r1 c1 where a: "solo_run (request_step env) rq_finished n (st, Revoking q1 PcStart) = (sa, Revoking q1 (PcInstall r1 c1))"
    "hs_acceptor sa = hs_acceptor st" "st1 = with_config c1 sa" "b1 = RecordBody r1"
    using solo_answered[OF assms(1,2)] by blast
  obtain m sb r2 c2 where b: "solo_run (request_step env) rq_finished m (st1, Revoking q2 PcStart) = (sb, Revoking q2 (PcInstall r2 c2))"
    "st2 = with_config c2 sb" "b2 = RecordBody r2"
    using solo_answered[OF assms(3,4)] by blast
  let ?old = "acceptor_current (hs_acceptor sa)"
  have old: "with_config ?old st1 = sa" using a(3) by (simp add: with_config_def acceptor_current_def acceptor_replace_def)
  have b': "solo_run (request_step env) rq_finished m (sa, Revoking q2 PcStart) = (with_config ?old sb, Revoking q2 (PcInstall r2 c2))"
    using solo_with_config[OF b(1), of ?old] unfolding old .
  have one: "(serve_step env)\<^sup>*\<^sup>* (st, [Revoking q1 PcStart, Revoking q2 PcStart]) (sa, [Revoking q1 (PcInstall r1 c1), Revoking q2 PcStart])"
    using serving.solo_interleaves[OF a(1), where i = 0 and ts = "[Revoking q1 PcStart, Revoking q2 PcStart]"]
    by (simp add: serve_step_def less_Suc_eq rq_holds_def)
  have two: "(serve_step env)\<^sup>*\<^sup>* (sa, [Revoking q1 (PcInstall r1 c1), Revoking q2 PcStart])
      (with_config ?old sb, [Revoking q1 (PcInstall r1 c1), Revoking q2 (PcInstall r2 c2)])"
    using serving.solo_interleaves[OF b', where i = 1 and ts = "[Revoking q1 (PcInstall r1 c1), Revoking q2 PcStart]"]
    by (simp add: serve_step_def less_Suc_eq rq_holds_def)
  have st2: "with_config c2 (with_config ?old sb) = st2" using b(2) by simp
  then have inst: "(with_config ?old sb)\<lparr>hs_acceptor := acceptor_replace c2 (hs_acceptor (with_config ?old sb))\<rparr> = st2"
    unfolding with_config_def[of c2] .
  have three: "serve_step env (with_config ?old sb, [Revoking q1 (PcInstall r1 c1), Revoking q2 (PcInstall r2 c2)])
      (st2, [Revoking q1 (PcInstall r1 c1), Revoking q2 (PcAnswered (Answer 200 b2))])"
    using il_step[where i = 1 and ts = "[Revoking q1 (PcInstall r1 c1), Revoking q2 (PcInstall r2 c2)]" and nxt = "request_step env"
        and finished = rq_finished and waits = rq_waits and holds = rq_holds and s = "with_config ?old sb"]
    by (simp add: serve_step_def inst b(3) rq_holds_def)
  have four: "serve_step env (st2, [Revoking q1 (PcInstall r1 c1), Revoking q2 (PcAnswered (Answer 200 b2))])
      (with_config c1 st2, [Revoking q1 (PcAnswered (Answer 200 b1)), Revoking q2 (PcAnswered (Answer 200 b2))])"
    using il_step[where i = 0 and ts = "[Revoking q1 (PcInstall r1 c1), Revoking q2 (PcAnswered (Answer 200 b2))]" and nxt = "request_step env"
        and finished = rq_finished and waits = rq_waits and holds = rq_holds and s = st2]
    by (simp add: serve_step_def with_config_def a(4) rq_holds_def)
  have "acceptor_current (hs_acceptor st1) = c1" using a(3) by simp
  then show ?thesis using rtranclp.rtrancl_into_rtrancl[OF rtranclp.rtrancl_into_rtrancl[OF rtranclp_trans[OF one two] three] four]
    by simp
qed

lemma answered_step:
  assumes "handle_revoke_certificate env fr i path body st = Done (st', Answer 200 b)"
  shows "store_step (store_of st) (store_of st')"
proof -
  obtain cid reason s' w' r where "store_revoke (he_serde env) (hf_revoke_now fr) cid reason (store_of st) (files_of st) =
      ((s', w'), Inr (Some r))" and s': "store_of st' = s'"
    using revoke_answer_200[OF assms] by auto
  then show ?thesis using ss_revoke[of "store_of st" "he_serde env" "hf_revoke_now fr" cid reason "files_of st"] by simp
qed

lemma answered_revoked:
  assumes "handle_revoke_certificate env fr i path body st = Done (st', Answer 200 (RecordBody r))"
  shows "is_revoked_serial (store_of st') (cr_serial_number r)"
proof -
  obtain cid reason s' w' where rv: "store_revoke (he_serde env) (hf_revoke_now fr) cid reason (store_of st) (files_of st) =
      ((s', w'), Inr (Some r))" and s': "store_of st' = s'"
    using revoke_answer_200[OF assms] by auto
  from rv have "store_get s' cid = Some r \<and> cr_revoked r"
    by (auto simp: store_revoke_cases store_get_def map_sum_def split: option.splits prod.splits sum.splits)
  then show ?thesis unfolding s' is_revoked_serial_def list_ex_iff store_get_def by (auto intro: hm_values_get)
qed

lemma answered_list:
  assumes "handle_revoke_certificate env fr i path body st = Done (st', Answer 200 b)"
  shows "\<exists>der n crl. tc_crls (acceptor_current (hs_acceptor st')) = [der] \<and>
    signed_der (he_signer env) (int_issuer (he_ca env)) n crl = Done (Inr der) \<and>
    (\<forall>sn. contains_serial sn crl \<longleftrightarrow> is_revoked_serial (store_of st') sn)"
proof -
  obtain s' w' w'' m where rf: "acceptor_refresh (he_rustls env) (he_signer env) (int_issuer (he_ca env)) (he_data_dir env)
      (hf_crl fr) s' w' (hs_acceptor st) = Done ((w'', m), Inr ())" and s': "store_of st' = s'" and m: "hs_acceptor st' = m"
    using revoke_answer_200[OF assms] by auto
  obtain der config where g: "generate_and_persist (he_signer env) (int_issuer (he_ca env)) (he_data_dir env) (cf_id (hf_crl fr))
      (cf_now (hf_crl fr)) (cf_generated_at (hf_crl fr)) s' w' = Done (w'', Inr der)"
    and c: "m = (hs_acceptor st)\<lparr>ta_acceptor := config\<rparr>" "tc_crls config = [der]"
    using refresh_ok[OF rf] by blast
  then show ?thesis unfolding s' m using generate_published[OF g] by (auto simp: acceptor_current_def)
qed

section \<open>A server where two revocations succeed\<close>

lemma revoke_works:
  assumes "arrive_revoke env fr i path body = Revoking q PcStart"
    and "store_get (store_of st) (rt_id q) = Some r"
    and "\<forall>m. \<exists>t. sd_to_string_pretty (he_serde env) m = Inr t"
    and "\<forall>a b c d. \<exists>cfg. build_mtls_server_config (he_rustls env) a b c d = Inr cfg"
    and "fs_faults (files_of st) = []" and "stored_number (he_data_dir env) (files_of st) = Some n" and "checked_add n 1 = Some n'"
    and "regular_path (st_path (store_of st))"
    and "crl_number_path (he_data_dir env) \<notin> {st_path (store_of st), with_extension (st_path (store_of st)) ''json.tmp''}"
    and "\<exists>der. signed_der (he_signer env) (int_issuer (he_ca env)) n' (crl_for_store (cf_id (rt_crl q)) (cf_now (rt_crl q))
       (cf_generated_at (rt_crl q)) ((store_of st)\<lparr>st_records :=
          hm_insert (rt_id q) (revoked_by (rt_now q) (rt_reason q) r) (st_records (store_of st))\<rparr>)) = Done (Inr der)"
  shows "\<exists>st'. handle_revoke_certificate env fr i path body st =
      Done (st', Answer 200 (RecordBody (revoked_by (rt_now q) (rt_reason q) r))) \<and>
    store_of st' = (store_of st)\<lparr>st_records :=
      hm_insert (rt_id q) (revoked_by (rt_now q) (rt_reason q) r) (st_records (store_of st))\<rparr> \<and>
    fs_faults (files_of st') = [] \<and> stored_number (he_data_dir env) (files_of st') = Some n'"
proof -
  let ?r = "revoked_by (rt_now q) (rt_reason q) r"
  let ?s = "(store_of st)\<lparr>st_records := hm_insert (rt_id q) ?r (st_records (store_of st))\<rparr>"
  let ?st = "with_store ?s st"
  obtain t where "sd_to_string_pretty (he_serde env) (st_records ?s) = Inr t" using assms(3) by blast
  then obtain w1 where w1: "store_persist (he_serde env) ?s (files_of st) = (w1, Inr ())" "fs_faults w1 = []"
    using persist_free assms(5) by blast
  have "file_at w1 (crl_number_path (he_data_dir env)) = file_at (files_of st) (crl_number_path (he_data_dir env))"
    using persist_other[of "crl_number_path (he_data_dir env)" ?s "he_serde env" "files_of st"] w1(1) assms(9) by simp
  then have sn: "stored_number (he_data_dir env) w1 = Some n" using assms(6) by (simp add: stored_number_def)
  obtain der where der: "signed_der (he_signer env) (int_issuer (he_ca env)) n' (crl_for_store (cf_id (rt_crl q))
      (cf_now (rt_crl q)) (cf_generated_at (rt_crl q)) ?s) = Done (Inr der)" using assms(10) by blast
  obtain w2 where w2: "generate_and_persist (he_signer env) (int_issuer (he_ca env)) (he_data_dir env) (cf_id (rt_crl q))
      (cf_now (rt_crl q)) (cf_generated_at (rt_crl q)) ?s w1 = Done (w2, Inr der)" "fs_faults w2 = []"
      "stored_number (he_data_dir env) w2 = Some n'"
    using generate_free[OF w1(2) sn assms(7) der] by blast
  obtain cfg where cfg: "build_mtls_server_config (he_rustls env) (ta_server_certificate_pem (hs_acceptor st))
      (ta_server_private_key_pem (hs_acceptor st)) (ta_client_ca_pem (hs_acceptor st)) (Some der) = Inr cfg"
    using assms(4) by blast
  have "request_step env (Revoking q PcStart) st = (?st, Revoking q (PcPersist ?r Serializing))"
    using assms(2) by (simp add: revoke_start records_put_def del: revoke_step.simps)
  then have "solo_end env (st, Revoking q PcStart) = solo_end env (?st, Revoking q (PcPersist ?r Serializing))"
    by (simp only: solo_end_step[of "Revoking q PcStart"] finished_simps simp_thms)
  also have "\<dots> = solo_end env (with_fs w1 ?st, Revoking q (PcNumberExists ?r))" by (simp add: solo_revoke_persist w1)
  also have "\<dots> = (with_fs w2 (?st\<lparr>hs_acceptor := acceptor_replace cfg (hs_acceptor st)\<rparr>), Revoking q (PcAnswered (Answer 200 (RecordBody ?r))))"
    using solo_refresh[where env = env and q = q and st = "with_fs w1 ?st" and r = ?r] w2(1) cfg by (simp add: acceptor_refresh_def with_fs_def with_store_def)
  finally have "solo_end env (st, Revoking q PcStart) = \<dots>" .
  with solo_revoke[of env st fr i path body] have "handle_revoke_certificate env fr i path body st =
      Done (with_fs w2 (?st\<lparr>hs_acceptor := acceptor_replace cfg (hs_acceptor st)\<rparr>), Answer 200 (RecordBody ?r))"
    unfolding assms(1) by (cases "handle_revoke_certificate env fr i path body st") auto
  then show ?thesis using w2(2,3) by (auto simp: with_fs_def with_store_def)
qed

text \<open>Two certificates, with the serial numbers 010703 and 0a; a signed list is the run of its serial numbers.\<close>

definition race_env :: "(nat, nat, bytes, unit) http_env" where
  "race_env = sample_env\<lparr>he_serde := \<lparr>sd_to_string_pretty = (\<lambda>m. Inr (show_nat (length m))), sd_from_str = (\<lambda>s. Inl s)\<rparr>,
     he_signer := (\<lambda>ps i. Inr (concat (map (\<lambda>v. case rv_serial_number v of SerialBytes bs \<Rightarrow> bs) (lp_revoked_certs ps)))),
     he_parse_uuid := (\<lambda>s. if s = ''22'' then Some 22 else Some 23)\<rparr>"

definition race_http :: "unit http_state" where
  "race_http = with_store \<lparr>st_path = [''c''], st_records = [(22, sample_issued), (23, sample_record 23)]\<rparr> sample_http"

definition race_task :: "uuid \<Rightarrow> revoke_task" where
  "race_task i = \<lparr>rt_id = i, rt_reason = ''superseded'', rt_now = 60, rt_crl = hf_crl sample_http_fresh\<rparr>"

lemma race_sel:
  "can_issue_certificates (he_authorization race_env) (sample_client ''aa'')"
  "\<forall>m. \<exists>t. sd_to_string_pretty (he_serde race_env) m = Inr t"
  "\<forall>a b c d. \<exists>cfg. build_mtls_server_config (he_rustls race_env) a b c d = Inr cfg"
  "he_data_dir race_env = [''d'']" "hex_to_bytes ''0a'' = Done (Some [10])"
  "hex_to_bytes (hex_of_bytes [1, 7, 3]) = Done (Some [1, 7, 3])"
  "cr_serial_number sample_issued = hex_of_bytes [1, 7, 3]"
proof -
  show "can_issue_certificates (he_authorization race_env) (sample_client ''aa'')"
    using sample_authorized by (simp add: race_env_def)
  show "\<forall>a b c d. \<exists>cfg. build_mtls_server_config (he_rustls race_env) a b c d = Inr cfg"
    by (simp add: build_config_ok race_env_def sample_env_def sample_rustls_def)
  have "hex_of_bytes [10] = ''0a''" by code_simp
  then show "hex_to_bytes ''0a'' = Done (Some [10])" using hex_round_trip[of "[10]"] by simp
  show "hex_to_bytes (hex_of_bytes [1, 7, 3]) = Done (Some [1, 7, 3])" by (rule hex_round_trip) simp
qed (simp_all add: race_env_def sample_env_def sample_issued_def issued_record_def certificate_record_new_def)

lemma race_tasks:
  "arrive_revoke race_env sample_http_fresh (sample_client ''aa'') ''/v1/certificates/22/revoke'' [1] = Revoking (race_task 22) PcStart"
  "arrive_revoke race_env sample_http_fresh (sample_client ''aa'') ''/v1/certificates/23/revoke'' [1] = Revoking (race_task 23) PcStart"
  using race_sel(1)
  by (simp_all add: arrive_revoke_def certificate_id_from_revoke_path_def race_task_def sample_http_fresh_def)
    (simp_all add: race_env_def sample_env_def strip_prefix_def strip_suffix_def suffix_def)

lemma race_signs:
  assumes "st_records s = [(22, a), (23, b)]" and "cr_serial_number a = hex_of_bytes [1, 7, 3]" and "cr_serial_number b = ''0a''"
  shows "\<exists>der. signed_der (he_signer race_env) iss n (crl_for_store u now t s) = Done (Inr der)"
  using race_sel(5,6)
  by (simp add: signed_der_def crl_for_store_entries store_list_def hm_values_def assms entry_of_def Let_def race_env_def
      sort_key_def insort_key_def)

section \<open>Properties\<close>

text \<open>
  C6. A revocation answered 200 can be lost. Take any two revocation requests that would be
  answered 200 one after the other, the second for a serial number that is not revoked before
  it. Served at the same time there is a schedule after which both callers have their 200, both
  certificates are revoked in the store, and yet the acceptor checks clients against the list of
  the first request, which does not name the second certificate: nothing orders the two
  refreshes, so the older list can be installed last, and stays until the next refresh.
\<close>

theorem revocation_can_be_lost:
  assumes "arrive_revoke env fr1 i1 path1 body1 = Revoking q1 PcStart" and "arrive_revoke env fr2 i2 path2 body2 = Revoking q2 PcStart"
    and "handle_revoke_certificate env fr1 i1 path1 body1 st = Done (st1, Answer 200 (RecordBody r1))"
    and "handle_revoke_certificate env fr2 i2 path2 body2 st1 = Done (st2, Answer 200 (RecordBody r2))"
    and "\<not> is_revoked_serial (store_of st1) (cr_serial_number r2)" and "store_ok (store_of st)"
  shows "\<exists>st'. (serve_step env)\<^sup>*\<^sup>* (st, [Revoking q1 PcStart, Revoking q2 PcStart])
      (st', [Revoking q1 (PcAnswered (Answer 200 (RecordBody r1))), Revoking q2 (PcAnswered (Answer 200 (RecordBody r2)))]) \<and>
    is_revoked_serial (store_of st') (cr_serial_number r1) \<and> is_revoked_serial (store_of st') (cr_serial_number r2) \<and>
    (\<exists>der n crl. tc_crls (acceptor_current (hs_acceptor st')) = [der] \<and>
       signed_der (he_signer env) (int_issuer (he_ca env)) n crl = Done (Inr der) \<and>
       \<not> contains_serial (cr_serial_number r2) crl)"
proof -
  let ?st = "with_config (acceptor_current (hs_acceptor st1)) st2"
  note run = lost_schedule[OF assms(1,3,2,4)]
  have "is_revoked_serial (store_of st2) (cr_serial_number r1)"
    using revoked_serial_mono[OF r_into_rtranclp store_step_ok answered_revoked[OF assms(3)]]
      answered_step[OF assms(3)] answered_step[OF assms(4)] assms(6) by blast
  moreover obtain der n crl where "tc_crls (acceptor_current (hs_acceptor st1)) = [der]"
    "signed_der (he_signer env) (int_issuer (he_ca env)) n crl = Done (Inr der)"
    "\<not> contains_serial (cr_serial_number r2) crl"
    using answered_list[OF assms(3)] assms(5) by blast
  ultimately show ?thesis using answered_revoked[OF assms(4)] by (intro exI[of _ ?st] conjI run) auto
qed

theorem revocation_can_be_lost_witness:
  "\<exists>st' r1 r2. (serve_step race_env)\<^sup>*\<^sup>* (race_http, [Revoking (race_task 22) PcStart, Revoking (race_task 23) PcStart])
      (st', [Revoking (race_task 22) (PcAnswered (Answer 200 (RecordBody r1))), Revoking (race_task 23) (PcAnswered (Answer 200 (RecordBody r2)))]) \<and>
    is_revoked_serial (store_of st') ''0a''"
proof -
  let ?r1 = "revoked_by 60 ''superseded'' sample_issued" and ?r2 = "revoked_by 60 ''superseded'' (sample_record 23)"
  have st: "st_records (store_of race_http) = [(22, sample_issued), (23, sample_record 23)]"
    "st_path (store_of race_http) = [''c'']" "files_of race_http = sample_fs"
    by (simp_all add: race_http_def sample_http_def sample_state_def)
  have paths: "crl_number_path [''d''] \<notin> {[''c''], with_extension [''c''] ''json.tmp''}" "regular_path [''c'']"
    by (simp_all add: crl_number_path_def path_join_def with_extension_def regular_path_def)
  have n0: "stored_number [''d''] sample_fs = Some 0" by (simp add: stored_number_def sample_fs_def file_at_def)
  have f0: "fs_faults sample_fs = []" by (simp add: sample_fs_def)
  have ca: "checked_add (0 :: u64) 1 = Some 1" "checked_add (1 :: u64) 1 = Some 2" by (simp_all add: checked_add_def)
  obtain st1 where s1: "handle_revoke_certificate race_env sample_http_fresh (sample_client ''aa'') ''/v1/certificates/22/revoke'' [1]
      race_http = Done (st1, Answer 200 (RecordBody ?r1))"
    "st_records (store_of st1) = [(22, ?r1), (23, sample_record 23)]" "st_path (store_of st1) = [''c'']"
    "fs_faults (files_of st1) = []" "stored_number [''d''] (files_of st1) = Some 1"
    using revoke_works[OF race_tasks(1) _ race_sel(2,3), of race_http sample_issued 0 1] st paths n0 f0 ca race_sel(4,7)
    by (auto simp: store_get_def hm_get_def hm_insert_def race_task_def race_signs)
  obtain st2 where s2: "handle_revoke_certificate race_env sample_http_fresh (sample_client ''aa'') ''/v1/certificates/23/revoke'' [1]
      st1 = Done (st2, Answer 200 (RecordBody ?r2))"
    using revoke_works[OF race_tasks(2) _ race_sel(2,3), of st1 "sample_record 23" 1 2] s1 paths ca race_sel(4,7)
    by (auto simp: store_get_def hm_get_def hm_insert_def race_task_def race_signs)
  have "hex_of_bytes [1, 7, 3] \<noteq> ''0a''" using race_sel(5,6) by auto
  then have nr: "\<not> is_revoked_serial (store_of st1) (cr_serial_number ?r2)"
    by (simp add: is_revoked_serial_def hm_values_def s1(2) race_sel(7))
  have ok: "store_ok (store_of race_http)" by (auto simp: store_ok_def store_get_def hm_get_def hm_ok_def st)
  from revocation_can_be_lost[OF race_tasks s1(1) s2 nr ok] show ?thesis by auto
qed

end
