(* ===== verification/Race_Disk.thy ===== *)
theory Race_Disk
  imports Race_Props
begin

text \<open>
  The store's file under concurrent requests. All those that are writing hold the read
  lock, so they write the same text; as long as no write is torn, the file always has a text
  that records every acknowledged change. The temporary file is shared, though: a torn
  write of one request can be renamed into place by another.
\<close>

section \<open>What a step does to the two files\<close>

definition no_torn :: "fs \<Rightarrow> bool" where
  "no_torn w = list_all (\<lambda>f. case f of FailsPartial _ _ \<Rightarrow> False | _ \<Rightarrow> True) (fs_faults w)"

abbreviation temp_path :: "certificate_store \<Rightarrow> path" where
  "temp_path s \<equiv> with_extension (st_path s) ''json.tmp''"

lemma no_torn_next:
  assumes "no_torn w" and "next_fault w = (f, w')"
  shows "no_torn w' \<and> (f = NoFault \<or> (\<exists>e. f = Fails e))"
  using assms by (cases f) (auto simp: no_torn_def next_fault_def split: list.splits fault.splits)

lemma write_no_torn:
  assumes "no_torn w" and "fs_write p bs w = (w', r)"
  shows "no_torn w' \<and> (r = Inr () \<and> file_at w' = (file_at w)(p \<mapsto> bs) \<or> (\<exists>e. r = Inl e) \<and> file_at w' = file_at w)"
proof -
  obtain f w1 where n: "next_fault w = (f, w1)" by (cases "next_fault w")
  then have at: "file_at w1 = file_at w" using next_fault_at[of w] by simp
  have t: "no_torn w1" "f = NoFault \<or> (\<exists>e. f = Fails e)" using no_torn_next[OF assms(1) n] by auto
  have "no_torn (w1\<lparr>fs_files := x\<rparr>)" for x using t(1) by (simp add: no_torn_def)
  then show ?thesis using assms(2) t at by (auto simp: fs_write_def n)
qed

lemma rename_no_torn:
  assumes "no_torn w" and "fs_rename a b w = (w', r)"
  shows "no_torn w' \<and> ((\<exists>bs. r = Inr () \<and> file_at w a = Some bs \<and> file_at w' = (file_at w)(a := None, b \<mapsto> bs)) \<or>
    (\<exists>e. r = Inl e) \<and> file_at w' = file_at w)"
proof -
  obtain f w1 where n: "next_fault w = (f, w1)" by (cases "next_fault w")
  have t: "no_torn w1" using no_torn_next[OF assms(1) n] by auto
  have "no_torn w'" using assms(2) t by (auto simp: fs_rename_def n no_torn_def split: fault.splits option.splits)
  then show ?thesis using fs_rename_effect[where a = a and b = b and w = w] assms(2) by auto
qed

lemma exists_no_torn: "no_torn w \<Longrightarrow> fs_exists p w = (w', x) \<Longrightarrow> no_torn w' \<and> file_at w' = file_at w"
  using file_at_exists[of p w] no_torn_next[of w] by (auto simp: fs_exists_def split: prod.splits)

lemma read_no_torn: "no_torn w \<Longrightarrow> fs_read_to_string p w = (w', x) \<Longrightarrow> no_torn w' \<and> file_at w' = file_at w"
  using file_at_read[of p w] no_torn_next[of w] by (auto simp: fs_read_to_string_def split: prod.splits)

lemma parent_no_torn: "no_torn w \<Longrightarrow> persist_parent s w = (w', x) \<Longrightarrow> no_torn w' \<and> file_at w' = file_at w"
  using file_at_parent[of s w] no_torn_next[of w]
  by (auto simp: persist_parent_def fs_create_dir_all_def split: prod.splits option.splits if_splits)

definition paths_apart :: "('key, 'iss, 'c, 'k) http_env \<Rightarrow> certificate_store \<Rightarrow> bool" where
  "paths_apart env s =
     (regular_path (st_path s) \<and>
      crl_number_path (he_data_dir env) \<notin> {st_path s, temp_path s} \<and> crl_der_path (he_data_dir env) \<notin> {st_path s, temp_path s})"

lemma temp_differs: "paths_apart env s \<Longrightarrow> temp_path s \<noteq> st_path s"
  by (simp add: paths_apart_def regular_path_def with_json_tmp_differs)

text \<open>One step of \<open>persist\<close>.\<close>

lemma persist_step_files:
  assumes "persist_step sd ps s w = (w', x)" and "no_torn w"
  shows "no_torn w' \<and>
    (file_at w' = file_at w \<and> x \<noteq> Inr None \<and> (\<forall>ps'. x = Inr (Some ps') \<longrightarrow> ps' \<noteq> Renaming) \<or>
     (\<exists>t. ps = WritingTemp t \<and> x = Inr (Some Renaming) \<and> file_at w' = (file_at w)(temp_path s \<mapsto> as_bytes t)) \<or>
     (\<exists>bs. ps = Renaming \<and> x = Inr None \<and> file_at w (temp_path s) = Some bs \<and>
        file_at w' = (file_at w)(temp_path s := None, st_path s \<mapsto> bs)))"
proof (cases ps)
  case Serializing
  then show ?thesis using assms by (auto split: sum.splits)
next
  case (MakingDir t)
  obtain r where "persist_parent s w = (w', r)" using assms(1) MakingDir by (auto split: sum.splits prod.splits)
  then show ?thesis using parent_no_torn[OF assms(2)] assms(1) MakingDir by (auto split: sum.splits)
next
  case (WritingTemp t)
  obtain r where r: "fs_write (temp_path s) (as_bytes t) w = (w', r)" using assms(1) WritingTemp by (auto split: sum.splits prod.splits)
  then show ?thesis using write_no_torn[OF assms(2) r] assms(1) WritingTemp by (auto split: sum.splits)
next
  case Renaming
  obtain r where r: "fs_rename (temp_path s) (st_path s) w = (w', r)" using assms(1) Renaming by (auto split: sum.splits prod.splits)
  then show ?thesis using rename_no_torn[OF assms(2) r] assms(1) Renaming by (auto split: sum.splits)
qed

text \<open>What \<open>persist\<close> has written of a request's promise.\<close>

fun saved :: "'k request \<Rightarrow> (uuid \<times> (certificate_record \<Rightarrow> bool)) option" where
  "saved (Revoking q (PcPersist _ _)) = None" | "saved (Issuing t (IcPersist _ _)) = None" | "saved rq = kept rq"

lemma saved_kept: "saved rq = Some x \<Longrightarrow> kept rq = Some x"
  by (cases rq rule: saved.cases) simp_all

lemma saved_unless_writing: "writing rq = None \<Longrightarrow> saved rq = kept rq"
  by (cases rq rule: saved.cases) simp_all

text \<open>A step in \<open>persist\<close>, and any other step, for both kinds of request.\<close>

lemma step_writing:
  assumes "request_step env rq st = (st', rq')" and "writing rq = Some ps"
    and "persist_step (he_serde env) ps (store_of st) (files_of st) = (w, x)"
  shows "st' = with_fs w st \<and> writing rq' = (case x of Inr ps' \<Rightarrow> ps' | Inl _ \<Rightarrow> None) \<and> (x \<noteq> Inr None \<longrightarrow> saved rq' = None)"
  using assms(2)
proof (cases rq rule: writing.cases)
  case (1 q r ps)
  with assms show ?thesis by (auto simp: persist_failed_def split: sum.splits option.splits)
next
  case (2 t pem ps)
  with assms show ?thesis by (auto simp: issue_failed_def Let_def split: sum.splits option.splits)
qed simp_all

lemma step_elsewhere:
  assumes "request_step env rq st = (st', rq')" and "no_torn (files_of st)" and "paths_apart env (store_of st)" and "writing rq = None"
    and "p \<in> {st_path (store_of st), temp_path (store_of st)}"
  shows "no_torn (files_of st') \<and> file_at (files_of st') p = file_at (files_of st) p"
proof (cases rq)
  case (Revoking q pc)
  obtain pc' where s: "revoke_step env q pc st = (st', pc')" using assms(1) Revoking by (auto split: prod.splits)
  have ne: "p \<noteq> crl_number_path (he_data_dir env)" "p \<noteq> crl_der_path (he_data_dir env)"
    using assms(3,5) by (auto simp: paths_apart_def)
  have wr: "no_torn (fst (fs_write f bs (files_of st))) \<and> (p \<noteq> f \<longrightarrow> file_at (fst (fs_write f bs (files_of st))) p = file_at (files_of st) p)" for f bs
    using write_no_torn[OF assms(2), of f bs] fs_write_other[of p f bs "files_of st"] by (metis prod.collapse)
  show ?thesis
  proof (cases pc)
    case PcStart
    then show ?thesis using s assms(2) by (auto simp: revoke_start simp del: revoke_step.simps(1) split: option.splits)
  next
    case (PcPersist r ps)
    then show ?thesis using assms(4) Revoking by simp
  next
    case (PcNumberExists r)
    have "files_of st' = fst (fs_exists (crl_number_path (he_data_dir env)) (files_of st))"
      using s PcNumberExists by (auto split: prod.splits)
    then show ?thesis using exists_no_torn[OF assms(2), of "crl_number_path (he_data_dir env)"] by (metis prod.collapse)
  next
    case (PcNumberRead r)
    have "files_of st' = fst (fs_read_to_string (crl_number_path (he_data_dir env)) (files_of st))"
      using s PcNumberRead by (auto split: prod.splits sum.splits)
    then show ?thesis using read_no_torn[OF assms(2), of "crl_number_path (he_data_dir env)"] by (metis prod.collapse)
  next
    case (PcNumberWrite r n)
    have "files_of st' = fst (fs_write (crl_number_path (he_data_dir env)) (as_bytes (show_nat (unat n))) (files_of st))"
      using s PcNumberWrite by (auto split: prod.splits sum.splits)
    then show ?thesis using wr ne by simp
  next
    case (PcWriteCrl r der)
    have "files_of st' = fst (fs_write (crl_der_path (he_data_dir env)) der (files_of st))"
      using s PcWriteCrl by (auto split: prod.splits sum.splits)
    then show ?thesis using wr ne by simp
  qed (use s assms(2) in \<open>auto split: sum.splits may_panic.splits\<close>)
next
  case (Issuing t pc)
  obtain pc' where s: "issue_step env t pc st = (st', pc')" using assms(1) Issuing by (auto split: prod.splits)
  have "files_of st' = files_of st"
  proof (cases pc)
    case IcStart
    then show ?thesis using s by (auto split: sum.splits prod.splits dest!: prepared_effect)
  next
    case (IcPersist pem ps)
    then show ?thesis using assms(4) Issuing by simp
  qed (use s in \<open>auto simp: issue_insert record_event_eq simp del: issue_step.simps(2)\<close>)
  then show ?thesis using assms(2) by simp
qed (use assms(1,2) in auto)

lemma step_saved_elsewhere:
  assumes "request_step env rq st = (st', rq')" and "writing rq = None" and "saved rq' = Some x"
  shows "saved rq = Some x"
proof (cases rq)
  case (Arriving fr i bs)
  then have e: "rq' = arrive env fr i bs st" using assms by auto
  show ?thesis using assms(3) unfolding e by (cases rule: arrive_cases[of env fr i bs st]) simp_all
next
  case (Revoking q pc)
  obtain pc' where s: "revoke_step env q pc st = (st', pc')" "rq' = Revoking q pc'"
    using assms(1) Revoking by (auto split: prod.splits)
  have "pc_record pc = pc_record pc' \<or> pc = PcStart"
    using revoke_step_record[OF s(1)] saved_kept[OF assms(3)] s(2) by auto
  moreover have "pc \<noteq> PcStart" using assms(3) s by (auto simp: revoke_start simp del: revoke_step.simps(1) split: option.splits)
  ultimately show ?thesis using saved_kept[OF assms(3)] saved_unless_writing[OF assms(2)] Revoking s(2) by simp
next
  case (Issuing t pc)
  obtain pc' where s: "issue_step env t pc st = (st', pc')" "rq' = Issuing t pc'"
    using assms(1) Issuing by (auto split: prod.splits)
  have "ic_response t pc' = ic_response t pc"
    using assms s Issuing by (cases pc) (auto simp: Let_def split: sum.splits prod.splits)
  then show ?thesis using saved_kept[OF assms(3)] saved_unless_writing[OF assms(2)] Issuing s(2) by simp
qed (use assms in auto)

lemma step_starts_writing:
  assumes "request_step env rq st = (st', rq')" and "writing rq = None" and "writing rq' = Some ps"
  shows "ps = Serializing"
proof (cases rq)
  case (Arriving fr i bs)
  then have e: "rq' = arrive env fr i bs st" using assms by auto
  show ?thesis using assms(3) unfolding e by (cases rule: arrive_cases[of env fr i bs st]) simp_all
next
  case (Revoking q pc)
  then show ?thesis using assms by (cases pc)
    (auto simp: Let_def number_found_def not_refreshed_def persist_failed_def
      split: sum.splits prod.splits option.splits may_panic.splits if_splits)
next
  case (Issuing t pc)
  then show ?thesis using assms by (cases pc) (auto simp: Let_def issue_failed_def split: sum.splits prod.splits option.splits)
qed (use assms in auto)

section \<open>The invariant\<close>

definition text_of :: "('key, 'iss, 'c, 'k) http_env \<Rightarrow> certificate_store \<Rightarrow> string option" where
  "text_of env s = (case sd_to_string_pretty (he_serde env) (st_records s) of Inl _ \<Rightarrow> None | Inr t \<Rightarrow> Some t)"

text \<open>The file has the text of some store in which the record is as promised; ids to come are unused in it.\<close>

definition recorded_on_disk ::
  "('key, 'iss, 'c, 'k) http_env \<Rightarrow> path \<Rightarrow> fs \<Rightarrow> uuid set \<Rightarrow> uuid \<Rightarrow> (certificate_record \<Rightarrow> bool) \<Rightarrow> bool" where
  "recorded_on_disk env p w unused i P =
     (\<exists>s t. st_path s = p \<and> store_ok s \<and> has_record i P s \<and> (\<forall>j \<in> unused. store_get s j = None) \<and>
        sd_to_string_pretty (he_serde env) (st_records s) = Inr t \<and> file_at w p = Some (as_bytes t))"

definition disk_ok :: "('key, 'iss, 'c, 'k) http_env \<Rightarrow> uuid set \<Rightarrow> 'k http_state \<Rightarrow> 'k request \<Rightarrow> bool" where
  "disk_ok env unused st rq =
     ((\<forall>t. writing rq = Some (MakingDir t) \<or> writing rq = Some (WritingTemp t) \<longrightarrow> text_of env (store_of st) = Some t) \<and>
      (\<forall>bs. writing rq = Some Renaming \<longrightarrow> file_at (files_of st) (temp_path (store_of st)) = Some bs \<longrightarrow>
         (\<exists>t. text_of env (store_of st) = Some t \<and> bs = as_bytes t)) \<and>
      (\<forall>i P. saved rq = Some (i, P) \<longrightarrow> recorded_on_disk env (st_path (store_of st)) (files_of st) unused i P))"

lemma recorded_by_store:
  assumes "text_of env s = Some t" and "file_at w (st_path s) = Some (as_bytes t)" and "has_record i P s" and "store_ok s"
    and "\<forall>j \<in> unused. store_get s j = None"
  shows "recorded_on_disk env (st_path s) w unused i P"
  using assms by (auto simp: recorded_on_disk_def text_of_def split: sum.splits intro: exI[of _ s])

lemma recorded_cong:
  "file_at w' p = file_at w p \<Longrightarrow> recorded_on_disk env p w unused i P \<Longrightarrow> recorded_on_disk env p w' unused i P"
  by (simp add: recorded_on_disk_def)

text \<open>A step from a state in which the invariant holds of the request that makes it.\<close>

definition safe_step ::
  "('key, 'iss, 'c, 'k) http_env \<Rightarrow> uuid set \<Rightarrow> 'k request \<Rightarrow> 'k http_state \<Rightarrow> 'k http_state \<Rightarrow> 'k request \<Rightarrow> bool" where
  "safe_step env unused rq st st' rq' =
     (request_step env rq st = (st', rq') \<and> \<not> rq_finished rq \<and> no_torn (files_of st) \<and> paths_apart env (store_of st) \<and>
      disk_ok env unused st rq \<and> request_ok env (store_of st) rq)"

text \<open>The store's file changes only to the text of the store; the temporary file holds it before.\<close>

lemma files_after:
  assumes "safe_step env unused rq st st' rq'"
  shows "no_torn (files_of st')"
    and "file_at (files_of st') (st_path (store_of st)) = file_at (files_of st) (st_path (store_of st)) \<and> saved rq' = None \<or>
      file_at (files_of st') (st_path (store_of st)) = file_at (files_of st) (st_path (store_of st)) \<and> saved rq' = saved rq \<or>
      (\<exists>t. text_of env (store_of st) = Some t \<and> store_of st' = store_of st \<and>
        file_at (files_of st') (st_path (store_of st)) = Some (as_bytes t))"
    and "file_at (files_of st') (temp_path (store_of st)) = Some bs \<Longrightarrow>
      file_at (files_of st) (temp_path (store_of st)) = Some bs \<or> (\<exists>t. text_of env (store_of st) = Some t \<and> bs = as_bytes t)"
    and "writing rq' = Some Renaming \<Longrightarrow> file_at (files_of st') (temp_path (store_of st)) = Some bs \<Longrightarrow>
      (\<exists>t. text_of env (store_of st) = Some t \<and> bs = as_bytes t)"
proof -
  have step: "request_step env rq st = (st', rq')" and untorn: "no_torn (files_of st)" and apart: "paths_apart env (store_of st)"
    and mine: "disk_ok env unused st rq" using assms by (simp_all add: safe_step_def)
  let ?p = "st_path (store_of st)" and ?q = "temp_path (store_of st)"
  have ne: "?q \<noteq> ?p" by (rule temp_differs[OF apart])
  have "no_torn (files_of st') \<and>
    (file_at (files_of st') ?p = file_at (files_of st) ?p \<and> (saved rq' = None \<or> saved rq' = saved rq) \<or>
      (\<exists>t. text_of env (store_of st) = Some t \<and> store_of st' = store_of st \<and> file_at (files_of st') ?p = Some (as_bytes t))) \<and>
    (\<forall>bs. file_at (files_of st') ?q = Some bs \<longrightarrow>
      file_at (files_of st) ?q = Some bs \<or> (\<exists>t. text_of env (store_of st) = Some t \<and> bs = as_bytes t)) \<and>
    (writing rq' = Some Renaming \<longrightarrow> (\<forall>bs. file_at (files_of st') ?q = Some bs \<longrightarrow>
      (\<exists>t. text_of env (store_of st) = Some t \<and> bs = as_bytes t)))"
  proof (cases "writing rq")
    case None
    have "saved rq' = None \<or> saved rq' = saved rq" using step_saved_elsewhere[OF step None] by (cases "saved rq'") simp_all
    then show ?thesis using step_elsewhere[OF step untorn apart None] step_starts_writing[OF step None] by auto
  next
    case (Some ps)
    obtain w x where p: "persist_step (he_serde env) ps (store_of st) (files_of st) = (w, x)"
      by (cases "persist_step (he_serde env) ps (store_of st) (files_of st)")
    have st': "st' = with_fs w st" and wr: "writing rq' = (case x of Inr ps' \<Rightarrow> ps' | Inl _ \<Rightarrow> None)"
      and sv: "x \<noteq> Inr None \<Longrightarrow> saved rq' = None" using step_writing[OF step Some p] by blast+
    from persist_step_files[OF p untorn] consider
        "no_torn w" "file_at w = file_at (files_of st)" "x \<noteq> Inr None" "\<forall>ps'. x = Inr (Some ps') \<longrightarrow> ps' \<noteq> Renaming"
      | t where "no_torn w" "ps = WritingTemp t" "x = Inr (Some Renaming)" "file_at w = (file_at (files_of st))(?q \<mapsto> as_bytes t)"
      | bs where "no_torn w" "ps = Renaming" "x = Inr None" "file_at (files_of st) ?q = Some bs"
        "file_at w = (file_at (files_of st))(?q := None, ?p \<mapsto> bs)" by blast
    then show ?thesis
    proof cases
      case 1
      then show ?thesis using sv wr unfolding st' by (auto split: sum.splits)
    next
      case 2
      then have "text_of env (store_of st) = Some t" using mine Some by (simp add: disk_ok_def)
      then show ?thesis using 2 sv ne unfolding st' by simp
    next
      case 3
      then obtain t where "text_of env (store_of st) = Some t" "bs = as_bytes t" using mine Some by (auto simp: disk_ok_def)
      then show ?thesis using 3 wr ne unfolding st' by simp
    qed
  qed
  then show "no_torn (files_of st')"
    and "file_at (files_of st') ?p = file_at (files_of st) ?p \<and> saved rq' = None \<or>
      file_at (files_of st') ?p = file_at (files_of st) ?p \<and> saved rq' = saved rq \<or>
      (\<exists>t. text_of env (store_of st) = Some t \<and> store_of st' = store_of st \<and> file_at (files_of st') ?p = Some (as_bytes t))"
    and "file_at (files_of st') ?q = Some bs \<Longrightarrow>
      file_at (files_of st) ?q = Some bs \<or> (\<exists>t. text_of env (store_of st) = Some t \<and> bs = as_bytes t)"
    and "writing rq' = Some Renaming \<Longrightarrow> file_at (files_of st') ?q = Some bs \<Longrightarrow>
      (\<exists>t. text_of env (store_of st) = Some t \<and> bs = as_bytes t)" by blast+
qed

lemma text_after:
  assumes "safe_step env unused rq st st' rq'" and "writing rq' = Some (MakingDir t) \<or> writing rq' = Some (WritingTemp t)"
  shows "text_of env (store_of st) = Some t"
proof -
  have step: "request_step env rq st = (st', rq')" and mine: "disk_ok env unused st rq" using assms(1) by (simp_all add: safe_step_def)
  obtain ps where ps: "writing rq = Some ps" using step_starts_writing[OF step] assms(2) by (cases "writing rq") auto
  obtain w x where p: "persist_step (he_serde env) ps (store_of st) (files_of st) = (w, x)"
    by (cases "persist_step (he_serde env) ps (store_of st) (files_of st)")
  have "x = Inr (Some (MakingDir t)) \<or> x = Inr (Some (WritingTemp t))"
    using step_writing[OF step ps p] assms(2) by (auto split: sum.splits)
  then show ?thesis using p mine ps
    by (cases ps) (auto simp: disk_ok_def text_of_def split: sum.splits prod.splits)
qed

lemma own_disk_ok:
  assumes safe: "safe_step env unused rq st st' rq'" and "store_ok (store_of st')" and "request_ok env (store_of st') rq'"
    and "\<forall>j \<in> unused. store_get (store_of st') j = None"
  shows "disk_ok env unused st' rq'"
proof -
  have step: "request_step env rq st = (st', rq')" and mine: "disk_ok env unused st rq" using safe by (simp_all add: safe_step_def)
  have path: "st_path (store_of st') = st_path (store_of st)" by (rule step_path[OF step])
  have same: "store_of st' = store_of st" if w: "writing rq' = Some ps" "ps \<noteq> Serializing" for ps
  proof -
    obtain ps' where "writing rq = Some ps'" using step_starts_writing[OF step] w by (cases "writing rq") auto
    then have "\<not> rq_waits rq" by (cases rq rule: writing.cases) simp_all
    then show ?thesis by (rule step_same_store[OF step])
  qed
  have "text_of env (store_of st') = Some t" if "writing rq' = Some (MakingDir t) \<or> writing rq' = Some (WritingTemp t)" for t
    using text_after[OF safe that] same that by auto
  moreover have "\<exists>t. text_of env (store_of st') = Some t \<and> bs = as_bytes t"
    if "writing rq' = Some Renaming" "file_at (files_of st') (temp_path (store_of st')) = Some bs" for bs
    using files_after(4)[OF safe that(1), of bs] that(2) same[OF that(1)] path by simp
  moreover have "recorded_on_disk env (st_path (store_of st')) (files_of st') unused i P" if s: "saved rq' = Some (i, P)" for i P
  proof -
    have h: "has_record i P (store_of st')" using assms(3) saved_kept[OF s] by (simp add: request_ok_def)
    from files_after(2)[OF safe] s consider
        "file_at (files_of st') (st_path (store_of st)) = file_at (files_of st) (st_path (store_of st))" "saved rq = Some (i, P)"
      | t where "text_of env (store_of st) = Some t" "store_of st' = store_of st"
        "file_at (files_of st') (st_path (store_of st)) = Some (as_bytes t)" by auto
    then show ?thesis
    proof cases
      case 1
      then show ?thesis using mine recorded_cong[OF 1(1)] unfolding path disk_ok_def by blast
    next
      case 2
      then show ?thesis using recorded_by_store[OF _ _ h assms(2,4), of env t] path by simp
    qed
  qed
  ultimately show ?thesis unfolding disk_ok_def by blast
qed

lemma other_disk_ok:
  assumes safe: "safe_step env unused rq st st' rq'" and "disk_ok env unused st rq1" and "request_ok env (store_of st) rq1"
    and "inserting rq" and "list_all (\<lambda>i. store_get (store_of st) i = None) (new_ids rq)" and "rq_waits rq \<Longrightarrow> \<not> rq_holds rq1"
    and "store_ok (store_of st)" and "\<forall>j \<in> unused. store_get (store_of st) j = None"
  shows "disk_ok env unused st' rq1"
proof -
  have step: "request_step env rq st = (st', rq')" using safe by (simp add: safe_step_def)
  have path: "st_path (store_of st') = st_path (store_of st)" by (rule step_path[OF step])
  have same: "store_of st' = store_of st" if "writing rq1 = Some ps" "ps \<noteq> Serializing" for ps
    using step_store[OF step assms(4,5)] assms(6) that by (cases ps) (auto simp: rq_holds_def)
  have "text_of env (store_of st') = Some t" if "writing rq1 = Some (MakingDir t) \<or> writing rq1 = Some (WritingTemp t)" for t
    using assms(2) that same unfolding disk_ok_def by auto
  moreover have "\<exists>t. text_of env (store_of st') = Some t \<and> bs = as_bytes t"
    if "writing rq1 = Some Renaming" "file_at (files_of st') (temp_path (store_of st')) = Some bs" for bs
    using files_after(3)[OF safe, of bs] assms(2) that same[OF that(1)] unfolding disk_ok_def by auto
  moreover have "recorded_on_disk env (st_path (store_of st')) (files_of st') unused i P" if s: "saved rq1 = Some (i, P)" for i P
  proof -
    have "recorded_on_disk env (st_path (store_of st)) (files_of st) unused i P" using assms(2) s by (simp add: disk_ok_def)
    moreover have "has_record i P (store_of st)" using assms(3) saved_kept[OF s] by (simp add: request_ok_def)
    ultimately show ?thesis using files_after(2)[OF safe] recorded_by_store[OF _ _ _ assms(7,8)] recorded_cong unfolding path by metis
  qed
  ultimately show ?thesis unfolding disk_ok_def by blast
qed

definition disk_inv ::
  "('key, 'iss, 'c, 'k) http_env \<Rightarrow> uuid set \<Rightarrow> 'k tls_acceptor_manager \<Rightarrow> 'k http_state \<times> 'k request list \<Rightarrow> bool" where
  "disk_inv env unused m0 c =
     (race_inv env m0 c \<and>
      (case c of (st, ts) \<Rightarrow> no_torn (files_of st) \<and> paths_apart env (store_of st) \<and>
         (\<forall>j \<in> unused. store_get (store_of st) j = None \<and> j \<notin> set (concat (map new_ids ts))) \<and>
         (\<forall>rq \<in> set ts. disk_ok env unused st rq)))"

lemma disk_inv_step:
  assumes "serve_step env c c'" and "disk_inv env unused m0 c"
  shows "disk_inv env unused m0 c'"
proof -
  obtain st ts where c: "c = (st, ts)" by (cases c)
  from assms(1)[unfolded c] obtain i st' rq' where i: "i < length ts" "\<not> rq_finished (ts ! i)"
    and wait: "rq_waits (ts ! i) \<longrightarrow> list_all (\<lambda>t. \<not> rq_holds t) ts"
    and n: "request_step env (ts ! i) st = (st', rq')" and c': "c' = (st', ts[i := rq'])" by (rule serve_stepE)
  have race: "race_inv env m0 (st, ts)" and untorn: "no_torn (files_of st)" and apart: "paths_apart env (store_of st)"
    and un: "\<And>j. j \<in> unused \<Longrightarrow> store_get (store_of st) j = None \<and> j \<notin> set (concat (map new_ids ts))"
    and disk: "\<And>rq. rq \<in> set ts \<Longrightarrow> disk_ok env unused st rq" using assms(2) by (auto simp: disk_inv_def c)
  have task: "\<And>rq. rq \<in> set ts \<Longrightarrow> request_ok env (store_of st) rq" and fr: "fresh_requests (store_of st) ts"
    and ok: "store_ok (store_of st)" using race by (auto simp: race_inv_def)
  have race': "race_inv env m0 (st', ts[i := rq'])" using race_inv_step[OF assms(1)] race by (simp add: c c')
  have t: "ts ! i \<in> set ts" using i(1) by simp
  have safe: "safe_step env unused (ts ! i) st st' rq'"
    using n i(2) untorn apart disk[OF t] task[OF t] by (simp add: safe_step_def)
  have ins: "inserting (ts ! i)" using task[OF t] by (simp add: request_ok_def)
  have new: "list_all (\<lambda>j. store_get (store_of st) j = None) (new_ids (ts ! i))"
    using fr t by (auto simp: fresh_requests_def list_all_iff)
  have "new_ids rq' = new_ids (ts ! i) \<or> new_ids rq' = []" using step_new_ids[OF n] by blast
  then have "set (concat (map new_ids (ts[i := rq']))) \<subseteq> set (concat (map new_ids ts))"
    using fr by (intro new_ids_update(2)[OF _ i(1)]) (simp_all add: fresh_requests_def)
  moreover have "store_get (store_of st') j = None" if "j \<in> unused" for j
    using un[OF that] t by (intro step_unused[OF n ins]) auto
  ultimately have un': "\<forall>j \<in> unused. store_get (store_of st') j = None \<and> j \<notin> set (concat (map new_ids (ts[i := rq'])))"
    using un by blast
  have m: "rq' \<in> set (ts[i := rq'])" using i(1) by (simp add: set_update_memI)
  have own: "disk_ok env unused st' rq'"
    by (rule own_disk_ok[OF safe]) (use race' m un' in \<open>auto simp: race_inv_def\<close>)
  have "disk_ok env unused st' rq" if "rq \<in> set (ts[i := rq'])" for rq
  proof (cases "rq = rq'")
    case False
    then have "rq \<in> set ts" using subsetD[OF set_update_subset_insert that] by auto
    then show ?thesis using other_disk_ok[OF safe disk task ins new _ ok] wait un by (auto simp: list_all_iff)
  qed (use own in simp)
  moreover have "paths_apart env (store_of st')" using apart by (simp add: paths_apart_def step_path[OF n])
  ultimately show ?thesis using race' files_after(1)[OF safe] un' by (simp add: disk_inv_def c')
qed

lemma disk_inv_steps: "(serve_step env)\<^sup>*\<^sup>* c c' \<Longrightarrow> disk_inv env unused m0 c \<Longrightarrow> disk_inv env unused m0 c'"
  by (induction rule: rtranclp_induct) (auto intro: disk_inv_step)

lemma starting_disk_ok: "starting rq \<Longrightarrow> disk_ok env unused st rq"
  by (cases rq rule: starting.cases) (simp_all add: disk_ok_def)

lemma disk_inv_start:
  assumes "store_ok (store_of st)" and "list_all starting ts" and "fresh_requests (store_of st) ts"
    and "no_torn (files_of st)" and "paths_apart env (store_of st)"
    and "\<And>j. j \<in> unused \<Longrightarrow> store_get (store_of st) j = None \<and> j \<notin> set (concat (map new_ids ts))"
  shows "disk_inv env unused (hs_acceptor st) (st, ts)"
  using assms(2,4-) race_inv_start[OF assms(1-3)] by (auto simp: disk_inv_def list_all_iff intro: starting_disk_ok)

lemma serve_steps_path: "(serve_step env)\<^sup>*\<^sup>* c c' \<Longrightarrow> st_path (store_of (fst c')) = st_path (store_of (fst c))"
proof (induction rule: rtranclp_induct)
  case (step y z)
  obtain st ts where "y = (st, ts)" by (cases y)
  with step show ?case by (auto elim!: serve_stepE simp: step_path)
qed simp

text \<open>Whatever a request has promised and written is in the file, at every moment of every schedule.\<close>

lemma saved_on_disk:
  assumes "disk_inv env unused m0 (st, ts)" and "(serve_step env)\<^sup>*\<^sup>* (st, ts) (st', ts')"
    and "rq \<in> set ts'" and "saved rq = Some (i, P)"
  shows "recorded_on_disk env (st_path (store_of st)) (files_of st') unused i P"
proof -
  have "disk_ok env unused st' rq" using disk_inv_steps[OF assms(2,1)] assms(3) by (auto simp: disk_inv_def)
  then show ?thesis using assms(4) serve_steps_path[OF assms(2)] by (simp add: disk_ok_def)
qed

section \<open>Properties\<close>



text \<open>A step of one of two requests, with the state it leads to.\<close>

lemma serve_first:
  assumes "request_step env p st = (st', p')" and "\<not> rq_finished p" and "rq_waits p \<longrightarrow> \<not> rq_holds p2"
  shows "serve_step env (st, [p, p2]) (st', [p', p2])"
  using il_step[where i = 0 and ts = "[p, p2]" and nxt = "request_step env" and finished = rq_finished
      and waits = rq_waits and holds = rq_holds and s = st] assms serving.holder_runs[of p] by (auto simp: serve_step_def)

lemma serve_second:
  assumes "request_step env p2 st = (st', p')" and "\<not> rq_finished p2" and "rq_waits p2 \<longrightarrow> \<not> rq_holds p"
  shows "serve_step env (st, [p, p2]) (st', [p, p'])"
  using il_step[where i = 1 and ts = "[p, p2]" and nxt = "request_step env" and finished = rq_finished
      and waits = rq_waits and holds = rq_holds and s = st] assms serving.holder_runs[of p2] by (auto simp: serve_step_def)

lemma start_marks:
  assumes "store_get (store_of st) (rt_id q) = Some r"
  shows "request_step env (Revoking q PcStart) st =
    (with_store ((store_of st)\<lparr>st_records := hm_insert (rt_id q) (revoked_by (rt_now q) (rt_reason q) r)
       (st_records (store_of st))\<rparr>) st, Revoking q (PcPersist (revoked_by (rt_now q) (rt_reason q) r) Serializing))"
  using assms by (simp add: store_get_def revoked_by_def Let_def)

text \<open>
  C19. A torn write of one request becomes the store's file through another. Two revocations of
  known certificates share the temporary file. If the second's write of it is torn (the disk is
  full, say) after the first's was complete, the second is answered 500, but the first then
  renames the torn file into place and its \<open>persist\<close> returns without an error: the file of the
  store is a prefix of the text, though the write that was acknowledged had not failed. (The
  path of the store has a parent, so \<open>persist\<close> makes four calls.)
\<close>

theorem torn_write_is_installed:
  assumes "store_get (store_of st) (rt_id q1) = Some r1" and "store_get (store_of st) (rt_id q2) = Some r2"
    and "rt_id q1 \<noteq> rt_id q2" and "regular_path (st_path (store_of st))" and "butlast (st_path (store_of st)) \<noteq> []"
    and "sd_to_string_pretty (he_serde env) (hm_insert (rt_id q2) (revoked_by (rt_now q2) (rt_reason q2) r2)
          (hm_insert (rt_id q1) (revoked_by (rt_now q1) (rt_reason q1) r1) (st_records (store_of st)))) = Inr t"
    and "fs_faults (files_of st) = [NoFault, NoFault, NoFault, FailsPartial e n]"
  shows "\<exists>st'. (serve_step env)\<^sup>*\<^sup>* (st, [Revoking q1 PcStart, Revoking q2 PcStart])
      (st', [Revoking q1 (PcNumberExists (revoked_by (rt_now q1) (rt_reason q1) r1)),
             Revoking q2 (PcAnswered (Answer 500 (ErrorBody (store_error_text (Io e)))))]) \<and>
    file_at (files_of st') (st_path (store_of st)) = Some (take n (as_bytes t))"
proof -
  let ?r1 = "revoked_by (rt_now q1) (rt_reason q1) r1" and ?r2 = "revoked_by (rt_now q2) (rt_reason q2) r2"
  let ?s1 = "(store_of st)\<lparr>st_records := hm_insert (rt_id q1) ?r1 (st_records (store_of st))\<rparr>"
  let ?s = "?s1\<lparr>st_records := hm_insert (rt_id q2) ?r2 (st_records ?s1)\<rparr>"
  let ?st = "with_store ?s st" and ?w = "files_of st" and ?p = "st_path (store_of st)"
  have "store_get ?s1 (rt_id q2) = Some r2" using assms(2,3) by (simp add: store_get_def)
  then have s2: "request_step env (Revoking q2 PcStart) (with_store ?s1 st) = (?st, Revoking q2 (PcPersist ?r2 Serializing))"
    using start_marks[of "with_store ?s1 st" q2 r2 env] by (simp add: with_store_def)
  have parent: "persist_parent ?s w = (w\<lparr>fs_faults := fs\<rparr>, Inr ())" if "fs_faults w = NoFault # fs" for w fs
    using assms(4,5) that by (simp add: persist_parent_def path_parent_def fs_create_dir_all_def next_fault_def regular_path_def)
  have full: "fs_write (temp_path ?s) (as_bytes t) w =
      (w\<lparr>fs_faults := fs, fs_files := hm_insert (temp_path ?s) (as_bytes t) (fs_files w)\<rparr>, Inr ())"
    if "fs_faults w = NoFault # fs" for w fs using that by (simp add: fs_write_def next_fault_def)
  have torn: "fs_write (temp_path ?s) (as_bytes t) w =
      (w\<lparr>fs_faults := [], fs_files := hm_insert (temp_path ?s) (take n (as_bytes t)) (fs_files w)\<rparr>, Inl e)"
    if "fs_faults w = [FailsPartial e n]" for w using that by (simp add: fs_write_def next_fault_def)
  let ?w1 = "?w\<lparr>fs_faults := [NoFault, NoFault, FailsPartial e n]\<rparr>"
  let ?w2 = "?w1\<lparr>fs_faults := [NoFault, FailsPartial e n], fs_files := hm_insert (temp_path ?s) (as_bytes t) (fs_files ?w1)\<rparr>"
  let ?w3 = "?w2\<lparr>fs_faults := [FailsPartial e n]\<rparr>"
  let ?w4 = "?w3\<lparr>fs_faults := [], fs_files := hm_insert (temp_path ?s) (take n (as_bytes t)) (fs_files ?w3)\<rparr>"
  let ?w5 = "?w4\<lparr>fs_files := hm_insert ?p (take n (as_bytes t)) (hm_remove (temp_path ?s) (fs_files ?w4))\<rparr>"
  have rename: "fs_rename (temp_path ?s) ?p ?w4 = (?w5, Inr ())" by (simp add: fs_rename_def next_fault_def)
  have a1: "serve_step env (st, [Revoking q1 PcStart, Revoking q2 PcStart]) (with_store ?s1 st, [Revoking q1 (PcPersist ?r1 Serializing), Revoking q2 PcStart])"
    by (intro serve_first start_marks[OF assms(1)]) (simp_all add: rq_holds_def)
  have a2: "serve_step env (with_store ?s1 st, [Revoking q1 (PcPersist ?r1 Serializing), Revoking q2 PcStart]) (?st, [Revoking q1 (PcPersist ?r1 Serializing), Revoking q2 (PcPersist ?r2 Serializing)])"
    by (intro serve_second s2) (simp_all add: rq_holds_def)
  have a3: "serve_step env (?st, [Revoking q1 (PcPersist ?r1 Serializing), Revoking q2 (PcPersist ?r2 Serializing)]) (?st, [Revoking q1 (PcPersist ?r1 (MakingDir t)), Revoking q2 (PcPersist ?r2 Serializing)])"
    using assms(6) by (intro serve_first) (simp_all add: rq_holds_def)
  have a4: "serve_step env (?st, [Revoking q1 (PcPersist ?r1 (MakingDir t)), Revoking q2 (PcPersist ?r2 Serializing)]) (with_fs ?w1 ?st, [Revoking q1 (PcPersist ?r1 (WritingTemp t)), Revoking q2 (PcPersist ?r2 Serializing)])"
    using parent[of ?w] assms(7) by (intro serve_first) (simp_all add: rq_holds_def)
  have a5: "serve_step env (with_fs ?w1 ?st, [Revoking q1 (PcPersist ?r1 (WritingTemp t)), Revoking q2 (PcPersist ?r2 Serializing)]) (with_fs ?w2 ?st, [Revoking q1 (PcPersist ?r1 Renaming), Revoking q2 (PcPersist ?r2 Serializing)])"
    using full[of ?w1] by (intro serve_first) (simp_all add: rq_holds_def)
  have a6: "serve_step env (with_fs ?w2 ?st, [Revoking q1 (PcPersist ?r1 Renaming), Revoking q2 (PcPersist ?r2 Serializing)]) (with_fs ?w2 ?st, [Revoking q1 (PcPersist ?r1 Renaming), Revoking q2 (PcPersist ?r2 (MakingDir t))])"
    using assms(6) by (intro serve_second) (simp_all add: rq_holds_def)
  have a7: "serve_step env (with_fs ?w2 ?st, [Revoking q1 (PcPersist ?r1 Renaming), Revoking q2 (PcPersist ?r2 (MakingDir t))]) (with_fs ?w3 ?st, [Revoking q1 (PcPersist ?r1 Renaming), Revoking q2 (PcPersist ?r2 (WritingTemp t))])"
    using parent[of ?w2] by (intro serve_second) (simp_all add: rq_holds_def)
  have a8: "serve_step env (with_fs ?w3 ?st, [Revoking q1 (PcPersist ?r1 Renaming), Revoking q2 (PcPersist ?r2 (WritingTemp t))]) (with_fs ?w4 ?st, [Revoking q1 (PcPersist ?r1 Renaming), Revoking q2 (persist_failed (Io e))])"
    using torn[of ?w3] by (intro serve_second) (simp_all add: rq_holds_def)
  have a9: "serve_step env (with_fs ?w4 ?st, [Revoking q1 (PcPersist ?r1 Renaming), Revoking q2 (persist_failed (Io e))]) (with_fs ?w5 ?st, [Revoking q1 (PcNumberExists ?r1), Revoking q2 (persist_failed (Io e))])"
    using rename by (intro serve_first) (simp_all add: rq_holds_def)
  note n1 = r_into_rtranclp[of "serve_step env", OF a1]
  note n2 = rtranclp.rtrancl_into_rtrancl[of "serve_step env", OF n1 a2]
  note n3 = rtranclp.rtrancl_into_rtrancl[of "serve_step env", OF n2 a3]
  note n4 = rtranclp.rtrancl_into_rtrancl[of "serve_step env", OF n3 a4]
  note n5 = rtranclp.rtrancl_into_rtrancl[of "serve_step env", OF n4 a5]
  note n6 = rtranclp.rtrancl_into_rtrancl[of "serve_step env", OF n5 a6]
  note n7 = rtranclp.rtrancl_into_rtrancl[of "serve_step env", OF n6 a7]
  note n8 = rtranclp.rtrancl_into_rtrancl[of "serve_step env", OF n7 a8]
  note n9 = rtranclp.rtrancl_into_rtrancl[of "serve_step env", OF n8 a9]
  show ?thesis using n9 unfolding persist_failed_def
    by (intro exI[of _ "with_fs ?w5 ?st"] conjI) (simp_all add: file_at_def)
qed

theorem torn_write_is_installed_witness:
  "\<exists>env (st :: unit http_state) st' r1 b. (serve_step env)\<^sup>*\<^sup>*
     (st, [Revoking sample_task PcStart, Revoking (sample_task\<lparr>rt_id := 23\<rparr>) PcStart])
     (st', [Revoking sample_task (PcNumberExists r1), Revoking (sample_task\<lparr>rt_id := 23\<rparr>) (PcAnswered (Answer 500 b))]) \<and>
   sd_to_string_pretty (he_serde (env :: (nat, nat, bytes, unit) http_env)) (st_records (store_of st')) = Inr ''two records'' \<and>
   file_at (files_of st') [''d'', ''certificates.json''] = Some (as_bytes ''two'')"
proof -
  let ?env = "sample_env\<lparr>he_serde := \<lparr>sd_to_string_pretty = (\<lambda>m. Inr ''two records''), sd_from_str = (\<lambda>s. Inl s)\<rparr>\<rparr>"
  let ?st = "with_fs (sample_fs\<lparr>fs_faults := [NoFault, NoFault, NoFault, FailsPartial ''ENOSPC'' 3]\<rparr>)
    (with_store \<lparr>st_path = [''d'', ''certificates.json''], st_records = [(22, sample_issued), (23, sample_record 23)]\<rparr> sample_http)"
  have tk: "take 3 (as_bytes ''two records'') = as_bytes ''two''" by (simp add: as_bytes_def)
  have g: "store_get (store_of ?st) (rt_id sample_task) = Some sample_issued"
    "store_get (store_of ?st) (rt_id (sample_task\<lparr>rt_id := 23\<rparr>)) = Some (sample_record 23)"
    by (simp_all add: store_get_def hm_get_def sample_task_def)
  have p: "regular_path (st_path (store_of ?st))" "butlast (st_path (store_of ?st)) \<noteq> []"
    "rt_id sample_task \<noteq> rt_id (sample_task\<lparr>rt_id := 23\<rparr>)"
    by (simp_all add: regular_path_def sample_task_def)
  obtain st' where "(serve_step ?env)\<^sup>*\<^sup>* (?st, [Revoking sample_task PcStart, Revoking (sample_task\<lparr>rt_id := 23\<rparr>) PcStart])
      (st', [Revoking sample_task (PcNumberExists (revoked_by (rt_now sample_task) (rt_reason sample_task) sample_issued)),
             Revoking (sample_task\<lparr>rt_id := 23\<rparr>) (PcAnswered (Answer 500 (ErrorBody (store_error_text (Io ''ENOSPC'')))))])"
    "file_at (files_of st') (st_path (store_of ?st)) = Some (take 3 (as_bytes ''two records''))"
    using torn_write_is_installed[OF g p(3,1,2), of ?env "''two records''" "''ENOSPC''" 3] by auto
  moreover have "sd_to_string_pretty (he_serde ?env) (st_records (store_of st')) = Inr ''two records''" by simp
  moreover have "st_path (store_of ?st) = [''d'', ''certificates.json'']" by simp
  ultimately show ?thesis unfolding tk by metis
qed

end
