(* ===== verification/Race_Restart.thy ===== *)
theory Race_Restart
  imports Race_Disk System_Props
begin

text \<open>
  Concurrent requests and the whole life of the server: the program stops at any moment of any
  schedule, and is started again on the files it has left.
\<close>

section \<open>The files under a schedule\<close>

lemma persist_step_other:
  assumes "p \<notin> {st_path s, temp_path s}"
  shows "file_at (fst (persist_step sd ps s w)) p = file_at w p"
proof (cases ps)
  case (MakingDir t)
  obtain w' x where e: "persist_parent s w = (w', x)" by (cases "persist_parent s w")
  show ?thesis using file_at_parent[of s w] MakingDir by (cases x) (simp_all add: e)
next
  case (WritingTemp t)
  obtain w' x where e: "fs_write (temp_path s) (as_bytes t) w = (w', x)" by (cases "fs_write (temp_path s) (as_bytes t) w")
  show ?thesis using fs_write_other[of p "temp_path s" "as_bytes t" w] assms WritingTemp by (cases x) (simp_all add: e)
next
  case Renaming
  obtain w' x where e: "fs_rename (temp_path s) (st_path s) w = (w', x)" by (cases "fs_rename (temp_path s) (st_path s) w")
  show ?thesis using fs_rename_effect[where a = "temp_path s" and b = "st_path s" and w = w] assms Renaming
    by (cases x) (auto simp: e)
qed simp

lemma step_other_file:
  assumes "request_step env rq st = (st', rq')"
    and "p \<notin> {st_path (store_of st), temp_path (store_of st), crl_number_path (he_data_dir env), crl_der_path (he_data_dir env)}"
  shows "file_at (files_of st') p = file_at (files_of st) p"
proof (cases "writing rq")
  case (Some ps)
  obtain w x where e: "persist_step (he_serde env) ps (store_of st) (files_of st) = (w, x)"
    by (cases "persist_step (he_serde env) ps (store_of st) (files_of st)")
  then show ?thesis using step_writing[OF assms(1) Some e] persist_step_other[of p "store_of st" "he_serde env" ps "files_of st"] assms(2)
    by simp
next
  case None
  show ?thesis
  proof (cases rq)
    case (Revoking q pc)
    have wr: "fs_write f bs (files_of st) = (w, x) \<Longrightarrow> p \<noteq> f \<Longrightarrow> file_at w p = file_at (files_of st) p" for f bs w x
      using fs_write_other[of p f bs "files_of st"] by simp
    have ex: "fs_exists f (files_of st) = (w, x) \<Longrightarrow> file_at w = file_at (files_of st)" for f w x
      using file_at_exists[of f "files_of st"] by simp
    have rd: "fs_read_to_string f (files_of st) = (w, x) \<Longrightarrow> file_at w = file_at (files_of st)" for f w x
      using file_at_read[of f "files_of st"] by simp
    show ?thesis
    proof (cases pc)
      case PcStart
      then show ?thesis using assms(1) Revoking by (auto simp: revoke_start simp del: revoke_step.simps(1) split: option.splits)
    qed (use assms None Revoking in \<open>auto split: sum.splits prod.splits may_panic.splits dest: wr ex rd\<close>)
  next
    case (Issuing t pc)
    then show ?thesis using assms None by (cases pc)
      (auto simp: record_event_eq Let_def with_store_def split: sum.splits prod.splits dest!: prepared_effect)
  qed (use assms in auto)
qed

lemma serve_steps_other_file:
  assumes "(serve_step env)\<^sup>*\<^sup>* c c'"
    and "p \<notin> {st_path (store_of (fst c)), temp_path (store_of (fst c)), crl_number_path (he_data_dir env), crl_der_path (he_data_dir env)}"
  shows "file_at (files_of (fst c')) p = file_at (files_of (fst c)) p"
  using assms(1)
proof (induction rule: rtranclp_induct)
  case (step y z)
  obtain st ts where y: "y = (st, ts)" by (cases y)
  from step.hyps(2)[unfolded y] obtain i st' rq' where n: "request_step env (ts ! i) st = (st', rq')" and z: "fst z = st'"
    by (auto elim!: serve_stepE)
  have "st_path (store_of st) = st_path (store_of (fst c))" using serve_steps_path[OF step.hyps(1)] y by simp
  then show ?case using step_other_file[OF n] assms(2) step.IH y z by simp
qed simp

text \<open>An issuing request alone ends with the handler's answer.\<close>

lemma solo_issuing: "\<exists>pc'. snd (solo_run (request_step env) rq_finished n (st, Issuing t pc)) = Issuing t pc'"
proof (induction n arbitrary: st pc)
  case (Suc n)
  obtain st1 pc1 where "request_step env (Issuing t pc) st = (st1, Issuing t pc1)" by (cases "issue_step env t pc st") simp
  then show ?case using Suc.IH[of st1 pc1] by simp
qed simp

lemma issue_alone:
  assumes "arrive_issue env fr i body = Issuing t pc" and "handle_issue env fr i body st = (st', out)"
  shows "solo_end env (st, Issuing t pc) = (st', Issuing t (IcAnswered out))"
proof -
  obtain pc' where pc': "snd (solo_end env (st, Issuing t pc)) = Issuing t pc'" unfolding solo_end_def using solo_issuing by blast
  have e: "fst (solo_end env (st, Issuing t pc)) = st'" "answer_of (snd (solo_end env (st, Issuing t pc))) = Some out"
    using solo_issue[of env st fr i body] by (simp_all add: assms ends_as_def)
  have "pc' = IcAnswered out" using e(2) unfolding pc' by (cases pc') simp_all
  then show ?thesis using pc' e(1) by (metis prod.collapse)
qed

section \<open>The property\<close>

lemma recorded_later:
  assumes "recorded_on_disk env (store_file dir) w unused i P"
  shows "on_disk (he_serde env) dir i P unused w"
proof -
  obtain s t where s: "st_path s = store_file dir" "store_ok s" "has_record i P s" "\<forall>j \<in> unused. store_get s j = None"
    "sd_to_string_pretty (he_serde env) (st_records s) = Inr t" "file_at w (store_file dir) = Some (as_bytes t)"
    using assms unfolding recorded_on_disk_def by blast
  then show ?thesis by (auto simp: on_disk_def holds_def has_text_def intro: exI[of _ s])
qed



end
