(* ===== verification/Unit_Tests.thy ===== *)
theory Unit_Tests
  imports Http_Props
begin

text \<open>
  The unit tests of \<open>daemon-pki-api\<close>, translated over the model: a test is a \<open>bool\<close>, an \<open>expect\<close>
  that panics or an assertion that fails makes it False. What a test takes from outside (clock,
  UUIDs, keys, the temporary directory) is an argument. Each test is proved to pass for all
  of them, with any crate that behaves as documented: the model agrees with the code on what its
  authors check.
\<close>

section \<open>\<open>audit/mod.rs\<close>\<close>

definition audit_event_is_recorded :: "uuid \<Rightarrow> instant \<Rightarrow> uuid \<Rightarrow> bool" where
  "audit_event_is_recorded new_id now principal_id =
     (let event = with_resource ''certificate'' (with_principal principal_id ''test-client''
            (audit_event_new new_id now CertificateIssued Success ''certificate.issue''));
          store = audit_record event audit_store_new;
          events = audit_list store
      in audit_len store = 1 \<and> ae_event_type (events ! 0) = CertificateIssued \<and> ae_outcome (events ! 0) = Success \<and>
         ae_principal_id (events ! 0) = Some principal_id \<and> ae_principal_name (events ! 0) = Some ''test-client'')"

lemma audit_event_is_recorded_passes: "audit_event_is_recorded new_id now principal_id"
  by (simp add: audit_event_is_recorded_def audit_event_new_def with_principal_def with_resource_def audit_list_def
      audit_record_def audit_store_new_def audit_len_def)

section \<open>\<open>certificates.rs\<close>\<close>

definition test_record :: "uuid \<Rightarrow> instant \<Rightarrow> certificate_record" where
  "test_record new_id now =
     certificate_record_new new_id now ''01'' ''workload.example.internal'' [''workload.example.internal''] [] True True
       ''Daemon PKI Intermediate CA'' ''-----BEGIN CERTIFICATE-----'' None"

definition certificate_store_tracks_and_revokes_certificate :: "serde \<Rightarrow> path \<Rightarrow> uuid \<Rightarrow> instant \<Rightarrow> instant \<Rightarrow> fs \<Rightarrow> bool" where
  "certificate_store_tracks_and_revokes_certificate sd temp_dir new_id now later w =
     (let path = path_join temp_dir ''certificates.json'' in
      case store_open sd path w of (_, Inl _) \<Rightarrow> False
      | (w1, Inr store) \<Rightarrow>
     (case store_insert sd (test_record new_id now) store w1 of (_, Inl _) \<Rightarrow> False
      | ((store1, w2), Inr i) \<Rightarrow>
        store_len store1 = 1 \<and>
     (case store_get store1 i of None \<Rightarrow> False
      | Some stored \<Rightarrow>
        \<not> cr_revoked stored \<and>
     (case store_revoke sd later i ''operator requested revocation'' store1 w2 of (_, Inl _) \<Rightarrow> False
      | (_, Inr None) \<Rightarrow> False
      | ((_, w3), Inr (Some revoked)) \<Rightarrow>
        cr_revoked revoked \<and> cr_revoked_at revoked \<noteq> None \<and>
     (case store_open sd path w3 of (_, Inl _) \<Rightarrow> False
      | (_, Inr reopened) \<Rightarrow>
     (case store_get reopened i of None \<Rightarrow> False | Some persisted \<Rightarrow> cr_revoked persisted))))))"

definition removing_certificate_removes_it_from_inventory :: "serde \<Rightarrow> path \<Rightarrow> uuid \<Rightarrow> instant \<Rightarrow> fs \<Rightarrow> bool" where
  "removing_certificate_removes_it_from_inventory sd temp_dir new_id now w =
     (let path = path_join temp_dir ''certificates.json'' in
      case store_open sd path w of (_, Inl _) \<Rightarrow> False
      | (w1, Inr store) \<Rightarrow>
     (case store_insert sd (test_record new_id now) store w1 of (_, Inl _) \<Rightarrow> False
      | ((store1, w2), Inr i) \<Rightarrow>
        store_get store1 i \<noteq> None \<and>
     (case store_remove sd i store1 w2 of (_, Inl _) \<Rightarrow> False
      | ((store2, w3), Inr _) \<Rightarrow>
        store_get store2 i = None \<and>
     (case store_open sd path w3 of (_, Inl _) \<Rightarrow> False
      | (_, Inr reopened) \<Rightarrow> store_is_empty reopened))))"

text \<open>The file system a test finds: nothing at the path, and no call fails.\<close>

definition test_fs :: "path \<Rightarrow> fs \<Rightarrow> bool" where
  "test_fs temp_dir w = (fs_faults w = [] \<and> file_at w (path_join temp_dir ''certificates.json'') = None)"

definition serde_works :: "serde \<Rightarrow> bool" where
  "serde_works sd = (\<forall>m. serde_round_trips sd m)"

lemma persisted_opens:
  assumes "serde_works sd" and "fs_faults w = []"
  shows "\<exists>w' m. store_persist sd s w = (w', Inr ()) \<and> fs_faults w' = [] \<and>
    store_open sd (st_path s) w' = (w', Inr \<lparr>st_path = st_path s, st_records = m\<rparr>) \<and> hm_rehash (st_records s) m"
proof -
  have rt: "serde_round_trips sd (st_records s)" using assms(1) by (simp add: serde_works_def)
  then obtain t where t: "sd_to_string_pretty sd (st_records s) = Inr t"
    by (auto simp: serde_round_trips_def split: sum.splits)
  obtain w' where w': "store_persist sd s w = (w', Inr ())" "fs_faults w' = []" using persist_free[OF t assms(2)] by blast
  then have "file_at w' (st_path s) = Some (as_bytes t)" using persist_ok[of sd s w w'] t by auto
  then show ?thesis using open_persisted[OF rt t _ w'(2)] w' by blast
qed

lemma test_opens:
  assumes "test_fs temp_dir w"
  shows "store_open sd (path_join temp_dir ''certificates.json'') w =
    (w, Inr \<lparr>st_path = path_join temp_dir ''certificates.json'', st_records = hm_empty\<rparr>)"
  using assms by (simp add: test_fs_def store_open_def fs_exists_def next_fault_free file_at_def hm_contains_def)

lemma test_record_simps [simp]: "cr_id (test_record i now) = i" "\<not> cr_revoked (test_record i now)"
  by (simp_all add: test_record_def certificate_record_new_def)

lemma certificate_store_tracks_and_revokes_certificate_passes:
  assumes "serde_works sd" and "test_fs temp_dir w"
  shows "certificate_store_tracks_and_revokes_certificate sd temp_dir new_id now later w"
proof -
  let ?p = "path_join temp_dir ''certificates.json''" and ?r = "test_record new_id now"
  let ?s1 = "\<lparr>st_path = ?p, st_records = hm_insert new_id ?r hm_empty\<rparr>"
  let ?r2 = "revoked_by later ''operator requested revocation'' ?r"
  let ?s2 = "?s1\<lparr>st_records := hm_insert new_id ?r2 (st_records ?s1)\<rparr>"
  have f0: "fs_faults w = []" using assms(2) by (simp add: test_fs_def)
  obtain w1 where w1: "store_persist sd ?s1 w = (w1, Inr ())" "fs_faults w1 = []"
    using persisted_opens[OF assms(1) f0, of ?s1] by blast
  obtain w2 m where w2: "store_persist sd ?s2 w1 = (w2, Inr ())"
    "store_open sd ?p w2 = (w2, Inr \<lparr>st_path = ?p, st_records = m\<rparr>)" "hm_rehash (st_records ?s2) m"
    using persisted_opens[OF assms(1) w1(2), of ?s2] by auto
  have "hm_ok (st_records ?s2)" by simp
  then have g: "hm_get m new_id = Some ?r2" using hm_rehash_get[OF w2(3)] by simp
  have i: "store_insert sd ?r \<lparr>st_path = ?p, st_records = hm_empty\<rparr> w = ((?s1, w1), Inr new_id)"
    using w1 by (simp add: store_insert_def)
  have v: "store_revoke sd later new_id ''operator requested revocation'' ?s1 w1 = ((?s2, w2), Inr (Some ?r2))"
    using w2(1) by (simp add: store_revoke_cases store_get_def)
  have n: "store_len ?s1 = 1" "cr_revoked_at ?r2 \<noteq> None"
    by (simp_all add: store_len_def hm_len_def hm_insert_def hm_empty_def revoked_by_def)
  then show ?thesis
    unfolding certificate_store_tracks_and_revokes_certificate_def Let_def test_opens[OF assms(2)]
    using w2(2) g by (simp add: i v store_get_def)
qed

lemma removing_certificate_removes_it_from_inventory_passes:
  assumes "serde_works sd" and "test_fs temp_dir w"
  shows "removing_certificate_removes_it_from_inventory sd temp_dir new_id now w"
proof -
  let ?p = "path_join temp_dir ''certificates.json''" and ?r = "test_record new_id now"
  let ?s1 = "\<lparr>st_path = ?p, st_records = hm_insert new_id ?r hm_empty\<rparr>"
  let ?s2 = "?s1\<lparr>st_records := hm_remove new_id (st_records ?s1)\<rparr>"
  have f0: "fs_faults w = []" using assms(2) by (simp add: test_fs_def)
  obtain w1 where w1: "store_persist sd ?s1 w = (w1, Inr ())" "fs_faults w1 = []"
    using persisted_opens[OF assms(1) f0, of ?s1] by blast
  obtain w2 m where w2: "store_persist sd ?s2 w1 = (w2, Inr ())"
    "store_open sd ?p w2 = (w2, Inr \<lparr>st_path = ?p, st_records = m\<rparr>)" "hm_rehash (st_records ?s2) m"
    using persisted_opens[OF assms(1) w1(2), of ?s2] by auto
  have e: "st_records ?s2 = hm_empty" by (simp add: hm_remove_def hm_insert_def hm_empty_def)
  have m: "m = hm_empty" using w2(3) unfolding e by (simp add: hm_rehash_def hm_empty_def)
  have i: "store_insert sd ?r \<lparr>st_path = ?p, st_records = hm_empty\<rparr> w = ((?s1, w1), Inr new_id)"
    using w1 by (simp add: store_insert_def)
  have v: "store_remove sd new_id ?s1 w1 = ((?s2, w2), Inr (Some ?r))"
    using w2(1) by (simp add: store_remove_def Let_def)
  have n: "store_is_empty \<lparr>st_path = ?p, st_records = hm_empty\<rparr>"
    by (simp add: store_is_empty_def store_len_def hm_len_def hm_empty_def)
  show ?thesis
    unfolding removing_certificate_removes_it_from_inventory_def Let_def test_opens[OF assms(2)]
    using w2(2) n by (simp add: i v m store_get_def)
qed

section \<open>\<open>http.rs\<close>\<close>

definition test_identity :: "uuid \<Rightarrow> string \<Rightarrow> string \<Rightarrow> mtls_identity" where
  "test_identity new_id name fingerprint =
     \<lparr>mt_id = new_id, mt_name = name, mt_serial_number = ''test-serial'', mt_fingerprint_sha256 = fingerprint\<rparr>"

definition authorized_identity_receives_certificate_issue_role :: "uuid \<Rightarrow> bool" where
  "authorized_identity_receives_certificate_issue_role new_id =
     (let policy = allow_certificate_issuance ''authorized-fingerprint'' authorization_new;
          identity = test_identity new_id ''authorized-client.internal'' ''authorized-fingerprint''
      in can_issue_certificates policy identity \<and>
         roles_for policy identity = [''certificate:issue'', ''certificate:read'', ''certificate:revoke''])"

definition unauthorized_identity_receives_no_roles :: "uuid \<Rightarrow> bool" where
  "unauthorized_identity_receives_no_roles new_id =
     (let policy = allow_certificate_issuance ''authorized-fingerprint'' authorization_new;
          identity = test_identity new_id ''unauthorized-client.internal'' ''unauthorized-fingerprint''
      in \<not> can_issue_certificates policy identity \<and> roles_for policy identity = [])"

definition authorization_is_based_on_certificate_fingerprint :: "uuid \<Rightarrow> uuid \<Rightarrow> bool" where
  "authorization_is_based_on_certificate_fingerprint id1 id2 =
     (let policy = allow_certificate_issuance ''authorized-fingerprint'' authorization_new;
          matching_identity = test_identity id1 ''authorized-client.internal'' ''authorized-fingerprint'';
          same_name_different_certificate = test_identity id2 ''authorized-client.internal'' ''different-fingerprint''
      in can_issue_certificates policy matching_identity \<and>
         \<not> can_issue_certificates policy same_name_different_certificate)"

lemma authorization_tests_pass:
  "authorized_identity_receives_certificate_issue_role new_id"
  "unauthorized_identity_receives_no_roles new_id"
  "authorization_is_based_on_certificate_fingerprint id1 id2"
  by (simp_all add: authorized_identity_receives_certificate_issue_role_def unauthorized_identity_receives_no_roles_def
      authorization_is_based_on_certificate_fingerprint_def test_identity_def allow_certificate_issuance_def
      authorization_new_def can_issue_certificates_def roles_for_def)

section \<open>\<open>issuance.rs\<close>\<close>

definition test_principal :: "uuid \<Rightarrow> authenticated_principal" where
  "test_principal new_id = \<lparr>pr_id = new_id, pr_name = ''test-client'', pr_roles = [''certificate:issue'']\<rparr>"

text \<open>\<open>IssuanceService::new\<close>; the file system is the process's.\<close>

definition service_new :: "fs \<Rightarrow> service_state" where
  "service_new w = \<lparr>sv_audit = audit_store_new, sv_store = store_default, sv_fs = w\<rparr>"

text \<open>Both authorities, with the keys the two calls of \<open>KeyPair::generate\<close> return.\<close>

definition test_intermediate :: "('key, 'iss) rcgen \<Rightarrow> 'key \<Rightarrow> 'key \<Rightarrow> 'iss intermediate_ca option" where
  "test_intermediate rc k1 k2 =
     (case root_generate (rc\<lparr>rc_generate := Inr k1\<rparr>) ''Daemon PKI Test Root'' of Inl _ \<Rightarrow> None
      | Inr root \<Rightarrow>
     (case intermediate_generate (rc\<lparr>rc_generate := Inr k2\<rparr>) root ''Daemon PKI Test Intermediate'' of Inl _ \<Rightarrow> None
      | Inr intermediate \<Rightarrow> Some intermediate))"

definition unauthorized_request_is_audited ::
  "('key, 'iss) rcgen \<Rightarrow> 'c der_reader \<Rightarrow> serde \<Rightarrow> 'key \<Rightarrow> 'key \<Rightarrow> uuid \<Rightarrow> issue_fresh \<Rightarrow> fs \<Rightarrow> bool" where
  "unauthorized_request_is_audited rc dr sd k1 k2 new_id fr w =
     (let principal = \<lparr>pr_id = new_id, pr_name = ''unauthorized-client'', pr_roles = []\<rparr> in
      case test_intermediate rc k1 k2 of None \<Rightarrow> False
      | Some intermediate \<Rightarrow>
     (let request = \<lparr>iq_common_name = ''unauthorized.example.internal'', iq_dns_names = [''unauthorized.example.internal''],
            iq_ip_addresses = [], iq_client_auth = False, iq_server_auth = True\<rparr>;
          (service, result) = service_issue rc dr sd policy_default fr principal intermediate request (service_new w);
          events = audit_list (sv_audit service)
      in result = Inl Unauthorized \<and> length events = 1 \<and> ae_event_type (events ! 0) = AuthorizationDenied \<and>
         ae_outcome (events ! 0) = Denied \<and> ae_principal_id (events ! 0) = Some (pr_id principal)))"

definition invalid_request_is_audited ::
  "('key, 'iss) rcgen \<Rightarrow> 'c der_reader \<Rightarrow> serde \<Rightarrow> 'key \<Rightarrow> 'key \<Rightarrow> uuid \<Rightarrow> issue_fresh \<Rightarrow> fs \<Rightarrow> bool" where
  "invalid_request_is_audited rc dr sd k1 k2 new_id fr w =
     (let principal = test_principal new_id in
      case test_intermediate rc k1 k2 of None \<Rightarrow> False
      | Some intermediate \<Rightarrow>
     (let request = \<lparr>iq_common_name = ''invalid.example.internal'', iq_dns_names = [], iq_ip_addresses = [],
            iq_client_auth = False, iq_server_auth = False\<rparr>;
          (service, result) = service_issue rc dr sd policy_default fr principal intermediate request (service_new w);
          events = audit_list (sv_audit service)
      in (case result of Inl (InvalidRequest _) \<Rightarrow> True | _ \<Rightarrow> False) \<and> length events = 1 \<and>
         ae_event_type (events ! 0) = PolicyDenied \<and> ae_outcome (events ! 0) = Denied))"

lemma test_authorities:
  assumes "\<forall>ps k. is_ok (rc_self_signed rc ps k)" and "\<forall>ps k i. is_ok (rc_signed_by rc ps k i)"
  shows "\<exists>ca. test_intermediate rc k1 k2 = Some ca"
proof -
  have t: "trim ''Daemon PKI Test Root'' \<noteq> []" "trim ''Daemon PKI Test Intermediate'' \<noteq> []"
    by (subst trim_plain_ends; simp add: plain_char_def)+
  show ?thesis using assms t
    by (auto simp: test_intermediate_def root_generate_def intermediate_generate_def is_ok_def Let_def split: sum.splits)
qed

lemma issuance_tests_pass:
  assumes "\<forall>ps k. is_ok (rc_self_signed rc ps k)" and "\<forall>ps k i. is_ok (rc_signed_by rc ps k i)"
  shows "unauthorized_request_is_audited rc dr sd k1 k2 new_id fr w" and "invalid_request_is_audited rc dr sd k1 k2 new_id fr w"
proof -
  obtain ca where ca: "test_intermediate rc k1 k2 = Some ca" using test_authorities[OF assms] by blast
  show "unauthorized_request_is_audited rc dr sd k1 k2 new_id fr w"
    by (simp add: unauthorized_request_is_audited_def ca issue_unauthorized with_event_def issue_event_def audit_record_def
        audit_list_def service_new_def audit_store_new_def Let_def)
  have "trim ''invalid.example.internal'' \<noteq> []" by (subst trim_plain_ends; simp add: plain_char_def)
  then show "invalid_request_is_audited rc dr sd k1 k2 new_id fr w"
    by (simp add: invalid_request_is_audited_def ca issue_invalid service_validate_request_def policy_default_def
        test_principal_def with_event_def issue_event_def audit_record_def audit_list_def service_new_def
        audit_store_new_def Let_def)
qed

section \<open>\<open>tls/identity.rs\<close>\<close>

text \<open>The certificate of these tests, self-signed with a fresh key; a root that is not used is made beside it.\<close>

definition test_certificate :: "('key, 'iss) rcgen \<Rightarrow> 'key \<Rightarrow> 'key \<Rightarrow> bytes option" where
  "test_certificate rc key root_key =
     (if \<not> rc_dns_ok rc ''identity-test.internal'' then None
      else
     (let params = (rc_default rc)\<lparr>cp_subject_alt_names := [DnsName ''identity-test.internal'']\<rparr>;
          params1 = params\<lparr>cp_distinguished_name := [(CommonName, ''identity-test.internal'')]\<rparr>;
          params2 = params1\<lparr>cp_is_ca := Ca Unconstrained\<rparr>
      in case root_generate (rc\<lparr>rc_generate := Inr root_key\<rparr>) ''Daemon PKI Identity Test Root'' of Inl _ \<Rightarrow> None
         | Inr _ \<Rightarrow> (case rc_self_signed rc params2 key of Inl _ \<Rightarrow> None | Inr certificate \<Rightarrow> Some (crt_der certificate))))"

definition certificate_identity_is_stable :: "('key, 'iss) rcgen \<Rightarrow> 'c client_reader \<Rightarrow> 'key \<Rightarrow> 'key \<Rightarrow> bool" where
  "certificate_identity_is_stable rc tr key root_key =
     (case test_certificate rc key root_key of None \<Rightarrow> False
      | Some certificate \<Rightarrow>
     (case (identity_from_client_certificate tr certificate, identity_from_client_certificate tr certificate) of
        (Some x, Some y) \<Rightarrow>
          mt_id x = mt_id y \<and> mt_fingerprint_sha256 x = mt_fingerprint_sha256 y \<and> mt_name x = mt_name y \<and>
          mt_serial_number x = mt_serial_number y
      | _ \<Rightarrow> False))"

definition different_certificates_have_different_identities ::
  "('key, 'iss) rcgen \<Rightarrow> 'c client_reader \<Rightarrow> 'key \<Rightarrow> 'key \<Rightarrow> 'key \<Rightarrow> 'key \<Rightarrow> bool" where
  "different_certificates_have_different_identities rc tr key1 root_key1 key2 root_key2 =
     (case (test_certificate rc key1 root_key1, test_certificate rc key2 root_key2) of
        (Some first_certificate, Some second_certificate) \<Rightarrow>
          (case (identity_from_client_certificate tr first_certificate, identity_from_client_certificate tr second_certificate) of
             (Some x, Some y) \<Rightarrow> mt_id x \<noteq> mt_id y \<and> mt_fingerprint_sha256 x \<noteq> mt_fingerprint_sha256 y
           | _ \<Rightarrow> False)
      | _ \<Rightarrow> False)"

text \<open>
  What the tests rely on: the certificate is signed and its DER can be read. For the second, the
  two digests have their 32 bytes and differ in the first sixteen, the ones the id is made of.
\<close>

lemma test_certificate_made:
  assumes "\<forall>ps k. is_ok (rc_self_signed rc ps k)" and "rc_dns_ok rc ''identity-test.internal''"
  shows "\<exists>der. test_certificate rc key root_key = Some der"
proof -
  have "trim ''Daemon PKI Identity Test Root'' \<noteq> []" by (subst trim_plain_ends; simp add: plain_char_def)
  then show ?thesis using assms
    by (auto simp: test_certificate_def root_generate_def is_ok_def Let_def split: sum.splits)
qed

lemma certificate_identity_is_stable_passes:
  assumes "\<forall>ps k. is_ok (rc_self_signed rc ps k)" and "rc_dns_ok rc ''identity-test.internal''"
    and "\<forall>der. test_certificate rc key root_key = Some der \<longrightarrow> tr_from_der tr der \<noteq> None"
  shows "certificate_identity_is_stable rc tr key root_key"
  using test_certificate_made[OF assms(1,2), of key root_key] assms(3)
  by (auto simp: certificate_identity_is_stable_def identity_from_client_certificate_def Let_def)

lemma different_certificates_have_different_identities_passes:
  assumes "test_certificate rc key1 root_key1 = Some a" and "test_certificate rc key2 root_key2 = Some b"
    and "tr_from_der tr a \<noteq> None" and "tr_from_der tr b \<noteq> None"
    and "length (tr_sha256 tr a) = 32" and "length (tr_sha256 tr b) = 32" and "take 16 (tr_sha256 tr a) \<noteq> take 16 (tr_sha256 tr b)"
  shows "different_certificates_have_different_identities rc tr key1 root_key1 key2 root_key2"
proof -
  have "uuid_from_bytes (take 16 (tr_sha256 tr a)) \<noteq> uuid_from_bytes (take 16 (tr_sha256 tr b))"
    using uuid_from_bytes_inj[of "take 16 (tr_sha256 tr a)" "take 16 (tr_sha256 tr b)"] assms(5-7) by auto
  moreover have "hex_of_bytes (tr_sha256 tr a) \<noteq> hex_of_bytes (tr_sha256 tr b)"
    using hex_of_bytes_inj[of "tr_sha256 tr a" "tr_sha256 tr b"] assms(7) by auto
  ultimately show ?thesis using assms(1-4)
    by (auto simp: different_certificates_have_different_identities_def identity_from_client_certificate_def Let_def)
qed

end
