(* ===== verification/Trust.thy ===== *)
theory Trust
  imports Prelude
begin

text \<open>
  \<open>TrustStore\<close> of \<open>daemon-pki-core/src/validation/trust.rs\<close>: an ordered list of trust
  anchors. The order matters, since the validators take the first enabled anchor that matches.
\<close>

section \<open>Anchors\<close>

record trust_anchor =
  ta_id :: uuid
  ta_name :: string
  ta_certificate_der :: bytes
  ta_enabled :: bool

definition trust_anchor_new :: "uuid \<Rightarrow> string \<Rightarrow> bytes \<Rightarrow> trust_anchor" where
  "trust_anchor_new new_id name der =
     \<lparr>ta_id = new_id, ta_name = name, ta_certificate_der = der, ta_enabled = True\<rparr>"

record trust_store =
  anchors :: "trust_anchor list"

datatype trust_store_error = AnchorNotFound uuid | AnchorExists uuid

definition trust_store_new :: trust_store where
  "trust_store_new = \<lparr>anchors = []\<rparr>"

definition trust_add :: "trust_store \<Rightarrow> trust_anchor \<Rightarrow> trust_store \<times> (trust_store_error + uuid)" where
  "trust_add ts a =
     (if list_ex (\<lambda>x. ta_id x = ta_id a) (anchors ts) then (ts, Inl (AnchorExists (ta_id a)))
      else (let i = ta_id a in (ts\<lparr>anchors := anchors ts @ [a]\<rparr>, Inr i)))"

definition trust_remove ::
  "trust_store \<Rightarrow> uuid \<Rightarrow> trust_store \<times> (trust_store_error + trust_anchor)" where
  "trust_remove ts i =
     (case ok_or (position (\<lambda>a. ta_id a = i) (anchors ts)) (AnchorNotFound i) of Inl e \<Rightarrow> (ts, Inl e)
      | Inr index \<Rightarrow>
          (case vec_remove index (anchors ts) of (rest, a) \<Rightarrow> (ts\<lparr>anchors := rest\<rparr>, Inr a)))"

definition trust_get :: "trust_store \<Rightarrow> uuid \<Rightarrow> trust_store_error + trust_anchor" where
  "trust_get ts i = ok_or (find (\<lambda>a. ta_id a = i) (anchors ts)) (AnchorNotFound i)"

definition trust_enabled :: "trust_store \<Rightarrow> trust_anchor list" where
  "trust_enabled ts = filter ta_enabled (anchors ts)"

definition trust_len :: "trust_store \<Rightarrow> nat" where
  "trust_len ts = length (anchors ts)"

definition trust_is_empty :: "trust_store \<Rightarrow> bool" where
  "trust_is_empty ts = (anchors ts = [])"

section \<open>Lemmas\<close>

definition trust_ok :: "trust_store \<Rightarrow> bool" where
  "trust_ok ts = distinct (map ta_id (anchors ts))"

inductive trust_reachable :: "trust_store \<Rightarrow> bool" where
  tr_new: "trust_reachable trust_store_new"
| tr_add: "trust_reachable ts \<Longrightarrow> trust_reachable (fst (trust_add ts a))"
| tr_remove: "trust_reachable ts \<Longrightarrow> trust_reachable (fst (trust_remove ts i))"

lemma trust_remove_cases:
  assumes "trust_ok ts"
  shows "trust_remove ts i =
    (case find (\<lambda>a. ta_id a = i) (anchors ts) of None \<Rightarrow> (ts, Inl (AnchorNotFound i))
     | Some a \<Rightarrow> (ts\<lparr>anchors := filter (\<lambda>a. ta_id a \<noteq> i) (anchors ts)\<rparr>, Inr a))"
proof (cases "position (\<lambda>a. ta_id a = i) (anchors ts)")
  case None
  then show ?thesis by (simp add: trust_remove_def position_find)
next
  case (Some n)
  have "vec_remove n (anchors ts) = (filter (\<lambda>a. ta_id a \<noteq> i) (anchors ts), anchors ts ! n)"
    using position_remove_distinct[OF assms[unfolded trust_ok_def] Some] by (simp add: vec_remove_def)
  with Some show ?thesis by (simp add: trust_remove_def position_find)
qed

lemma trust_reachable_ok: "trust_reachable ts \<Longrightarrow> trust_ok ts"
proof (induction rule: trust_reachable.induct)
  case tr_new
  then show ?case by (simp add: trust_ok_def trust_store_new_def)
next
  case (tr_add ts a)
  then show ?case by (auto simp: trust_ok_def trust_add_def Let_def list_ex_iff)
next
  case (tr_remove ts i)
  then show ?case
    by (auto simp: trust_remove_cases trust_ok_def distinct_map_filter split: option.split)
qed

text \<open>
  The trust store keys its anchors by id in every reachable state. Ids are distinct; an added
  anchor is found and appended after the others; removing an id returns its anchor, after which
  the id is unknown, every other lookup is as before and the order of the rest is kept; adding a
  present id or removing an absent one is refused and changes nothing.
\<close>

theorem trust_store_laws:
  assumes "trust_reachable ts"
  shows "distinct (map ta_id (anchors ts)) \<and>
    (trust_get ts (ta_id a) = Inl (AnchorNotFound (ta_id a)) \<longleftrightarrow>
       trust_add ts a = (\<lparr>anchors = anchors ts @ [a]\<rparr>, Inr (ta_id a))) \<and>
    (trust_get ts (ta_id a) = Inr b \<longrightarrow> trust_add ts a = (ts, Inl (AnchorExists (ta_id a)))) \<and>
    (trust_get ts i = Inr b \<longrightarrow>
       trust_remove ts i = (\<lparr>anchors = filter (\<lambda>c. ta_id c \<noteq> i) (anchors ts)\<rparr>, Inr b)) \<and>
    (trust_get ts i = Inl e \<longrightarrow> trust_remove ts i = (ts, Inl (AnchorNotFound i))) \<and>
    trust_get (fst (trust_remove ts i)) j = (if j = i then Inl (AnchorNotFound i) else trust_get ts j)"
proof -
  note ok = trust_reachable_ok[OF assms]
  have ts: "ts\<lparr>anchors := xs\<rparr> = \<lparr>anchors = xs\<rparr>" for xs by (cases ts) simp
  have fnd: "find (\<lambda>c. ta_id c = k) xs = None \<longleftrightarrow> \<not> list_ex (\<lambda>c. ta_id c = k) xs" for k and xs :: "trust_anchor list"
    by (auto simp: find_None_iff list_ex_iff)
  have add: "trust_get ts (ta_id a) = Inl (AnchorNotFound (ta_id a)) \<longleftrightarrow>
       trust_add ts a = (\<lparr>anchors = anchors ts @ [a]\<rparr>, Inr (ta_id a))"
    "trust_get ts (ta_id a) = Inr b \<longrightarrow> trust_add ts a = (ts, Inl (AnchorExists (ta_id a)))"
    using fnd[of "ta_id a" "anchors ts"] by (auto simp: trust_get_def trust_add_def Let_def ts result_simps)
  have filt: "find (\<lambda>c. ta_id c = j) (filter (\<lambda>c. ta_id c \<noteq> i) xs) =
      (if j = i then None else find (\<lambda>c. ta_id c = j) xs)" for xs :: "trust_anchor list"
    by (induction xs) auto
  have rem: "trust_get ts i = Inr b \<longrightarrow>
       trust_remove ts i = (\<lparr>anchors = filter (\<lambda>c. ta_id c \<noteq> i) (anchors ts)\<rparr>, Inr b)"
    "trust_get ts i = Inl e \<longrightarrow> trust_remove ts i = (ts, Inl (AnchorNotFound i))"
    by (auto simp: trust_get_def trust_remove_cases[OF ok] ts result_simps)
  have "trust_get (fst (trust_remove ts i)) j =
      (if j = i then Inl (AnchorNotFound i) else trust_get ts j)"
    using filt[of "anchors ts"]
    by (auto simp: trust_get_def trust_remove_cases[OF ok] split: option.split)
  with add rem ok show ?thesis by (simp add: trust_ok_def)
qed

definition sample_anchor :: "uuid \<Rightarrow> bytes \<Rightarrow> trust_anchor" where
  "sample_anchor i d = trust_anchor_new i ''root'' d"

definition sample_trust :: trust_store where
  "sample_trust = fst (trust_add trust_store_new (sample_anchor 1 [3]))"

lemma sample_trust_reachable: "trust_reachable sample_trust"
  unfolding sample_trust_def by (intro tr_add tr_new)

lemma sample_trust_anchors: "anchors sample_trust = [sample_anchor 1 [3]]"
  by (simp add: sample_trust_def trust_add_def trust_store_new_def Let_def)

theorem trust_store_laws_witness:
  "trust_get (fst (trust_remove sample_trust 1)) 1 = Inl (AnchorNotFound 1)"
  using trust_store_laws[OF sample_trust_reachable, of _ _ 1 _ 1] by simp

end
