(* ===== verification/Chain.thy ===== *)
theory Chain
  imports Trust Lifecycle
begin

text \<open>
  Certificate validation: \<open>validation/certificate.rs\<close> and \<open>validation/chain.rs\<close> of
  \<open>daemon-pki-core\<close>. The \<open>x509_parser\<close> crate is the record \<open>x509\<close>, an argument of the
  chain validator: parsing, the fields of a parsed certificate and the verification of a
  signature under a public key (\<open>None\<close>: under its own). \<open>now\<close> is the one clock reading of
  each validator.
\<close>

section \<open>Validity and identity requirements\<close>

datatype certificate_validation_error =
  CertNotYetValid | CertExpired | CertNotACa | CertMissingKeyUsage | CertMissingExtendedKeyUsage
| CertIdentityMismatch | CertMissingIdentity | CertRevoked

record identity_requirement =
  ir_dns_name :: "string option"
  ir_ip_address :: "ip_addr option"
  ir_require_server_auth :: bool
  ir_require_client_auth :: bool

definition requirement_dns :: "string \<Rightarrow> identity_requirement" where
  "requirement_dns n = \<lparr>ir_dns_name = Some n, ir_ip_address = None, ir_require_server_auth = True,
     ir_require_client_auth = False\<rparr>"

definition requirement_ip :: "ip_addr \<Rightarrow> identity_requirement" where
  "requirement_ip a = \<lparr>ir_dns_name = None, ir_ip_address = Some a, ir_require_server_auth = True,
     ir_require_client_auth = False\<rparr>"

record certificate_validity =
  cv_not_before :: instant
  cv_not_after :: instant

definition validity_validate ::
  "certificate_validity \<Rightarrow> instant \<Rightarrow> certificate_validation_error + unit" where
  "validity_validate v now =
     (if now < cv_not_before v then Inl CertNotYetValid
      else if now > cv_not_after v then Inl CertExpired
      else Inr ())"

section \<open>The metadata validator\<close>

record certificate_validation_input =
  vi_der :: bytes
  vi_validity :: certificate_validity
  vi_is_ca :: bool
  vi_digital_signature :: bool
  vi_key_cert_sign :: bool
  vi_server_auth :: bool
  vi_client_auth :: bool
  vi_dns_names :: "string list"
  vi_ip_addresses :: "ip_addr list"
  vi_issuer :: string
  vi_subject :: string

record validation_result =
  vr_trusted :: bool
  vr_chain_depth :: nat
  vr_trust_anchor_id :: "uuid option"

datatype chain_validation_error =
  ChainCertificate certificate_validation_error | NoTrustAnchor | EmptyChain | InvalidIssuer
| InvalidCaUsage | LeafIsCa | ChainIdentityMismatch | ChainRevoked | InvalidCertificate
| InvalidSignature | UnsupportedSignatureAlgorithm

definition validate_identity ::
  "certificate_validation_input \<Rightarrow> identity_requirement \<Rightarrow> chain_validation_error + unit" where
  "validate_identity c rq =
     (if (case ir_dns_name rq of None \<Rightarrow> False
          | Some n \<Rightarrow> \<not> list_ex (\<lambda>candidate. eq_ignore_ascii_case candidate n) (vi_dns_names c))
      then Inl ChainIdentityMismatch
      else if (case ir_ip_address rq of None \<Rightarrow> False | Some a \<Rightarrow> a \<notin> set (vi_ip_addresses c))
      then Inl ChainIdentityMismatch
      else if ir_require_server_auth rq \<and> \<not> vi_server_auth c
      then Inl (ChainCertificate CertMissingExtendedKeyUsage)
      else if ir_require_client_auth rq \<and> \<not> vi_client_auth c
      then Inl (ChainCertificate CertMissingExtendedKeyUsage)
      else Inr ())"

definition validate_leaf ::
  "instant \<Rightarrow> certificate_validation_input \<Rightarrow> trust_store \<Rightarrow> identity_requirement option
   \<Rightarrow> chain_validation_error + validation_result" where
  "validate_leaf now c ts ident =
     and_then (map_err ChainCertificate (validity_validate (vi_validity c) now)) (\<lambda>_.
       if vi_is_ca c then Inl LeafIsCa
       else if \<not> vi_digital_signature c then Inl (ChainCertificate CertMissingKeyUsage)
       else and_then (case ident of None \<Rightarrow> Inr () | Some rq \<Rightarrow> validate_identity c rq) (\<lambda>_.
         case trust_enabled ts of [] \<Rightarrow> Inl NoTrustAnchor
         | anchor # _ \<Rightarrow>
             Inr \<lparr>vr_trusted = True, vr_chain_depth = 1, vr_trust_anchor_id = Some (ta_id anchor)\<rparr>))"

definition validate_ca ::
  "instant \<Rightarrow> certificate_validation_input \<Rightarrow> chain_validation_error + unit" where
  "validate_ca now c =
     and_then (map_err ChainCertificate (validity_validate (vi_validity c) now)) (\<lambda>_.
       if \<not> vi_is_ca c then Inl (ChainCertificate CertNotACa)
       else if \<not> vi_key_cert_sign c then Inl InvalidCaUsage
       else Inr ())"

section \<open>The chain validator\<close>

record key_usage =
  ku_digital_signature :: bool
  ku_key_cert_sign :: bool

text \<open>\<open>x5_key_usage\<close> is a \<open>Result\<close> of an \<open>Option\<close>: \<open>Inl\<close> where the extension is invalid.\<close>

record ('c, 'n, 'k) x509 =
  x5_parse :: "bytes \<Rightarrow> 'c option"
  x5_issuer :: "'c \<Rightarrow> 'n"
  x5_subject :: "'c \<Rightarrow> 'n"
  x5_is_ca :: "'c \<Rightarrow> bool"
  x5_key_usage :: "'c \<Rightarrow> unit + key_usage option"
  x5_public_key :: "'c \<Rightarrow> 'k"
  x5_verify_signature :: "'c \<Rightarrow> 'k option \<Rightarrow> bool"
  x5_not_before :: "'c \<Rightarrow> instant"
  x5_not_after :: "'c \<Rightarrow> instant"

definition x5_validity :: "('c, 'n, 'k) x509 \<Rightarrow> 'c \<Rightarrow> certificate_validity" where
  "x5_validity x c = \<lparr>cv_not_before = x5_not_before x c, cv_not_after = x5_not_after x c\<rparr>"

definition usage_has :: "(key_usage \<Rightarrow> bool) \<Rightarrow> key_usage option \<Rightarrow> bool" where
  "usage_has f u = (case u of None \<Rightarrow> False | Some k \<Rightarrow> f k)"

definition validate_der_chain ::
  "('c, 'n, 'k) x509 \<Rightarrow> instant \<Rightarrow> bytes \<Rightarrow> bytes \<Rightarrow> bytes \<Rightarrow> trust_store
   \<Rightarrow> chain_validation_error + validation_result" where
  "validate_der_chain x now leaf_der intermediate_der root_der ts =
     (if leaf_der = [] \<or> intermediate_der = [] \<or> root_der = [] then Inl EmptyChain else
      and_then (ok_or (x5_parse x leaf_der) InvalidCertificate) (\<lambda>leaf.
      and_then (ok_or (x5_parse x intermediate_der) InvalidCertificate) (\<lambda>intermediate.
      and_then (ok_or (x5_parse x root_der) InvalidCertificate) (\<lambda>root.
      and_then (ok_or (find (\<lambda>a. ta_certificate_der a = root_der) (trust_enabled ts)) NoTrustAnchor) (\<lambda>anchor.
      if x5_issuer x leaf \<noteq> x5_subject x intermediate then Inl InvalidIssuer
      else if x5_issuer x intermediate \<noteq> x5_subject x root then Inl InvalidIssuer
      else if \<not> x5_is_ca x intermediate then Inl (ChainCertificate CertNotACa)
      else if \<not> x5_is_ca x root then Inl (ChainCertificate CertNotACa)
      else
      and_then (map_err (\<lambda>_. InvalidCertificate) (x5_key_usage x intermediate)) (\<lambda>ku_int.
      if \<not> usage_has ku_key_cert_sign ku_int then Inl InvalidCaUsage else
      and_then (map_err (\<lambda>_. InvalidCertificate) (x5_key_usage x root)) (\<lambda>ku_root.
      if \<not> usage_has ku_key_cert_sign ku_root then Inl InvalidCaUsage
      else if \<not> x5_verify_signature x leaf (Some (x5_public_key x intermediate)) then Inl InvalidSignature
      else if \<not> x5_verify_signature x intermediate (Some (x5_public_key x root)) then Inl InvalidSignature
      else if \<not> x5_verify_signature x root None then Inl InvalidSignature
      else
      and_then (map_err ChainCertificate (validity_validate (x5_validity x leaf) now)) (\<lambda>_.
      and_then (map_err ChainCertificate (validity_validate (x5_validity x intermediate) now)) (\<lambda>_.
      and_then (map_err ChainCertificate (validity_validate (x5_validity x root) now)) (\<lambda>_.
      if x5_is_ca x leaf then Inl LeafIsCa else
      and_then (map_err (\<lambda>_. InvalidCertificate) (x5_key_usage x leaf)) (\<lambda>ku_leaf.
      if \<not> usage_has ku_digital_signature ku_leaf then Inl (ChainCertificate CertMissingKeyUsage)
      else Inr \<lparr>vr_trusted = True, vr_chain_depth = 3, vr_trust_anchor_id = Some (ta_id anchor)\<rparr>)))))))))))"

definition validate_der_chain_with_revocation ::
  "('c, 'n, 'k) x509 \<Rightarrow> instant \<Rightarrow> bytes \<Rightarrow> bytes \<Rightarrow> bytes \<Rightarrow> trust_store \<Rightarrow> bool
   \<Rightarrow> chain_validation_error + validation_result" where
  "validate_der_chain_with_revocation x now leaf_der intermediate_der root_der ts leaf_revoked =
     (if leaf_revoked then Inl ChainRevoked
      else validate_der_chain x now leaf_der intermediate_der root_der ts)"

section \<open>Lemmas\<close>

lemma validity_ok:
  "validity_validate v now = Inr u \<longleftrightarrow> cv_not_before v \<le> now \<and> now \<le> cv_not_after v"
  by (auto simp: validity_validate_def)

lemma usage_has_iff [simp]: "usage_has f u \<longleftrightarrow> (\<exists>k. u = Some k \<and> f k)"
  by (cases u) (simp_all add: usage_has_def)

text \<open>A chain of three certificates that the code accepts at an instant.\<close>

definition within :: "('c, 'n, 'k) x509 \<Rightarrow> instant \<Rightarrow> 'c \<Rightarrow> bool" where
  "within x now c = (x5_not_before x c \<le> now \<and> now \<le> x5_not_after x c)"

definition is_issuing_ca :: "('c, 'n, 'k) x509 \<Rightarrow> 'c \<Rightarrow> bool" where
  "is_issuing_ca x c =
     (x5_is_ca x c \<and> (\<exists>u. x5_key_usage x c = Inr (Some u) \<and> ku_key_cert_sign u))"

definition issued_by :: "('c, 'n, 'k) x509 \<Rightarrow> 'c \<Rightarrow> 'c \<Rightarrow> bool" where
  "issued_by x c ca =
     (x5_issuer x c = x5_subject x ca \<and> x5_verify_signature x c (Some (x5_public_key x ca)))"

definition is_signing_leaf :: "('c, 'n, 'k) x509 \<Rightarrow> 'c \<Rightarrow> bool" where
  "is_signing_leaf x c =
     (\<not> x5_is_ca x c \<and> (\<exists>u. x5_key_usage x c = Inr (Some u) \<and> ku_digital_signature u))"

lemma if_Inl_Inr: "(if b then Inl e else r) = Inr v \<longleftrightarrow> \<not> b \<and> r = Inr v"
  by auto

lemma validate_der_chain_ok:
  "validate_der_chain x now ld idr rd ts = Inr res \<longleftrightarrow>
     ld \<noteq> [] \<and> idr \<noteq> [] \<and> rd \<noteq> [] \<and>
     (\<exists>l i r a. x5_parse x ld = Some l \<and> x5_parse x idr = Some i \<and> x5_parse x rd = Some r \<and>
        find (\<lambda>a. ta_certificate_der a = rd) (trust_enabled ts) = Some a \<and>
        issued_by x l i \<and> issued_by x i r \<and> x5_verify_signature x r None \<and>
        is_issuing_ca x i \<and> is_issuing_ca x r \<and> is_signing_leaf x l \<and>
        within x now l \<and> within x now i \<and> within x now r \<and>
        res = \<lparr>vr_trusted = True, vr_chain_depth = 3, vr_trust_anchor_id = Some (ta_id a)\<rparr>)"
  unfolding validate_der_chain_def if_Inl_Inr and_then_Inr ok_or_Inr map_err_Inr validity_ok
    usage_has_iff issued_by_def is_issuing_ca_def is_signing_leaf_def within_def x5_validity_def
  by auto

lemma find_SomeD: "find P xs = Some a \<Longrightarrow> a \<in> set xs \<and> P a"
  by (induction xs) (auto split: if_splits)

lemma find_enabled:
  "find P (trust_enabled ts) = Some a \<Longrightarrow> a \<in> set (anchors ts) \<and> ta_enabled a \<and> P a"
  by (auto simp: trust_enabled_def dest!: find_SomeD)

section \<open>Properties\<close>

text \<open>
  C25. \<open>validate_der_chain\<close> accepts a chain exactly when all of this holds, and then names the
  first enabled anchor whose bytes are the given root's: the three certificates are present and
  parse; the leaf is issued by the intermediate and the intermediate by the root, names and
  signatures both, and the root verifies under its own key; intermediate and root are CAs that
  may sign certificates; the leaf is not a CA and may sign; and the instant is inside all three
  validity windows, both ends included.
\<close>

theorem der_chain_accepted_iff:
  "validate_der_chain x now ld idr rd ts = Inr res \<longleftrightarrow>
     (\<exists>l i r a. ld \<noteq> [] \<and> idr \<noteq> [] \<and> rd \<noteq> [] \<and>
        x5_parse x ld = Some l \<and> x5_parse x idr = Some i \<and> x5_parse x rd = Some r \<and>
        find (\<lambda>a. ta_certificate_der a = rd) (filter ta_enabled (anchors ts)) = Some a \<and>
        x5_issuer x l = x5_subject x i \<and> x5_verify_signature x l (Some (x5_public_key x i)) \<and>
        x5_issuer x i = x5_subject x r \<and> x5_verify_signature x i (Some (x5_public_key x r)) \<and>
        x5_verify_signature x r None \<and> is_issuing_ca x i \<and> is_issuing_ca x r \<and>
        is_signing_leaf x l \<and> within x now l \<and> within x now i \<and> within x now r \<and>
        res = \<lparr>vr_trusted = True, vr_chain_depth = 3, vr_trust_anchor_id = Some (ta_id a)\<rparr>)"
  unfolding validate_der_chain_ok issued_by_def trust_enabled_def by blast

text \<open>
  C32. Removing a trust anchor takes effect at once: whatever chain is presented afterwards, with
  or without a revocation flag, no acceptance names the removed anchor; and a chain whose leaf is
  flagged revoked is refused with \<open>Revoked\<close> whatever else holds.
\<close>

theorem removed_anchor_never_trusted:
  assumes "trust_reachable ts"
    and "validate_der_chain_with_revocation x now ld idr rd (fst (trust_remove ts i)) revoked = Inr res"
  shows "vr_trust_anchor_id res \<noteq> Some i \<and> \<not> revoked \<and>
    (\<exists>a \<in> set (anchors ts). ta_enabled a \<and> ta_certificate_der a = rd \<and>
       vr_trust_anchor_id res = Some (ta_id a)) \<and>
    validate_der_chain_with_revocation x now ld idr rd ts True = Inl ChainRevoked"
proof -
  let ?ts = "fst (trust_remove ts i)"
  have v: "validate_der_chain x now ld idr rd ?ts = Inr res" and nr: "\<not> revoked"
    using assms(2) by (auto simp: validate_der_chain_with_revocation_def split: if_splits)
  then obtain a where a: "find (\<lambda>a. ta_certificate_der a = rd) (trust_enabled ?ts) = Some a"
    and res: "vr_trust_anchor_id res = Some (ta_id a)"
    by (auto simp: validate_der_chain_ok)
  from find_enabled[OF a] have mem: "a \<in> set (anchors ?ts)" and en: "ta_enabled a"
    and d: "ta_certificate_der a = rd" by auto
  have "a \<in> set (anchors ts) \<and> ta_id a \<noteq> i"
    using mem trust_reachable_ok[OF assms(1)]
    by (auto simp: trust_remove_cases find_None_iff split: option.splits)
  with en d res nr show ?thesis by (auto simp: validate_der_chain_with_revocation_def)
qed

text \<open>A toy certificate format for the witnesses: the first byte names the certificate (1 the
  leaf, 2 the intermediate, 3 the root), and each is issued by its successor.\<close>

definition sample_x509 :: "(nat, nat, nat) x509" where
  "sample_x509 =
     \<lparr>x5_parse = (\<lambda>bs. case bs of [] \<Rightarrow> None | b # _ \<Rightarrow> Some (if b = 1 then 1 else if b = 2 then 2 else 3)),
      x5_issuer = (\<lambda>c. if c = 1 then 2 else 3), x5_subject = (\<lambda>c. c), x5_is_ca = (\<lambda>c. c \<noteq> 1),
      x5_key_usage = (\<lambda>c. Inr (Some \<lparr>ku_digital_signature = (c = 1), ku_key_cert_sign = (c \<noteq> 1)\<rparr>)),
      x5_public_key = (\<lambda>c. c),
      x5_verify_signature = (\<lambda>c k. case k of None \<Rightarrow> c = 3 | Some k \<Rightarrow> k = (if c = 1 then 2 else 3)),
      x5_not_before = (\<lambda>_. 0), x5_not_after = (\<lambda>_. 100)\<rparr>"

definition sample_trust2 :: trust_store where
  "sample_trust2 = fst (trust_add sample_trust (sample_anchor 2 [4]))"

theorem removed_anchor_never_trusted_witness:
  "\<exists>res. validate_der_chain_with_revocation sample_x509 50 [1] [2] [3] (fst (trust_remove sample_trust2 2)) False
      = Inr res \<and> vr_trust_anchor_id res \<noteq> Some 2"
proof -
  have reach: "trust_reachable sample_trust2"
    unfolding sample_trust2_def by (rule tr_add[OF sample_trust_reachable])
  have "anchors sample_trust2 = [sample_anchor 1 [3], sample_anchor 2 [4]]"
    by (simp add: sample_trust2_def trust_add_def sample_trust_anchors Let_def sample_anchor_def
        trust_anchor_new_def)
  then have "trust_enabled (fst (trust_remove sample_trust2 2)) = [sample_anchor 1 [3]]"
    by (simp add: trust_remove_cases[OF trust_reachable_ok[OF reach]] trust_enabled_def
        sample_anchor_def trust_anchor_new_def)
  then have "validate_der_chain_with_revocation sample_x509 50 [1] [2] [3]
      (fst (trust_remove sample_trust2 2)) False =
      Inr \<lparr>vr_trusted = True, vr_chain_depth = 3, vr_trust_anchor_id = Some 1\<rparr>"
    by (simp add: validate_der_chain_with_revocation_def validate_der_chain_ok issued_by_def
        is_issuing_ca_def is_signing_leaf_def within_def sample_x509_def sample_anchor_def
        trust_anchor_new_def)
  from this removed_anchor_never_trusted[OF reach this] show ?thesis by blast
qed

text \<open>
  C31. The metadata validator \<open>validate_leaf\<close> accepts exactly the non-CA certificates with digital
  signature usage that are inside their validity window and meet the requirement, as soon as any
  anchor is enabled; it reports the first enabled anchor, without relating the certificate's
  bytes or issuer to it.
\<close>

theorem validate_leaf_accepted_iff:
  "validate_leaf now c ts ident = Inr res \<longleftrightarrow>
     cv_not_before (vi_validity c) \<le> now \<and> now \<le> cv_not_after (vi_validity c) \<and>
     \<not> vi_is_ca c \<and> vi_digital_signature c \<and>
     (case ident of None \<Rightarrow> True | Some rq \<Rightarrow>
        (case ir_dns_name rq of None \<Rightarrow> True
         | Some n \<Rightarrow> (\<exists>d. d \<in> set (vi_dns_names c) \<and> to_ascii_lowercase d = to_ascii_lowercase n)) \<and>
        (case ir_ip_address rq of None \<Rightarrow> True | Some a \<Rightarrow> a \<in> set (vi_ip_addresses c)) \<and>
        \<not> (ir_require_server_auth rq \<and> \<not> vi_server_auth c) \<and>
        \<not> (ir_require_client_auth rq \<and> \<not> vi_client_auth c)) \<and>
     (\<exists>a as. filter ta_enabled (anchors ts) = a # as \<and>
        res = \<lparr>vr_trusted = True, vr_chain_depth = 1, vr_trust_anchor_id = Some (ta_id a)\<rparr>)"
proof -
  have vid: "validate_identity c rq = Inr () \<longleftrightarrow>
        (case ir_dns_name rq of None \<Rightarrow> True
         | Some n \<Rightarrow> (\<exists>d. d \<in> set (vi_dns_names c) \<and> to_ascii_lowercase d = to_ascii_lowercase n)) \<and>
        (case ir_ip_address rq of None \<Rightarrow> True | Some a \<Rightarrow> a \<in> set (vi_ip_addresses c)) \<and>
        \<not> (ir_require_server_auth rq \<and> \<not> vi_server_auth c) \<and>
        \<not> (ir_require_client_auth rq \<and> \<not> vi_client_auth c)" for rq
    by (auto simp: validate_identity_def eq_ignore_ascii_case_def list_ex_iff split: option.split)
  show ?thesis
    unfolding validate_leaf_def and_then_Inr map_err_Inr validity_ok if_Inl_Inr trust_enabled_def
    by (cases ident) (auto simp: vid split: list.splits)
qed

text \<open>
  C34. The two notions of expiry disagree at one instant. At exactly \<open>not_after\<close> the validators
  still accept the window, while the lifecycle evaluation of the same certificate already makes
  it Expired (or refuses, if it was revoked); one nanosecond later both agree.
\<close>

theorem expiry_boundary_differs:
  assumes "cm_not_before c \<le> cm_not_after c"
  shows "validity_validate \<lparr>cv_not_before = cm_not_before c, cv_not_after = cm_not_after c\<rparr> (cm_not_after c)
      = Inr () \<and>
    \<not> (\<exists>c' s. evaluate (cm_not_after c, t2, t3) c = Inr (c', s) \<and> s \<noteq> Expired) \<and>
    validity_validate \<lparr>cv_not_before = cm_not_before c, cv_not_after = cm_not_after c\<rparr> (cm_not_after c + 1)
      = Inl CertExpired"
proof -
  have "s = Expired" if "evaluate (cm_not_after c, t2, t3) c = Inr (c', s)" for c' s
    using evaluate_ok[OF that] by (auto simp: evaluated_state_def split: if_splits)
  then show ?thesis using assms by (auto simp: validity_validate_def)
qed

theorem expiry_boundary_differs_witness:
  "validity_validate \<lparr>cv_not_before = 0, cv_not_after = 5\<rparr> 5 = Inr ()"
  using expiry_boundary_differs[of "metadata_new 1 0 ''01'' ''ca'' ''s''
      \<lparr>ci_common_name = None, ci_dns_names = [], ci_ip_addresses = [], ci_client_auth = True,
       ci_server_auth = True\<rparr> 0 5"]
  by (simp add: metadata_new_def)

end
