(* ===== verification/Cli.thy ===== *)
theory Cli
  imports Issuer Chain "HOL-Library.Countable"
begin

text \<open>
  The verification run of the command line, \<open>daemon-pki-cli/src/main.rs\<close>: it makes a CA
  hierarchy and a leaf with \<open>Issuer\<close>, checks the chain and then the leaf with \<open>Chain\<close>. What the
  run reads from a parsed certificate beyond the record \<open>x509\<close>, the extensions and the text of
  a name, is the record \<open>x509_details\<close>. What it prints is left out.
\<close>

section \<open>Reading the extensions\<close>

datatype general_name = GnDnsName string | GnIpAddress bytes | GnOther

text \<open>The extended key usage by its server and its client flag.\<close>

datatype parsed_extension =
  KeyUsageExt key_usage | ExtendedKeyUsageExt bool bool | SubjectAlternativeNameExt "general_name list"
| OtherExt

record ('c, 'n) x509_details =
  xd_extensions :: "'c \<Rightarrow> parsed_extension list"
  xd_name_text :: "'n \<Rightarrow> string"

text \<open>\<open>IpAddr::from\<close> of four or of sixteen octets, most significant first.\<close>

definition ip_from_octets :: "bytes \<Rightarrow> ip_addr option" where
  "ip_from_octets bs =
     (if length bs = 4 then Some (V4 (word_of_int (groups_val 256 (map unat bs))))
      else if length bs = 16 then Some (V6 (word_of_int (groups_val 256 (map unat bs))))
      else None)"

text \<open>The mutable variables of the loop over the extensions.\<close>

record leaf_facts =
  lf_dns_names :: "string list"
  lf_ip_addresses :: "ip_addr list"
  lf_digital_signature :: bool
  lf_key_cert_sign :: bool
  lf_server_auth :: bool
  lf_client_auth :: bool

definition no_facts :: leaf_facts where
  "no_facts = \<lparr>lf_dns_names = [], lf_ip_addresses = [], lf_digital_signature = False,
     lf_key_cert_sign = False, lf_server_auth = False, lf_client_auth = False\<rparr>"

fun collect_name :: "general_name \<Rightarrow> leaf_facts \<Rightarrow> leaf_facts" where
  "collect_name (GnDnsName n) f = f\<lparr>lf_dns_names := lf_dns_names f @ [n]\<rparr>"
| "collect_name (GnIpAddress bs) f =
     (case ip_from_octets bs of None \<Rightarrow> f
      | Some a \<Rightarrow> f\<lparr>lf_ip_addresses := lf_ip_addresses f @ [a]\<rparr>)"
| "collect_name GnOther f = f"

fun collect_extension :: "parsed_extension \<Rightarrow> leaf_facts \<Rightarrow> leaf_facts" where
  "collect_extension (KeyUsageExt usage) f =
     f\<lparr>lf_digital_signature := ku_digital_signature usage, lf_key_cert_sign := ku_key_cert_sign usage\<rparr>"
| "collect_extension (ExtendedKeyUsageExt server client) f =
     f\<lparr>lf_server_auth := server, lf_client_auth := client\<rparr>"
| "collect_extension (SubjectAlternativeNameExt names) f = fold collect_name names f"
| "collect_extension OtherExt f = f"

definition collect_facts :: "parsed_extension list \<Rightarrow> leaf_facts" where
  "collect_facts extensions = fold collect_extension extensions no_facts"

definition leaf_input ::
  "('c, 'n, 'k) x509 \<Rightarrow> ('c, 'n) x509_details \<Rightarrow> bytes \<Rightarrow> 'c \<Rightarrow> certificate_validation_input" where
  "leaf_input x xd der parsed =
     (let f = collect_facts (xd_extensions xd parsed) in
      \<lparr>vi_der = der, vi_validity = x5_validity x parsed, vi_is_ca = x5_is_ca x parsed,
       vi_digital_signature = lf_digital_signature f, vi_key_cert_sign = lf_key_cert_sign f,
       vi_server_auth = lf_server_auth f, vi_client_auth = lf_client_auth f,
       vi_dns_names = lf_dns_names f, vi_ip_addresses = lf_ip_addresses f,
       vi_issuer = xd_name_text xd (x5_issuer x parsed), vi_subject = xd_name_text xd (x5_subject x parsed)\<rparr>)"

section \<open>The run\<close>

datatype cli_error =
  CliCa ca_error | CliAddrParse | CliIssuance issuance_error | CliTrustStore trust_store_error
| CliChain chain_validation_error | CliNotTrusted | CliParse

text \<open>The keys drawn for root, intermediate and leaf, the id of the anchor, and the two clock readings.\<close>

record 'key cli_fresh =
  cl_root_key :: "rcgen_error + 'key"
  cl_intermediate_key :: "rcgen_error + 'key"
  cl_leaf_key :: "rcgen_error + 'key"
  cl_anchor_id :: uuid
  cl_chain_now :: instant
  cl_leaf_now :: instant

definition cli_main ::
  "('key, 'iss) rcgen \<Rightarrow> ('c, 'n, 'k) x509 \<Rightarrow> ('c, 'n) x509_details \<Rightarrow> 'key cli_fresh \<Rightarrow> cli_error + unit" where
  "cli_main rc x xd fr =
     and_then (map_err CliCa (root_generate (rc\<lparr>rc_generate := cl_root_key fr\<rparr>) ''Daemon PKI Root CA'')) (\<lambda>root.
     and_then (map_err CliCa (intermediate_generate (rc\<lparr>rc_generate := cl_intermediate_key fr\<rparr>) root
         ''Daemon PKI Workload CA'')) (\<lambda>intermediate.
     and_then (ok_or (parse_ip_addr ''127.0.0.1'') CliAddrParse) (\<lambda>address.
     let request = with_ip_address address (with_dns_name ''api.internal''
           (with_dns_name ''api.daemon.internal'' (request_new ''api.daemon.internal''))) in
     and_then (map_err CliIssuance (issuer_issue (rc\<lparr>rc_generate := cl_leaf_key fr\<rparr>) (int_issuer intermediate) request))
         (\<lambda>(certificate, private_key).
     let trust_anchor = trust_anchor_new (cl_anchor_id fr) ''Daemon PKI Root CA'' (root_cert_der root) in
     (case trust_add trust_store_new trust_anchor of (trust_store, added) \<Rightarrow>
     and_then (map_err CliTrustStore added) (\<lambda>trust_anchor_id.
     and_then (map_err CliChain (validate_der_chain x (cl_chain_now fr) (crt_der certificate) (int_cert_der intermediate)
         (root_cert_der root) trust_store)) (\<lambda>result.
     if \<not> vr_trusted result then Inl CliNotTrusted else
     and_then (ok_or (x5_parse x (crt_der certificate)) CliParse) (\<lambda>parsed.
     and_then (map_err CliChain (validate_leaf (cl_leaf_now fr) (leaf_input x xd (crt_der certificate) parsed)
         trust_store (Some (requirement_dns ''api.daemon.internal'')))) (\<lambda>_. Inr ())))))))))"

section \<open>Addresses and their octets\<close>

fun be_octets :: "nat \<Rightarrow> nat \<Rightarrow> bytes" where
  "be_octets 0 v = []"
| "be_octets (Suc n) v = be_octets n (v div 256) @ [of_nat (v mod 256)]"

fun ip_octets :: "ip_addr \<Rightarrow> bytes" where
  "ip_octets (V4 w) = be_octets 4 (unat w)"
| "ip_octets (V6 w) = be_octets 16 (unat w)"

lemma length_be_octets [simp]: "length (be_octets n v) = n"
  by (induction n v rule: be_octets.induct) simp_all

lemma groups_val_be_octets: "groups_val 256 (map unat (be_octets n v)) = int (v mod 256 ^ n)"
proof (induction n v rule: be_octets.induct)
  case (2 n v)
  have u: "unat (of_nat (v mod 256) :: u8) = v mod 256" by (simp add: unat_of_nat)
  have "groups_val 256 (map unat (be_octets (Suc n) v)) = 256 * int (v div 256 mod 256 ^ n) + int (v mod 256)"
    using 2 u by (simp add: groups_val_def)
  also have "\<dots> = int (256 * (v div 256 mod 256 ^ n) + v mod 256)" by simp
  also have "256 * (v div 256 mod 256 ^ n) + v mod 256 = v mod 256 ^ Suc n"
    by (simp add: mod_mult2_eq)
  finally show ?case .
qed (simp add: groups_val_def)

lemma ip_octets_read [simp]: "ip_from_octets (ip_octets a) = Some a"
proof (cases a)
  case (V4 w)
  have "unat w < 256 ^ 4" using unsigned_less[of w] by simp
  then show ?thesis by (simp add: V4 ip_from_octets_def groups_val_be_octets)
next
  case (V6 w)
  have "unat w < 256 ^ 16" using unsigned_less[of w] by simp
  then show ?thesis by (simp add: V6 ip_from_octets_def groups_val_be_octets)
qed

section \<open>What the loop collects\<close>

fun is_key_usage :: "parsed_extension \<Rightarrow> bool" where
  "is_key_usage (KeyUsageExt _) = True" | "is_key_usage _ = False"

fun is_extended_usage :: "parsed_extension \<Rightarrow> bool" where
  "is_extended_usage (ExtendedKeyUsageExt _ _) = True" | "is_extended_usage _ = False"

fun is_alternative_name :: "parsed_extension \<Rightarrow> bool" where
  "is_alternative_name (SubjectAlternativeNameExt _) = True" | "is_alternative_name _ = False"

lemma fold_names_usage:
  "lf_digital_signature (fold collect_name ns f) = lf_digital_signature f \<and>
   lf_key_cert_sign (fold collect_name ns f) = lf_key_cert_sign f \<and>
   lf_server_auth (fold collect_name ns f) = lf_server_auth f \<and>
   lf_client_auth (fold collect_name ns f) = lf_client_auth f"
proof (induction ns arbitrary: f)
  case (Cons n ns)
  then show ?case by (cases n) (simp_all split: option.split)
qed simp

fun name_dns :: "general_name \<Rightarrow> string list" where
  "name_dns (GnDnsName n) = [n]" | "name_dns _ = []"

fun name_ips :: "general_name \<Rightarrow> ip_addr list" where
  "name_ips (GnIpAddress bs) = (case ip_from_octets bs of None \<Rightarrow> [] | Some a \<Rightarrow> [a])" | "name_ips _ = []"

lemma fold_names:
  "lf_dns_names (fold collect_name ns f) = lf_dns_names f @ concat (map name_dns ns) \<and>
   lf_ip_addresses (fold collect_name ns f) = lf_ip_addresses f @ concat (map name_ips ns)"
proof (induction ns arbitrary: f)
  case (Cons n ns)
  then show ?case by (cases n) (simp_all split: option.split)
qed simp

text \<open>Each kind of extension decides its own variables, whatever the others and their order.\<close>

lemma collect_views:
  "lf_digital_signature (fold collect_extension es f) =
     lf_digital_signature (fold collect_extension (filter is_key_usage es) f) \<and>
   lf_key_cert_sign (fold collect_extension es f) =
     lf_key_cert_sign (fold collect_extension (filter is_key_usage es) f) \<and>
   lf_server_auth (fold collect_extension es f) =
     lf_server_auth (fold collect_extension (filter is_extended_usage es) f) \<and>
   lf_client_auth (fold collect_extension es f) =
     lf_client_auth (fold collect_extension (filter is_extended_usage es) f) \<and>
   lf_dns_names (fold collect_extension es f) =
     lf_dns_names (fold collect_extension (filter is_alternative_name es) f) \<and>
   lf_ip_addresses (fold collect_extension es f) =
     lf_ip_addresses (fold collect_extension (filter is_alternative_name es) f)"
proof (induction es rule: rev_induct)
  case (snoc e es)
  show ?case using snoc
    by (cases e) (simp_all add: fold_names_usage fold_names)
qed simp

section \<open>What the certificate library writes, the parser reads\<close>

text \<open>
  The contract between the two crates, for the parameters the sources fill in: a signed
  certificate is not empty and parses; it has the usages, the names and the CA flag of its
  parameters, each extension at most once, the addresses as octets in network order; its subject
  and issuer are the distinguished names of the two parameter sets, and its signature verifies
  under the key of the issuer. \<open>nm\<close> is the name of a distinguished name, \<open>pub\<close> the public half of
  a key, \<open>nb\<close> and \<open>na\<close> the library's default validity window, which the sources never change.
\<close>

fun general_name_of :: "san_type \<Rightarrow> general_name" where
  "general_name_of (DnsName n) = GnDnsName n"
| "general_name_of (IpAddress a) = GnIpAddress (ip_octets a)"

definition usage_of :: "certificate_params \<Rightarrow> key_usage" where
  "usage_of ps = \<lparr>ku_digital_signature = DigitalSignature \<in> set (cp_key_usages ps),
     ku_key_cert_sign = KeyCertSign \<in> set (cp_key_usages ps)\<rparr>"

definition carries ::
  "('c, 'n, 'k) x509 \<Rightarrow> ('c, 'n) x509_details \<Rightarrow> instant \<Rightarrow> instant \<Rightarrow> certificate_params \<Rightarrow> 'c \<Rightarrow> bool" where
  "carries x xd nb na ps c =
     (x5_is_ca x c = (cp_is_ca ps \<noteq> NoCa) \<and> x5_key_usage x c = Inr (Some (usage_of ps)) \<and>
      x5_not_before x c = nb \<and> x5_not_after x c = na \<and>
      filter is_key_usage (xd_extensions xd c) = [KeyUsageExt (usage_of ps)] \<and>
      filter is_extended_usage (xd_extensions xd c) =
        (if cp_extended_key_usages ps = [] then []
         else [ExtendedKeyUsageExt (ServerAuth \<in> set (cp_extended_key_usages ps))
                 (ClientAuth \<in> set (cp_extended_key_usages ps))]) \<and>
      filter is_alternative_name (xd_extensions xd c) =
        (if cp_subject_alt_names ps = [] then []
         else [SubjectAlternativeNameExt (map general_name_of (cp_subject_alt_names ps))]))"

definition reads_back ::
  "('key, 'iss) rcgen \<Rightarrow> ('c, 'n, 'k) x509 \<Rightarrow> ('c, 'n) x509_details \<Rightarrow> ((dn_type \<times> string) list \<Rightarrow> 'n)
   \<Rightarrow> ('key \<Rightarrow> 'k) \<Rightarrow> instant \<Rightarrow> instant \<Rightarrow> bool" where
  "reads_back rc x xd nm pub nb na =
     ((\<forall>ps k crt. cp_key_usages ps \<noteq> [] \<longrightarrow> rc_self_signed rc ps k = Inr crt \<longrightarrow>
        (\<exists>c. crt_der crt \<noteq> [] \<and> x5_parse x (crt_der crt) = Some c \<and> carries x xd nb na ps c \<and>
           x5_subject x c = nm (cp_distinguished_name ps) \<and> x5_issuer x c = nm (cp_distinguished_name ps) \<and>
           x5_public_key x c = pub k \<and> x5_verify_signature x c None)) \<and>
      (\<forall>ps k ips ik crt. cp_key_usages ps \<noteq> [] \<longrightarrow> rc_signed_by rc ps k (rc_issuer_new rc ips ik) = Inr crt \<longrightarrow>
        (\<exists>c. crt_der crt \<noteq> [] \<and> x5_parse x (crt_der crt) = Some c \<and> carries x xd nb na ps c \<and>
           x5_subject x c = nm (cp_distinguished_name ps) \<and> x5_issuer x c = nm (cp_distinguished_name ips) \<and>
           x5_public_key x c = pub k \<and> x5_verify_signature x c (Some (pub ik)))))"

lemma reads_self:
  assumes "reads_back rc x xd nm pub nb na" and "cp_key_usages ps \<noteq> []" and "rc_self_signed rc ps k = Inr crt"
  obtains c where "crt_der crt \<noteq> []" "x5_parse x (crt_der crt) = Some c" "carries x xd nb na ps c"
    "x5_subject x c = nm (cp_distinguished_name ps)" "x5_issuer x c = nm (cp_distinguished_name ps)"
    "x5_public_key x c = pub k" "x5_verify_signature x c None"
  using assms unfolding reads_back_def by blast

lemma reads_signed:
  assumes "reads_back rc x xd nm pub nb na" and "cp_key_usages ps \<noteq> []"
    and "rc_signed_by rc ps k (rc_issuer_new rc ips ik) = Inr crt"
  obtains c where "crt_der crt \<noteq> []" "x5_parse x (crt_der crt) = Some c" "carries x xd nb na ps c"
    "x5_subject x c = nm (cp_distinguished_name ps)" "x5_issuer x c = nm (cp_distinguished_name ips)"
    "x5_public_key x c = pub k" "x5_verify_signature x c (Some (pub ik))"
  using assms unfolding reads_back_def by blast

text \<open>What the loop makes of a certificate that carries its parameters.\<close>

lemma collect_carried:
  assumes "carries x xd nb na ps c"
  shows "leaf_input x xd der c =
    \<lparr>vi_der = der, vi_validity = \<lparr>cv_not_before = nb, cv_not_after = na\<rparr>, vi_is_ca = (cp_is_ca ps \<noteq> NoCa),
     vi_digital_signature = (DigitalSignature \<in> set (cp_key_usages ps)),
     vi_key_cert_sign = (KeyCertSign \<in> set (cp_key_usages ps)),
     vi_server_auth = (ServerAuth \<in> set (cp_extended_key_usages ps)),
     vi_client_auth = (ClientAuth \<in> set (cp_extended_key_usages ps)),
     vi_dns_names = concat (map (name_dns \<circ> general_name_of) (cp_subject_alt_names ps)),
     vi_ip_addresses = concat (map (name_ips \<circ> general_name_of) (cp_subject_alt_names ps)),
     vi_issuer = xd_name_text xd (x5_issuer x c), vi_subject = xd_name_text xd (x5_subject x c)\<rparr>"
proof -
  note v = collect_views[of "xd_extensions xd c" no_facts]
  note e = assms[unfolded carries_def]
  show ?thesis using v e
    by (auto simp: leaf_input_def collect_facts_def Let_def x5_validity_def usage_of_def no_facts_def fold_names
        split: if_splits)
qed

lemma hierarchy_reads:
  assumes "reads_back rc x xd nm pub nb na"
    and "root_generate (rc\<lparr>rc_generate := g1\<rparr>) rn = Inr root"
    and "intermediate_generate (rc\<lparr>rc_generate := g2\<rparr>) root cn = Inr ic"
    and "issuer_issue (rc\<lparr>rc_generate := g3\<rparr>) (int_issuer ic) rq = Inr (crt, key)"
  obtains l i r where "crt_der crt \<noteq> []" "int_cert_der ic \<noteq> []" "root_cert_der root \<noteq> []"
    "x5_parse x (crt_der crt) = Some l" "x5_parse x (int_cert_der ic) = Some i" "x5_parse x (root_cert_der root) = Some r"
    "carries x xd nb na (leaf_params rc rq) l" "is_issuing_ca x i" "is_issuing_ca x r"
    "issued_by x l i" "issued_by x i r" "x5_verify_signature x r None"
    "\<And>now. within x now i \<longleftrightarrow> nb \<le> now \<and> now \<le> na" "\<And>now. within x now r \<longleftrightarrow> nb \<le> now \<and> now \<le> na"
proof -
  let ?rp = "ca_params rc Unconstrained rn" and ?ip = "ca_params rc (Constrained 0) cn"
  have cap: "ca_params (rc\<lparr>rc_generate := g\<rparr>) b n = ca_params rc b n" for g b n by (simp add: ca_params_def)
  have lp: "leaf_params (rc\<lparr>rc_generate := g\<rparr>) rq = leaf_params rc rq" for g by (simp add: leaf_params_def)
  obtain rk rcrt where r: "rc_self_signed rc ?rp rk = Inr rcrt" "root_issuer root = rc_issuer_new rc ?rp rk"
    "root_cert_der root = crt_der rcrt" using assms(2) by (auto simp: root_generate_ok cap)
  obtain ik icrt where i: "rc_signed_by rc ?ip ik (root_issuer root) = Inr icrt" "int_issuer ic = rc_issuer_new rc ?ip ik"
    "int_cert_der ic = crt_der icrt" using assms(3) by (auto simp: intermediate_generate_ok cap)
  have l: "rc_signed_by rc (leaf_params rc rq) key (rc_issuer_new rc ?ip ik) = Inr crt"
    using assms(4) by (simp add: issuer_issue_ok lp i)
  have ku: "cp_key_usages (ca_params rc b n) \<noteq> []" "KeyCertSign \<in> set (cp_key_usages (ca_params rc b n))"
    "cp_is_ca (ca_params rc b n) = Ca b" "cp_key_usages (leaf_params rc rq) \<noteq> []" for b n
    by (simp_all add: ca_params_def leaf_params_def)
  note isg = i(1)[unfolded r(2)]
  note w = carries_def is_issuing_ca_def issued_by_def within_def usage_of_def ku r(3) i(3)
  show thesis
    by (rule reads_self[OF assms(1) ku(1) r(1)], rule reads_signed[OF assms(1) ku(1) isg],
        rule reads_signed[OF assms(1) ku(4) l], rule that) (auto simp: w)
qed

lemma leaf_params_names:
  assumes "cp_subject_alt_names (rc_default rc) = []"
  shows "concat (map (name_dns \<circ> general_name_of) (cp_subject_alt_names (leaf_params rc rq))) = rq_dns_names rq \<and>
    concat (map (name_ips \<circ> general_name_of) (cp_subject_alt_names (leaf_params rc rq))) = rq_ip_addresses rq"
proof -
  have "concat (map (name_dns \<circ> general_name_of \<circ> DnsName) ns) = ns" "concat (map (name_ips \<circ> general_name_of \<circ> DnsName) ns) = []"
    for ns by (induction ns) simp_all
  moreover have "concat (map (name_dns \<circ> general_name_of \<circ> IpAddress) as) = []"
    "concat (map (name_ips \<circ> general_name_of \<circ> IpAddress) as) = as" for as by (induction as) simp_all
  ultimately show ?thesis using assms by (simp add: leaf_params_def comp_assoc)
qed

lemma leaf_params_usages [simp]:
  "cp_is_ca (leaf_params rc rq) = NoCa" "cp_key_usages (leaf_params rc rq) = [DigitalSignature, KeyEncipherment]"
  "ServerAuth \<in> set (cp_extended_key_usages (leaf_params rc rq)) \<longleftrightarrow> rq_server_auth rq"
  "ClientAuth \<in> set (cp_extended_key_usages (leaf_params rc rq)) \<longleftrightarrow> rq_client_auth rq"
  by (simp_all add: leaf_params_def)

lemma validate_dns:
  "(\<exists>res. validate_leaf now v ts (Some (requirement_dns n)) = Inr res) \<longleftrightarrow>
     cv_not_before (vi_validity v) \<le> now \<and> now \<le> cv_not_after (vi_validity v) \<and> \<not> vi_is_ca v \<and>
     vi_digital_signature v \<and> vi_server_auth v \<and> trust_enabled ts \<noteq> [] \<and>
     (\<exists>d. d \<in> set (vi_dns_names v) \<and> to_ascii_lowercase d = to_ascii_lowercase n)"
  by (auto simp: validate_leaf_accepted_iff requirement_dns_def trust_enabled_def neq_Nil_conv)

section \<open>Properties\<close>

text \<open>
  C20. What this PKI issues, its own validator trusts, and nothing in between can fail. Take any
  generated root, any intermediate generated under it and any certificate issued by that
  intermediate: the chain of the three is accepted if and only if the instant is inside the
  validity window the certificate library gives all of them and an enabled anchor has the
  bytes of the root. (The parser reads what the library writes.)
\<close>

theorem issued_chain_is_trusted:
  assumes "reads_back rc x xd nm pub nb na"
    and "root_generate (rc\<lparr>rc_generate := g1\<rparr>) rn = Inr root"
    and "intermediate_generate (rc\<lparr>rc_generate := g2\<rparr>) root cn = Inr ic"
    and "issuer_issue (rc\<lparr>rc_generate := g3\<rparr>) (int_issuer ic) rq = Inr (crt, key)"
  shows "validate_der_chain x now (crt_der crt) (int_cert_der ic) (root_cert_der root) ts = Inr res \<longleftrightarrow>
    nb \<le> now \<and> now \<le> na \<and>
    (\<exists>a. find (\<lambda>a. ta_certificate_der a = root_cert_der root) (filter ta_enabled (anchors ts)) = Some a \<and>
       res = \<lparr>vr_trusted = True, vr_chain_depth = 3, vr_trust_anchor_id = Some (ta_id a)\<rparr>)"
proof (rule hierarchy_reads[OF assms], goal_cases)
  case (1 l i r)
  have "is_signing_leaf x l" "within x now l \<longleftrightarrow> nb \<le> now \<and> now \<le> na"
    using 1(7) by (auto simp: carries_def is_signing_leaf_def within_def usage_of_def)
  with 1 show ?case by (simp add: validate_der_chain_ok trust_enabled_def) blast
qed

text \<open>
  C21. A request survives being issued and read back. The certificate the issuer returns parses,
  and the loop over its extensions finds exactly the DNS names and the IP addresses of the
  request, in order, exactly the extended usages asked for, no CA flag and no right to sign
  certificates. So \<open>validate_leaf\<close> accepts it for a DNS name if and only if the request had that
  name, up to the case of ASCII letters, and server authentication.
\<close>

theorem request_read_back:
  assumes "reads_back rc x xd nm pub nb na" and "cp_subject_alt_names (rc_default rc) = []"
    and "root_generate (rc\<lparr>rc_generate := g1\<rparr>) rn = Inr root"
    and "intermediate_generate (rc\<lparr>rc_generate := g2\<rparr>) root cn = Inr ic"
    and "issuer_issue (rc\<lparr>rc_generate := g3\<rparr>) (int_issuer ic) rq = Inr (crt, key)"
  shows "\<exists>parsed v. x5_parse x (crt_der crt) = Some parsed \<and> leaf_input x xd (crt_der crt) parsed = v \<and>
    vi_dns_names v = rq_dns_names rq \<and> vi_ip_addresses v = rq_ip_addresses rq \<and>
    vi_server_auth v = rq_server_auth rq \<and> vi_client_auth v = rq_client_auth rq \<and>
    vi_digital_signature v \<and> \<not> vi_key_cert_sign v \<and> \<not> vi_is_ca v \<and>
    ((\<exists>res. validate_leaf now v ts (Some (requirement_dns n)) = Inr res) \<longleftrightarrow>
       nb \<le> now \<and> now \<le> na \<and> rq_server_auth rq \<and> filter ta_enabled (anchors ts) \<noteq> [] \<and>
       (\<exists>d. d \<in> set (rq_dns_names rq) \<and> to_ascii_lowercase d = to_ascii_lowercase n))"
proof (rule hierarchy_reads[OF assms(1,3-5)], goal_cases)
  case (1 l i r)
  note v = collect_carried[OF 1(7), of "crt_der crt"]
  show ?case
    by (intro exI[of _ l] exI[of _ "leaf_input x xd (crt_der crt) l"])
      (simp add: 1(4) v leaf_params_names[OF assms(2)] validate_dns trust_enabled_def)
qed

lemma cli_address: "\<exists>a. parse_ip_addr ''127.0.0.1'' = Some a"
  by (simp add: parse_ip_addr_def read_ipv4_addr_def read_octet_def read_separator_def read_number_def
      read_given_char_def to_digit_def hex_val_def eval_nat_numeral)

lemma cli_names: "trim ''Daemon PKI Root CA'' \<noteq> []" "trim ''Daemon PKI Workload CA'' \<noteq> []" "trim ''api.daemon.internal'' \<noteq> []"
  using trim_plain_ends[of "''Daemon PKI Root CA''"] trim_plain_ends[of "''Daemon PKI Workload CA''"]
    trim_plain[of "''api.daemon.internal''"] by (simp_all add: plain_char_def)

text \<open>
  C29. The verification run of the command line ends with success exactly when its two clock
  readings are inside the validity window. Given that the keys are drawn, the library signs and
  accepts the two DNS names, and the parser reads what the library writes, no other check of
  the run can refuse the hierarchy it has just made.
\<close>

theorem cli_run_passes_iff:
  assumes "reads_back rc x xd nm pub nb na" and "cp_subject_alt_names (rc_default rc) = []"
    and "rc_dns_ok rc ''api.daemon.internal''" and "rc_dns_ok rc ''api.internal''"
    and "\<forall>ps k. \<exists>crt. rc_self_signed rc ps k = Inr crt" and "\<forall>ps k i. \<exists>crt. rc_signed_by rc ps k i = Inr crt"
    and "cl_root_key fr = Inr rk" and "cl_intermediate_key fr = Inr ik" and "cl_leaf_key fr = Inr lk"
  shows "cli_main rc x xd fr = Inr () \<longleftrightarrow>
    nb \<le> cl_chain_now fr \<and> cl_chain_now fr \<le> na \<and> nb \<le> cl_leaf_now fr \<and> cl_leaf_now fr \<le> na"
proof -
  obtain root where root: "root_generate (rc\<lparr>rc_generate := Inr rk\<rparr>) ''Daemon PKI Root CA'' = Inr root"
    using assms(5) unfolding root_generate_ok by (simp add: cli_names) metis
  obtain ic where ic: "intermediate_generate (rc\<lparr>rc_generate := Inr ik\<rparr>) root ''Daemon PKI Workload CA'' = Inr ic"
    using assms(6) unfolding intermediate_generate_ok by (simp add: cli_names) metis
  obtain a where a: "parse_ip_addr ''127.0.0.1'' = Some a" using cli_address by blast
  let ?rq = "with_ip_address a (with_dns_name ''api.internal'' (with_dns_name ''api.daemon.internal''
      (request_new ''api.daemon.internal'')))"
  have rq: "validate_request ?rq = Inr ()" "rq_dns_names ?rq = [''api.daemon.internal'', ''api.internal'']" "rq_server_auth ?rq"
    by (simp_all add: validate_request_ok with_ip_address_def with_dns_name_def request_new_def)
  then obtain crt where crt: "issuer_issue (rc\<lparr>rc_generate := Inr lk\<rparr>) (int_issuer ic) ?rq = Inr (crt, lk)"
    using assms(3,4) assms(6)[rule_format, of "leaf_params (rc\<lparr>rc_generate := Inr lk\<rparr>) ?rq" lk "int_issuer ic"]
    by (auto simp: issuer_issue_ok)
  let ?an = "trust_anchor_new (cl_anchor_id fr) ''Daemon PKI Root CA'' (root_cert_der root)"
  let ?ts = "\<lparr>anchors = [?an]\<rparr>"
  have add: "trust_add trust_store_new ?an = (?ts, Inr (cl_anchor_id fr))"
    by (simp add: trust_add_def trust_store_new_def trust_anchor_new_def)
  have en: "filter ta_enabled (anchors ?ts) = [?an]" by (simp add: trust_anchor_new_def)
  let ?res = "\<lparr>vr_trusted = True, vr_chain_depth = 3, vr_trust_anchor_id = Some (cl_anchor_id fr)\<rparr>"
  have chain: "validate_der_chain x now (crt_der crt) (int_cert_der ic) (root_cert_der root) ?ts = Inr res \<longleftrightarrow>
      nb \<le> now \<and> now \<le> na \<and> res = ?res" for now res
    by (rule hierarchy_reads[OF assms(1) root ic crt])
      (auto simp: validate_der_chain_ok carries_def is_signing_leaf_def within_def usage_of_def
        trust_enabled_def trust_anchor_new_def)
  obtain l where l: "x5_parse x (crt_der crt) = Some l" "carries x xd nb na (leaf_params rc ?rq) l"
    using hierarchy_reads[OF assms(1) root ic crt] by metis
  have leaf: "(\<exists>res. validate_leaf now (leaf_input x xd (crt_der crt) l) ?ts (Some (requirement_dns ''api.daemon.internal'')) =
      Inr res) \<longleftrightarrow> nb \<le> now \<and> now \<le> na" for now
    by (simp add: validate_dns collect_carried[OF l(2)] leaf_params_names[OF assms(2)] rq trust_enabled_def
        trust_anchor_new_def) blast
  have "cli_main rc x xd fr = Inr () \<longleftrightarrow>
      (\<exists>res. validate_der_chain x (cl_chain_now fr) (crt_der crt) (int_cert_der ic) (root_cert_der root) ?ts = Inr res \<and> vr_trusted res) \<and>
      (\<exists>res. validate_leaf (cl_leaf_now fr) (leaf_input x xd (crt_der crt) l) ?ts (Some (requirement_dns ''api.daemon.internal'')) = Inr res)"
    by (simp add: cli_main_def assms root ic a crt add l Let_def result_simps if_Inl_Inr) blast
  then show ?thesis by (auto simp: chain leaf)
qed

section \<open>A concrete pair of libraries\<close>

text \<open>
  A certificate of the instance is its parameters, its key and the name and key of its issuer;
  its DER is a run of bytes as long as the number of that tuple.
\<close>

instance ip_addr :: countable by countable_datatype
instance dn_type :: countable by countable_datatype
instance san_type :: countable by countable_datatype
instance basic_constraints :: countable by countable_datatype
instance is_ca :: countable by countable_datatype
instance key_usage_purpose :: countable by countable_datatype
instance extended_key_usage_purpose :: countable by countable_datatype

type_synonym demo_name = "(dn_type \<times> string) list"

type_synonym demo_certificate =
  "demo_name \<times> san_type list \<times> is_ca \<times> key_usage_purpose list \<times> extended_key_usage_purpose list \<times> nat \<times> demo_name \<times> nat"

definition demo_sign :: "certificate_params \<Rightarrow> nat \<Rightarrow> demo_name \<Rightarrow> nat \<Rightarrow> rcgen_certificate" where
  "demo_sign ps k n ik =
     \<lparr>crt_pem = ''P'', crt_der = replicate (Suc (to_nat ((cp_distinguished_name ps, cp_subject_alt_names ps,
        cp_is_ca ps, cp_key_usages ps, cp_extended_key_usages ps, k, n, ik) :: demo_certificate))) 0\<rparr>"

definition demo_rcgen :: "(nat, demo_name \<times> nat) rcgen" where
  "demo_rcgen =
     \<lparr>rc_default = rc_default sample_rcgen, rc_dns_ok = (\<lambda>_. True), rc_generate = Inr 7,
      rc_signed_by = (\<lambda>ps k (n, ik). Inr (demo_sign ps k n ik)),
      rc_self_signed = (\<lambda>ps k. Inr (demo_sign ps k (cp_distinguished_name ps) k)),
      rc_issuer_new = (\<lambda>ps k. (cp_distinguished_name ps, k)), rc_key_from_pem = (\<lambda>s. Inr (length s - 1)),
      rc_issuer_from_ca_cert_pem = (\<lambda>s k. Inr ([], k)), rc_issuer_key = snd,
      rc_serialize_pem = (\<lambda>k. replicate (k + 1) (CHR ''K'')), rc_pem_contents = (\<lambda>s. None)\<rparr>"

definition demo_usage :: "key_usage_purpose list \<Rightarrow> key_usage" where
  "demo_usage us = \<lparr>ku_digital_signature = DigitalSignature \<in> set us, ku_key_cert_sign = KeyCertSign \<in> set us\<rparr>"

definition demo_x509 :: "(demo_certificate, demo_name, nat) x509" where
  "demo_x509 =
     \<lparr>x5_parse = (\<lambda>bs. case bs of [] \<Rightarrow> None | _ # r \<Rightarrow> Some (from_nat (length r))),
      x5_issuer = (\<lambda>(n, sans, ca, us, eus, k, i, ik). i), x5_subject = fst,
      x5_is_ca = (\<lambda>(n, sans, ca, r). ca \<noteq> NoCa), x5_key_usage = (\<lambda>(n, sans, ca, us, r). Inr (Some (demo_usage us))),
      x5_public_key = (\<lambda>(n, sans, ca, us, eus, k, r). k),
      x5_verify_signature = (\<lambda>(n, sans, ca, us, eus, k, i, ik) key. case key of None \<Rightarrow> ik = k | Some p \<Rightarrow> ik = p),
      x5_not_before = (\<lambda>_. 0), x5_not_after = (\<lambda>_. 100)\<rparr>"

definition demo_details :: "(demo_certificate, demo_name) x509_details" where
  "demo_details =
     \<lparr>xd_extensions = (\<lambda>(n, sans, ca, us, eus, r).
        (if sans = [] then [] else [SubjectAlternativeNameExt (map general_name_of sans)]) @
        [OtherExt, KeyUsageExt (demo_usage us)] @
        (if eus = [] then [] else [ExtendedKeyUsageExt (ServerAuth \<in> set eus) (ClientAuth \<in> set eus)])),
      xd_name_text = (\<lambda>_. [])\<rparr>"

lemma demo_reads_back: "reads_back demo_rcgen demo_x509 demo_details id id 0 100"
  by (simp add: reads_back_def demo_rcgen_def demo_sign_def demo_x509_def demo_details_def carries_def usage_of_def
      demo_usage_def split: prod.split)

definition demo_fresh :: "nat cli_fresh" where
  "demo_fresh = \<lparr>cl_root_key = Inr 1, cl_intermediate_key = Inr 2, cl_leaf_key = Inr 3, cl_anchor_id = 9,
     cl_chain_now = 50, cl_leaf_now = 50\<rparr>"

theorem cli_run_passes_iff_witness: "cli_main demo_rcgen demo_x509 demo_details demo_fresh = Inr ()"
  using cli_run_passes_iff[OF demo_reads_back, of demo_fresh 1 2 3]
  by (auto simp: demo_rcgen_def demo_fresh_def sample_rcgen_def)

definition demo_request :: certificate_request where
  "demo_request = with_ip_address (V4 1) (with_dns_name ''a.b'' (request_new ''c''))"

lemma demo_hierarchy:
  "\<exists>root ic crt. root_generate (demo_rcgen\<lparr>rc_generate := Inr 1\<rparr>) ''Daemon PKI Root CA'' = Inr root \<and>
     intermediate_generate (demo_rcgen\<lparr>rc_generate := Inr 2\<rparr>) root ''Daemon PKI Workload CA'' = Inr ic \<and>
     issuer_issue (demo_rcgen\<lparr>rc_generate := Inr 3\<rparr>) (int_issuer ic) demo_request = Inr (crt, 3)"
  by (simp add: root_generate_ok intermediate_generate_ok issuer_issue_ok cli_names demo_rcgen_def demo_request_def
      validate_request_ok with_dns_name_def with_ip_address_def request_new_def)

theorem issued_chain_is_trusted_witness:
  "\<exists>root (ic :: (demo_name \<times> nat) intermediate_ca) (crt :: rcgen_certificate). root_generate (demo_rcgen\<lparr>rc_generate := Inr 1\<rparr>) ''Daemon PKI Root CA'' = Inr root \<and>
     validate_der_chain demo_x509 50 (crt_der crt) (int_cert_der ic) (root_cert_der root)
       \<lparr>anchors = [trust_anchor_new 9 ''root'' (root_cert_der root)]\<rparr> =
     Inr \<lparr>vr_trusted = True, vr_chain_depth = 3, vr_trust_anchor_id = Some 9\<rparr>"
proof -
  obtain root ic crt where h: "root_generate (demo_rcgen\<lparr>rc_generate := Inr 1\<rparr>) ''Daemon PKI Root CA'' = Inr root"
    "intermediate_generate (demo_rcgen\<lparr>rc_generate := Inr 2\<rparr>) root ''Daemon PKI Workload CA'' = Inr ic"
    "issuer_issue (demo_rcgen\<lparr>rc_generate := Inr 3\<rparr>) (int_issuer ic) demo_request = Inr (crt, 3)"
    using demo_hierarchy by blast
  from issued_chain_is_trusted[OF demo_reads_back h, of 50 "\<lparr>anchors = [trust_anchor_new 9 ''root'' (root_cert_der root)]\<rparr>"
      "\<lparr>vr_trusted = True, vr_chain_depth = 3, vr_trust_anchor_id = Some 9\<rparr>"]
  have "validate_der_chain demo_x509 50 (crt_der crt) (int_cert_der ic) (root_cert_der root)
       \<lparr>anchors = [trust_anchor_new 9 ''root'' (root_cert_der root)]\<rparr> =
     Inr \<lparr>vr_trusted = True, vr_chain_depth = 3, vr_trust_anchor_id = Some 9\<rparr>"
    by (simp add: trust_anchor_new_def)
  with h(1) show ?thesis by blast
qed

theorem request_read_back_witness:
  "\<exists>(crt :: rcgen_certificate) parsed. x5_parse demo_x509 (crt_der crt) = Some parsed \<and>
     vi_dns_names (leaf_input demo_x509 demo_details (crt_der crt) parsed) = [''a.b''] \<and>
     vi_ip_addresses (leaf_input demo_x509 demo_details (crt_der crt) parsed) = [V4 1]"
proof -
  obtain root ic crt where h: "root_generate (demo_rcgen\<lparr>rc_generate := Inr 1\<rparr>) ''Daemon PKI Root CA'' = Inr root"
    "intermediate_generate (demo_rcgen\<lparr>rc_generate := Inr 2\<rparr>) root ''Daemon PKI Workload CA'' = Inr ic"
    "issuer_issue (demo_rcgen\<lparr>rc_generate := Inr 3\<rparr>) (int_issuer ic) demo_request = Inr (crt, 3)"
    using demo_hierarchy by blast
  have "cp_subject_alt_names (rc_default demo_rcgen) = []" by (simp add: demo_rcgen_def sample_rcgen_def)
  then obtain parsed
    where "x5_parse demo_x509 (crt_der crt) = Some parsed"
      "vi_dns_names (leaf_input demo_x509 demo_details (crt_der crt) parsed) = rq_dns_names demo_request"
      "vi_ip_addresses (leaf_input demo_x509 demo_details (crt_der crt) parsed) = rq_ip_addresses demo_request"
    using request_read_back[OF demo_reads_back _ h, of 50 "\<lparr>anchors = []\<rparr>" "''a.b''"] by blast
  then show ?thesis
    by - (intro exI[of _ crt] exI[of _ parsed], simp add: demo_request_def with_dns_name_def with_ip_address_def request_new_def)
qed

end
