(* ===== verification/Inventory_Index.thy ===== *)
theory Inventory_Index
  imports Inventory_Eval
begin

text \<open>
  What the inventory does with a fingerprint that is already in use, and the counters of
  \<open>state_counts\<close>.
\<close>

section \<open>Counters\<close>

definition count_of :: "inventory_state_counts \<Rightarrow> certificate_state \<Rightarrow> nat" where
  "count_of k s =
     (case s of Active \<Rightarrow> n_active k | Expiring \<Rightarrow> n_expiring k | RenewalPending \<Rightarrow> n_renewal_pending k
      | Renewed \<Rightarrow> n_renewed k | Revoked \<Rightarrow> n_revoked k | Expired \<Rightarrow> n_expired k)"

lemma count_of_default [simp]: "count_of counts_default s = 0"
  by (cases s) (simp_all add: count_of_def counts_default_def)

lemma count_of_add [simp]:
  "count_of (counts_add c k) s = (if cm_state c = s then count_of k s + 1 else count_of k s)"
  by (cases s; cases "cm_state c") (simp_all add: count_of_def counts_add_def)

lemma counts_total_sum: "counts_total k = (\<Sum>s\<leftarrow>[Active, Expiring, RenewalPending, Renewed, Revoked, Expired]. count_of k s)"
  by (simp add: counts_total_def count_of_def)

lemma counts_total_add [simp]: "counts_total (counts_add c k) = counts_total k + 1"
  by (cases "cm_state c") (simp_all add: counts_total_def counts_add_def)

lemma count_of_fold:
  "count_of (fold counts_add cs k) s = count_of k s + length (filter (\<lambda>c. cm_state c = s) cs)"
  by (induction cs arbitrary: k) auto

lemma counts_total_fold: "counts_total (fold counts_add cs k) = counts_total k + length cs"
  by (induction cs arbitrary: k) auto

text \<open>
  C37. The state counters are exact in every inventory: each counter is the number of records
  \<open>by_state\<close> returns for its state, every record \<open>by_state\<close> returns is in that state, and the
  counters add up to the number of tracked certificates.
\<close>

theorem state_counts_exact:
  "n_active (inv_state_counts iv) = length (inv_by_state iv Active) \<and>
   n_expiring (inv_state_counts iv) = length (inv_by_state iv Expiring) \<and>
   n_renewal_pending (inv_state_counts iv) = length (inv_by_state iv RenewalPending) \<and>
   n_renewed (inv_state_counts iv) = length (inv_by_state iv Renewed) \<and>
   n_revoked (inv_state_counts iv) = length (inv_by_state iv Revoked) \<and>
   n_expired (inv_state_counts iv) = length (inv_by_state iv Expired) \<and>
   counts_total (inv_state_counts iv) = inv_len iv"
proof -
  have "count_of (inv_state_counts iv) s = length (inv_by_state iv s)" for s
    by (simp add: inv_state_counts_def inv_by_state_def count_of_fold)
  from this[of Active] this[of Expiring] this[of RenewalPending] this[of Renewed] this[of Revoked]
    this[of Expired]
  show ?thesis
    by (simp add: count_of_def inv_state_counts_def counts_total_fold inv_len_def)
      (simp add: counts_total_def counts_default_def)
qed

section \<open>A fingerprint in use\<close>

lemma find_by_fingerprint_registered:
  assumes "cm_fingerprint_sha256 c = Some f"
  shows "inv_find_by_fingerprint (registered iv c) f = Inr c"
  using assms by (simp add: inv_find_by_fingerprint_def inv_get_def registered_def)

text \<open>
  C24. Fingerprints are not protected against duplicates. Registering a record with a new id and
  serial number succeeds even when another tracked record has its fingerprint, so the error
  \<open>DuplicateFingerprint\<close> is never returned; the newer record then answers for the
  fingerprint, and removing it leaves the older one tracked but no longer found by it.
\<close>

theorem duplicate_fingerprint_shadows:
  assumes "inventory_reachable iv" and "inv_get iv i = Inr old"
    and "cm_fingerprint_sha256 old = Some f" and "cm_fingerprint_sha256 c = Some f"
    and "inv_register iv c = (iv', Inr j)"
  shows "inv_find_by_fingerprint iv' f = Inr c \<and>
    snd (inv_remove iv' j) = Inr c \<and>
    inv_get (fst (inv_remove iv' j)) i = Inr old \<and>
    inv_find_by_fingerprint (fst (inv_remove iv' j)) f = Inl (InvNotFound uuid_nil) \<and>
    snd (inv_register iv d) \<noteq> Inl (DuplicateFingerprint g)"
proof -
  have new: "\<not> hm_contains (certificates iv) (cm_id c)" and iv': "iv' = registered iv c"
    and j: "j = cm_id c"
    using assms(5) by (auto simp: inv_register_cases split: if_splits)
  have i: "hm_get (certificates iv) i = Some old" using assms(2) by (simp add: inv_get_def result_simps)
  with new have ne: "i \<noteq> cm_id c" by (auto simp: hm_contains_iff)
  have r: "inv_remove iv' j = (removed iv' j c, Inr c)"
    by (simp add: iv' j inv_remove_cases registered_def)
  have "inv_find_by_fingerprint (removed iv' j c) f = Inl (InvNotFound uuid_nil)"
    using assms(4) by (simp add: inv_find_by_fingerprint_def removed_def)
  moreover have "inv_get (removed iv' j c) i = Inr old"
    using ne i by (simp add: inv_get_def removed_def iv' j registered_def)
  moreover have "snd (inv_register iv d) \<noteq> Inl (DuplicateFingerprint g)"
    by (simp add: inv_register_cases)
  ultimately show ?thesis
    using r find_by_fingerprint_registered[OF assms(4), of iv] iv' by simp
qed

theorem duplicate_fingerprint_shadows_witness:
  "inv_find_by_fingerprint
     (fst (inv_remove (fst (inv_register (fst (inv_register inventory_new
        ((sample_cert 1 ''01'' 100)\<lparr>cm_fingerprint_sha256 := Some ''ab''\<rparr>)))
        ((sample_cert 2 ''02'' 100)\<lparr>cm_fingerprint_sha256 := Some ''ab''\<rparr>))) 2)) ''ab'' =
   Inl (InvNotFound uuid_nil)"
proof -
  let ?old = "(sample_cert 1 ''01'' 100)\<lparr>cm_fingerprint_sha256 := Some ''ab''\<rparr>"
  let ?c = "(sample_cert 2 ''02'' 100)\<lparr>cm_fingerprint_sha256 := Some ''ab''\<rparr>"
  let ?iv = "fst (inv_register inventory_new ?old)"
  have "inventory_reachable ?iv" by (intro reach_step[OF _ st_register] reach_new)
  moreover have "inv_get ?iv 1 = Inr ?old"
    by (simp add: inv_get_def inv_register_cases registered_def inventory_new_def hm_contains_def)
  moreover have "inv_register ?iv ?c = (fst (inv_register ?iv ?c), Inr 2)"
    by (simp add: inv_register_cases registered_def inventory_new_def hm_contains_def)
  ultimately show ?thesis using duplicate_fingerprint_shadows[of ?iv 1 ?old "''ab''" ?c] by simp
qed

end
