(* ===== verification/Registry.thy ===== *)
theory Registry
  imports Lifecycle Hash_Map
begin

text \<open>
  \<open>IdentityRegistry\<close> of \<open>daemon-pki-core/src/identity/registry.rs\<close>: machine identities by
  id, with an index by certificate fingerprint that, unlike the inventory's, is kept free of
  duplicates. A write through \<open>get_mut\<close> is \<open>reg_put\<close>. The status is a second instance of
  \<open>terminal_machine\<close>, with \<open>Revoked\<close> terminal.
\<close>

section \<open>Identities\<close>

datatype identity_type = Device | Workload | Service | Human

datatype identity_status = IdActive | IdDisabled | IdRevoked

definition id_is_active :: "identity_status \<Rightarrow> bool" where
  "id_is_active s = (case s of IdActive \<Rightarrow> True | _ \<Rightarrow> False)"

definition id_is_terminal :: "identity_status \<Rightarrow> bool" where
  "id_is_terminal s = (case s of IdRevoked \<Rightarrow> True | _ \<Rightarrow> False)"

record machine_identity =
  mi_id :: uuid
  mi_name :: string
  mi_identity_type :: identity_type
  mi_fingerprint :: string
  mi_status :: identity_status
  mi_roles :: "string list"
  mi_created_at :: instant
  mi_updated_at :: instant

definition identity_new ::
  "uuid \<Rightarrow> instant \<Rightarrow> string \<Rightarrow> identity_type \<Rightarrow> string \<Rightarrow> machine_identity" where
  "identity_new new_id now name ty fp =
     \<lparr>mi_id = new_id, mi_name = name, mi_identity_type = ty, mi_fingerprint = fp,
      mi_status = IdActive, mi_roles = [], mi_created_at = now, mi_updated_at = now\<rparr>"

definition with_role :: "string \<Rightarrow> machine_identity \<Rightarrow> machine_identity" where
  "with_role r m = (if \<not> list_ex (\<lambda>x. x = r) (mi_roles m) then m\<lparr>mi_roles := mi_roles m @ [r]\<rparr> else m)"

definition has_role :: "string \<Rightarrow> machine_identity \<Rightarrow> bool" where
  "has_role r m = list_ex (\<lambda>x. x = r) (mi_roles m)"

definition identity_disable :: "instant \<Rightarrow> machine_identity \<Rightarrow> machine_identity" where
  "identity_disable now m =
     (if \<not> id_is_terminal (mi_status m) then m\<lparr>mi_status := IdDisabled, mi_updated_at := now\<rparr> else m)"

definition identity_enable :: "instant \<Rightarrow> machine_identity \<Rightarrow> machine_identity" where
  "identity_enable now m =
     (if \<not> id_is_terminal (mi_status m) then m\<lparr>mi_status := IdActive, mi_updated_at := now\<rparr> else m)"

definition identity_revoke :: "instant \<Rightarrow> machine_identity \<Rightarrow> machine_identity" where
  "identity_revoke now m = m\<lparr>mi_status := IdRevoked, mi_updated_at := now\<rparr>"

section \<open>The registry\<close>

datatype registry_error =
  IdAlreadyExists uuid
| FingerprintAlreadyBound uuid
| IdNotFound uuid
| FingerprintNotFound string
| NotActive uuid

record identity_registry =
  identities :: "(uuid, machine_identity) hash_map"
  fingerprints :: "(string, uuid) hash_map"

definition registry_new :: identity_registry where
  "registry_new = \<lparr>identities = hm_empty, fingerprints = hm_empty\<rparr>"

definition reg_register ::
  "identity_registry \<Rightarrow> machine_identity \<Rightarrow> identity_registry \<times> (registry_error + uuid)" where
  "reg_register rg m =
     (if hm_contains (identities rg) (mi_id m) then (rg, Inl (IdAlreadyExists (mi_id m)))
      else (case hm_get (fingerprints rg) (mi_fingerprint m) of
              Some existing_id \<Rightarrow> (rg, Inl (FingerprintAlreadyBound existing_id))
            | None \<Rightarrow>
                (let i = mi_id m;
                     rg1 = rg\<lparr>fingerprints := hm_insert (mi_fingerprint m) i (fingerprints rg)\<rparr>;
                     rg2 = rg1\<lparr>identities := hm_insert i m (identities rg1)\<rparr>
                 in (rg2, Inr i))))"

definition reg_get :: "identity_registry \<Rightarrow> uuid \<Rightarrow> machine_identity option" where
  "reg_get rg i = hm_get (identities rg) i"

definition reg_get_mut :: "identity_registry \<Rightarrow> uuid \<Rightarrow> machine_identity option" where
  "reg_get_mut rg i = hm_get (identities rg) i"

definition reg_put :: "identity_registry \<Rightarrow> uuid \<Rightarrow> machine_identity \<Rightarrow> identity_registry" where
  "reg_put rg i m = rg\<lparr>identities := hm_insert i m (identities rg)\<rparr>"

definition reg_find_by_fingerprint :: "identity_registry \<Rightarrow> string \<Rightarrow> machine_identity option" where
  "reg_find_by_fingerprint rg fp =
     (case hm_get (fingerprints rg) fp of None \<Rightarrow> None | Some i \<Rightarrow> hm_get (identities rg) i)"

definition reg_authorize ::
  "identity_registry \<Rightarrow> string \<Rightarrow> string \<Rightarrow> registry_error + machine_identity" where
  "reg_authorize rg fp role =
     (case ok_or (reg_find_by_fingerprint rg fp) (FingerprintNotFound fp) of Inl e \<Rightarrow> Inl e
      | Inr m \<Rightarrow>
          if \<not> id_is_active (mi_status m) then Inl (NotActive (mi_id m))
          else if \<not> has_role role m then Inl (NotActive (mi_id m))
          else Inr m)"

definition reg_disable ::
  "instant \<Rightarrow> identity_registry \<Rightarrow> uuid \<Rightarrow> identity_registry \<times> (registry_error + unit)" where
  "reg_disable now rg i =
     (case reg_get_mut rg i of None \<Rightarrow> (rg, Inl (IdNotFound i))
      | Some m \<Rightarrow> (reg_put rg i (identity_disable now m), Inr ()))"

definition reg_enable ::
  "instant \<Rightarrow> identity_registry \<Rightarrow> uuid \<Rightarrow> identity_registry \<times> (registry_error + unit)" where
  "reg_enable now rg i =
     (case reg_get_mut rg i of None \<Rightarrow> (rg, Inl (IdNotFound i))
      | Some m \<Rightarrow> (reg_put rg i (identity_enable now m), Inr ()))"

definition reg_revoke ::
  "instant \<Rightarrow> identity_registry \<Rightarrow> uuid \<Rightarrow> identity_registry \<times> (registry_error + unit)" where
  "reg_revoke now rg i =
     (case reg_get_mut rg i of None \<Rightarrow> (rg, Inl (IdNotFound i))
      | Some m \<Rightarrow> (reg_put rg i (identity_revoke now m), Inr ()))"

definition reg_len :: "identity_registry \<Rightarrow> nat" where
  "reg_len rg = hm_len (identities rg)"

definition reg_is_empty :: "identity_registry \<Rightarrow> bool" where
  "reg_is_empty rg = (identities rg = [])"

definition reg_list :: "identity_registry \<Rightarrow> machine_identity list" where
  "reg_list rg = hm_values (identities rg)"

section \<open>Status as a machine\<close>

datatype status_command = CmdDisable | CmdEnable | CmdRevoke

definition status_step :: "identity_status \<Rightarrow> status_command \<Rightarrow> identity_status" where
  "status_step s c =
     (case c of CmdDisable \<Rightarrow> if id_is_terminal s then s else IdDisabled
      | CmdEnable \<Rightarrow> if id_is_terminal s then s else IdActive
      | CmdRevoke \<Rightarrow> IdRevoked)"

lemma id_is_terminal_iff [simp]: "id_is_terminal s \<longleftrightarrow> s = IdRevoked"
  by (cases s) (simp_all add: id_is_terminal_def)

lemma id_is_active_iff [simp]: "id_is_active s \<longleftrightarrow> s = IdActive"
  by (cases s) (simp_all add: id_is_active_def)

lemma has_role_iff [simp]: "has_role r m \<longleftrightarrow> r \<in> set (mi_roles m)"
  by (auto simp: has_role_def list_ex_iff)

interpretation identity: terminal_machine status_step id_is_terminal
  by unfold_locales (simp add: status_step_def split: status_command.split)

lemma identity_ops_status:
  "mi_status (identity_disable now m) = status_step (mi_status m) CmdDisable"
  "mi_status (identity_enable now m) = status_step (mi_status m) CmdEnable"
  "mi_status (identity_revoke now m) = status_step (mi_status m) CmdRevoke"
  by (simp_all add: identity_disable_def identity_enable_def identity_revoke_def status_step_def)

lemma identity_ops_frame [simp]:
  "mi_id (identity_disable now m) = mi_id m" "mi_fingerprint (identity_disable now m) = mi_fingerprint m"
  "mi_id (identity_enable now m) = mi_id m" "mi_fingerprint (identity_enable now m) = mi_fingerprint m"
  "mi_id (identity_revoke now m) = mi_id m" "mi_fingerprint (identity_revoke now m) = mi_fingerprint m"
  by (simp_all add: identity_disable_def identity_enable_def identity_revoke_def)

section \<open>The invariant\<close>

abbreviation fp_key :: "machine_identity \<Rightarrow> string option" where
  "fp_key m \<equiv> Some (mi_fingerprint m)"

definition registry_ok :: "identity_registry \<Rightarrow> bool" where
  "registry_ok rg =
     (hm_ok (identities rg) \<and> hm_ok (fingerprints rg) \<and>
      (\<forall>i m. hm_get (identities rg) i = Some m \<longrightarrow> mi_id m = i) \<and>
      index_sound fp_key (identities rg) (fingerprints rg) \<and>
      index_complete fp_key (identities rg) (fingerprints rg))"

lemma registry_ok_new: "registry_ok registry_new"
  by (simp add: registry_ok_def registry_new_def)

lemma registry_ok_put:
  assumes "registry_ok rg" and "hm_get (identities rg) i = Some m"
    and "mi_id m' = mi_id m" and "mi_fingerprint m' = mi_fingerprint m"
  shows "registry_ok (reg_put rg i m')"
  using assms index_sound_update[of fp_key "identities rg" "fingerprints rg" i m m']
    index_complete_update[of fp_key "identities rg" "fingerprints rg" i m m']
  by (auto simp: registry_ok_def reg_put_def split: if_splits)

lemma registry_ok_register:
  assumes "registry_ok rg"
  shows "registry_ok (fst (reg_register rg m))"
proof (cases "hm_contains (identities rg) (mi_id m) \<or> hm_get (fingerprints rg) (mi_fingerprint m) \<noteq> None")
  case True
  then show ?thesis using assms by (auto simp: reg_register_def split: option.split)
next
  case False
  then have n: "hm_get (identities rg) (mi_id m) = None" "hm_get (fingerprints rg) (mi_fingerprint m) = None"
    by (auto simp: hm_contains_def)
  have s: "index_sound fp_key (identities rg) (fingerprints rg)"
    and c: "index_complete fp_key (identities rg) (fingerprints rg)"
    using assms by (auto simp: registry_ok_def)
  from index_sound_insert[OF s n(1), of m "mi_fingerprint m"]
    index_complete_insert[OF c n(2), of m "mi_id m"] n assms
  show ?thesis
    by (auto simp: registry_ok_def reg_register_def Let_def hm_contains_def split: if_splits)
qed

inductive registry_step :: "identity_registry \<Rightarrow> identity_registry \<Rightarrow> bool" where
  rs_register: "registry_step rg (fst (reg_register rg m))"
| rs_disable: "registry_step rg (fst (reg_disable now rg i))"
| rs_enable: "registry_step rg (fst (reg_enable now rg i))"
| rs_revoke: "registry_step rg (fst (reg_revoke now rg i))"
| rs_write: "reg_get_mut rg i = Some m \<Longrightarrow> mi_id m' = mi_id m \<Longrightarrow>
    mi_fingerprint m' = mi_fingerprint m \<Longrightarrow> mi_status m' = identity.run (mi_status m) cs \<Longrightarrow>
    registry_step rg (reg_put rg i m')"

inductive registry_reachable :: "identity_registry \<Rightarrow> bool" where
  rr_new: "registry_reachable registry_new"
| rr_step: "registry_reachable rg \<Longrightarrow> registry_step rg rg' \<Longrightarrow> registry_reachable rg'"

lemma registry_step_ok: "registry_step rg rg' \<Longrightarrow> registry_ok rg \<Longrightarrow> registry_ok rg'"
  by (induction rule: registry_step.induct)
    (auto simp: reg_disable_def reg_enable_def reg_revoke_def reg_get_mut_def
      intro: registry_ok_register registry_ok_put split: option.split)

lemma registry_reachable_ok: "registry_reachable rg \<Longrightarrow> registry_ok rg"
  by (induction rule: registry_reachable.induct) (auto intro: registry_ok_new registry_step_ok)

text \<open>What one step does to a tracked identity: its status moves by the machine.\<close>

lemma registry_step_row:
  assumes "registry_step rg rg'" and "reg_get rg i = Some m"
  shows "\<exists>m' cs. reg_get rg' i = Some m' \<and> mi_fingerprint m' = mi_fingerprint m \<and>
    mi_status m' = identity.run (mi_status m) cs"
  using assms
proof (induction rule: registry_step.induct)
  case (rs_register rg m0)
  then have "reg_get (fst (reg_register rg m0)) i = Some m"
    by (auto simp: reg_register_def reg_get_def Let_def hm_contains_def split: option.split)
  then show ?case by (metis identity.run.simps(1))
next
  case (rs_disable rg now j)
  then show ?case
    by (cases "i = j")
      (force simp: reg_disable_def reg_get_def reg_get_mut_def reg_put_def identity_ops_status
        split: option.split intro: exI[of _ "[CmdDisable]"] exI[of _ "[]"])+
next
  case (rs_enable rg now j)
  then show ?case
    by (cases "i = j")
      (force simp: reg_enable_def reg_get_def reg_get_mut_def reg_put_def identity_ops_status
        split: option.split intro: exI[of _ "[CmdEnable]"] exI[of _ "[]"])+
next
  case (rs_revoke rg now j)
  then show ?case
    by (cases "i = j")
      (force simp: reg_revoke_def reg_get_def reg_get_mut_def reg_put_def identity_ops_status
        split: option.split intro: exI[of _ "[CmdRevoke]"] exI[of _ "[]"])+
next
  case (rs_write rg j m0 m' cs)
  show ?case
  proof (cases "i = j")
    case True
    with rs_write show ?thesis by (auto simp: reg_get_def reg_get_mut_def reg_put_def)
  next
    case False
    with rs_write have "reg_get (reg_put rg j m') i = Some m" by (simp add: reg_get_def reg_put_def)
    then show ?thesis by (metis identity.run.simps(1))
  qed
qed

lemma registry_steps_row:
  assumes "registry_step\<^sup>*\<^sup>* rg rg'" and "reg_get rg i = Some m"
  shows "\<exists>m' cs. reg_get rg' i = Some m' \<and> mi_fingerprint m' = mi_fingerprint m \<and>
    mi_status m' = identity.run (mi_status m) cs"
  using assms
proof (induction rule: rtranclp_induct)
  case base
  then show ?case by (metis identity.run.simps(1))
next
  case (step y z)
  then obtain m' cs where m': "reg_get y i = Some m'" "mi_fingerprint m' = mi_fingerprint m"
    "mi_status m' = identity.run (mi_status m) cs" by blast
  from registry_step_row[OF step(2) m'(1)] m' show ?case by (metis identity.run_append)
qed

lemma registry_okD:
  assumes "registry_ok rg"
  shows "reg_get rg i = Some m \<Longrightarrow> mi_id m = i"
    and "index_sound fp_key (identities rg) (fingerprints rg)"
    and "index_complete fp_key (identities rg) (fingerprints rg)"
  using assms unfolding registry_ok_def reg_get_def by blast+

lemma registry_find_row:
  assumes "registry_ok rg" and "reg_get rg i = Some d"
  shows "reg_find_by_fingerprint rg (mi_fingerprint d) = Some d"
proof -
  have "hm_get (fingerprints rg) (mi_fingerprint d) = Some i"
    using index_completeD[OF registry_okD(3)[OF assms(1)] assms(2)[unfolded reg_get_def]] by simp
  then show ?thesis using assms(2) by (simp add: reg_find_by_fingerprint_def reg_get_def)
qed

lemma registry_find_found:
  assumes "registry_ok rg" and "reg_find_by_fingerprint rg fp = Some m"
  shows "reg_get rg (mi_id m) = Some m \<and> mi_fingerprint m = fp"
proof -
  obtain i where i: "hm_get (fingerprints rg) fp = Some i" "hm_get (identities rg) i = Some m"
    using assms(2) by (auto simp: reg_find_by_fingerprint_def split: option.splits)
  have "mi_fingerprint m = fp"
    using index_soundD[OF registry_okD(2)[OF assms(1)] i(1)] i(2) by simp
  moreover have "mi_id m = i" using registry_okD(1)[OF assms(1)] i(2) by (simp add: reg_get_def)
  ultimately show ?thesis using i(2) by (simp add: reg_get_def)
qed

lemma reg_find_iff:
  assumes "registry_ok rg"
  shows "reg_find_by_fingerprint rg fp = Some m \<longleftrightarrow> reg_get rg (mi_id m) = Some m \<and> mi_fingerprint m = fp"
  using registry_find_row[OF assms] registry_find_found[OF assms] by blast

lemma registry_fp_unique:
  assumes "registry_ok rg" and "reg_get rg i = Some d" and "reg_get rg j = Some d'"
    and "mi_fingerprint d = mi_fingerprint d'"
  shows "i = j"
  using index_key_unique[OF registry_okD(3)[OF assms(1)] assms(2,3)[unfolded reg_get_def] refl]
    assms(4) by simp

lemma reg_authorize_cases:
  "reg_authorize rg fp r =
     (case reg_find_by_fingerprint rg fp of None \<Rightarrow> Inl (FingerprintNotFound fp)
      | Some m \<Rightarrow> if mi_status m = IdActive \<and> r \<in> set (mi_roles m) then Inr m else Inl (NotActive (mi_id m)))"
  by (simp add: reg_authorize_def split: option.split)

section \<open>Properties\<close>

text \<open>
  C38. In every reachable registry \<open>authorize\<close> is exact. It accepts a fingerprint for a role if
  and only if the registry tracks an active identity bound to that fingerprint that has the
  role, and returns that identity; it answers \<open>FingerprintNotFound\<close> exactly when no tracked
  identity is bound to the fingerprint; otherwise \<open>NotActive\<close> with the bound identity's id,
  for a missing role too. No two tracked identities share a fingerprint.
\<close>

theorem authorize_exact:
  assumes "registry_reachable rg"
  shows "(reg_authorize rg fp r = Inr m \<longleftrightarrow>
      reg_get rg (mi_id m) = Some m \<and> mi_fingerprint m = fp \<and> mi_status m = IdActive \<and> r \<in> set (mi_roles m)) \<and>
    (reg_authorize rg fp r = Inl (FingerprintNotFound fp) \<longleftrightarrow>
      (\<nexists>i d. reg_get rg i = Some d \<and> mi_fingerprint d = fp)) \<and>
    (reg_authorize rg fp r = Inl (NotActive i) \<longleftrightarrow>
      (\<exists>d. reg_get rg i = Some d \<and> mi_fingerprint d = fp \<and>
         \<not> (mi_status d = IdActive \<and> r \<in> set (mi_roles d)))) \<and>
    (reg_get rg i = Some d \<and> reg_get rg j = Some d' \<and> mi_fingerprint d = mi_fingerprint d' \<longrightarrow> i = j)"
proof -
  note ok = registry_reachable_ok[OF assms]
  have uniq: "reg_get rg i = Some d \<and> reg_get rg j = Some d' \<and> mi_fingerprint d = mi_fingerprint d' \<longrightarrow> i = j"
    using registry_fp_unique[OF ok] by blast
  show ?thesis
  proof (cases "reg_find_by_fingerprint rg fp")
    case None
    then have n: "\<And>i d. reg_get rg i = Some d \<Longrightarrow> mi_fingerprint d \<noteq> fp"
      using registry_find_row[OF ok] by force
    then show ?thesis using None uniq by (simp add: reg_authorize_cases) blast
  next
    case (Some n)
    then have n: "reg_get rg (mi_id n) = Some n" "mi_fingerprint n = fp"
      using reg_find_iff[OF ok] by blast+
    have u: "\<And>j d. reg_get rg j = Some d \<Longrightarrow> mi_fingerprint d = fp \<Longrightarrow> j = mi_id n \<and> d = n"
      using registry_fp_unique[OF ok] n by (metis option.inject)
    have 1: "reg_authorize rg fp r = Inr m \<longleftrightarrow> m = n \<and> mi_status n = IdActive \<and> r \<in> set (mi_roles n)"
      using Some by (auto simp: reg_authorize_cases)
    have 2: "reg_authorize rg fp r \<noteq> Inl (FingerprintNotFound fp)"
      using Some by (simp add: reg_authorize_cases)
    have 3: "reg_authorize rg fp r = Inl (NotActive i) \<longleftrightarrow>
        i = mi_id n \<and> \<not> (mi_status n = IdActive \<and> r \<in> set (mi_roles n))"
      using Some by (auto simp: reg_authorize_cases)
    show ?thesis unfolding 1 3 using 2 uniq n u by metis
  qed
qed

definition sample_registry :: identity_registry where
  "sample_registry = fst (reg_register registry_new
     (with_role ''issuer'' (identity_new 5 0 ''edge'' Device ''aa'')))"

lemma sample_registry_reachable: "registry_reachable sample_registry"
  unfolding sample_registry_def by (intro rr_step[OF rr_new rs_register])

lemma sample_registry_get:
  "reg_get sample_registry 5 = Some (with_role ''issuer'' (identity_new 5 0 ''edge'' Device ''aa''))"
  by (simp add: sample_registry_def reg_register_def registry_new_def reg_get_def with_role_def
      identity_new_def hm_contains_def Let_def)

theorem authorize_exact_witness:
  "reg_authorize sample_registry ''aa'' ''issuer'' =
     Inr (with_role ''issuer'' (identity_new 5 0 ''edge'' Device ''aa''))"
  using authorize_exact[OF sample_registry_reachable, of "''aa''" "''issuer''"
      "with_role ''issuer'' (identity_new 5 0 ''edge'' Device ''aa'')"] sample_registry_get
  by (simp add: with_role_def identity_new_def)

text \<open>
  C26. A revoked identity is never authorized again. Once an identity is revoked, whatever
  registry operations follow (enabling it included) its fingerprint stays bound to it, so no
  other identity can take the fingerprint over, and \<open>authorize\<close> answers \<open>NotActive\<close> for
  every role.
\<close>

theorem revoked_identity_never_authorized:
  assumes "registry_reachable rg" and "reg_get rg i = Some m"
    and "registry_step\<^sup>*\<^sup>* (fst (reg_revoke now rg i)) rg'"
  shows "reg_authorize rg' (mi_fingerprint m) role = Inl (NotActive i)"
proof -
  let ?rg = "fst (reg_revoke now rg i)"
  have r: "reg_get ?rg i = Some (identity_revoke now m)"
    using assms(2) by (simp add: reg_revoke_def reg_get_def reg_get_mut_def reg_put_def)
  then obtain m' cs where m': "reg_get rg' i = Some m'" "mi_fingerprint m' = mi_fingerprint m"
    "mi_status m' = identity.run IdRevoked cs"
    using registry_steps_row[OF assms(3) r] by (auto simp: identity_revoke_def)
  have st: "mi_status m' = IdRevoked" using identity.run_terminal[of IdRevoked cs] m'(3) by simp
  have "registry_reachable ?rg" by (rule rr_step[OF assms(1) rs_revoke])
  with assms(3) have "registry_reachable rg'"
    by (induction rule: rtranclp_induct) (auto intro: rr_step)
  note ok = registry_reachable_ok[OF this]
  have "mi_id m' = i" using ok m'(1) by (simp add: registry_ok_def reg_get_def)
  then have "reg_find_by_fingerprint rg' (mi_fingerprint m) = Some m'"
    using reg_find_iff[OF ok] m' by simp
  then show ?thesis using st \<open>mi_id m' = i\<close> by (simp add: reg_authorize_def)
qed

theorem revoked_identity_never_authorized_witness:
  "reg_authorize (fst (reg_enable 2 (fst (reg_revoke 1 sample_registry 5)) 5)) ''aa'' ''issuer'' =
     Inl (NotActive 5)"
  using revoked_identity_never_authorized[OF sample_registry_reachable sample_registry_get
      r_into_rtranclp[of registry_step, OF rs_enable]]
  by (simp add: with_role_def identity_new_def)

end
