(* ===== verification/Spec2Isabelle.thy ===== *)
theory Spec2Isabelle
  imports Bootstrap_Client System_Props Http_Answers Race_Lost Race_Restart Unit_Tests Cli Inventory_Index Registry
begin

text \<open>
  A model of the Daemon PKI workspace: the library \<open>daemon-pki-core\<close>, the server and its
  programs \<open>daemon-pki-api\<close>, and the command line \<open>daemon-pki-cli\<close>. The names of the definitions
  are those of the code, with a prefix where a name clashes; paths below are relative to \<open>src/\<close>.

  \<^bold>\<open>How the program works.\<close> A root CA signs an intermediate CA, which signs leaf
  certificates and revocation lists. The server serves HTTP over mutual TLS. A client is known
  by the SHA-256 digest of its certificate; the digests in one environment variable may issue,
  list and revoke. An issued certificate is recorded in a map that is written as one JSON file
  after each change; a revocation marks the record, publishes a new numbered and signed list, and
  installs a TLS configuration with that list, so that the next handshake of the revoked client
  fails. Apart from the server the library keeps certificate metadata, a lifecycle with renewal,
  an identity registry and a chain validator, which the server does not call; the command line
  runs the chain validator once over a hierarchy it has just made.

  \<^bold>\<open>Foundations.\<close> \<open>Prelude\<close>: results as sums with \<open>and_then\<close>, \<open>map_err\<close>, \<open>ok_or\<close> (the \<open>?\<close> of
  the code), instants (nanoseconds as \<open>int\<close>), bytes as \<open>8 word\<close>, the collections
  \<open>result_simps\<close> and \<open>step_defs\<close>. \<open>Hash_Map\<close>: \<open>HashMap\<close> as an association list; iteration order
  is the list's, and \<open>hm_rehash\<close> permits any other. \<open>Rust_Str\<close>: \<open>String\<close> as its UTF-8 bytes
  with \<open>trim\<close>, case folding, splitting, decimal and hexadecimal text. \<open>Ip_Addr\<close>: \<open>IpAddr\<close> and
  its parser. \<open>File_System\<close>: files with a plan of faults (a call fails, or a write is torn).
  Theorems quantify over the plan, hence over every failure at every call.

  \<^bold>\<open>The core.\<close>
  \<^item> \<open>Metadata\<close>, \<open>Lifecycle\<close>, \<open>Renewal\<close> (\<open>certificate/metadata.rs\<close>, \<open>certificate/lifecycle.rs\<close>): the
    record of a certificate, its six states and the transition table, evaluation against the
    clock, the renewal queue and its executor. Terminal states are permanent; the queue offers
    only items its executor refuses.
  \<^item> \<open>Inventory\<close> with \<open>Inventory_Inv\<close>, \<open>Inventory_Props\<close>, \<open>Inventory_Eval\<close>, \<open>Inventory_Index\<close>
    (\<open>certificate/inventory.rs\<close>): the map of certificates and its two indexes; the invariant of every
    reachable inventory, the refinement of a plain map, lookups, the sweep over all records.
  \<^item> \<open>Rcgen\<close>, \<open>Issuer\<close> (\<open>certificate/issuance.rs\<close>, \<open>ca/root.rs\<close>): requests, the parameters handed to the
    certificate library, both authorities and their reloading from PEM.
  \<^item> \<open>Registry\<close> (\<open>identity/registry.rs\<close>): identities, their states, the fingerprint index.
  \<^item> \<open>Trust\<close>, \<open>Chain\<close> (\<open>validation/\<close>): anchors and the two validators.
  \<^item> \<open>Revocation\<close> (\<open>revocation/\<close>): records, the list, its hexadecimal decoder and signed form.

  \<^bold>\<open>The server.\<close>
  \<^item> \<open>Audit_Log\<close> (\<open>audit/mod.rs\<close>), \<open>Cert_Store\<close> (\<open>certificates.rs\<close>), \<open>Crl_Manager\<close> (\<open>crl.rs\<close>),
    \<open>Issuance_Service\<close> and \<open>Issuance_Props\<close> (\<open>issuance.rs\<close>), \<open>Tls\<close> (\<open>tls/\<close>): one state each, passed
    explicitly with the file system. What an operation changed before it failed stays changed, as in the code.
  \<^item> \<open>Http_Api\<close>, \<open>Http_Props\<close>, \<open>Http_Answers\<close> (\<open>http.rs\<close>): authorization, routing, the handlers, the bytes
    of an answer. \<open>Serve\<close>: the accept loops of \<open>http.rs\<close> and \<open>tls/service.rs\<close>.
  \<^item> \<open>Server_Boot\<close>, \<open>Boot_Props\<close> (\<open>bin/server.rs\<close>) and \<open>Bootstrap_Client\<close> (\<open>bin/bootstrap-client.rs\<close>):
    the PEM files that are loaded or created, \<open>main\<close> up to the accept loop, and the program that
    makes the first client.
  \<^item> \<open>Serve_Disk\<close>, \<open>Restart\<close>, \<open>System\<close>, \<open>System_Props\<close>: the server over its whole life. What serving does
    to the files whatever fails; a start on what an earlier one has left; runs of the program one
    after the other (\<open>run_lifetimes\<close>), each with its own keys, variables, faults and connections. A
    crash is a plan whose later calls all fail. What was answered 200 or 201 outlives them all.
  \<^item> \<open>Interleaving\<close>, \<open>Concurrency\<close>, \<open>Race_Props\<close>, \<open>Race_Lost\<close>, \<open>Race_Disk\<close>, \<open>Race_Restart\<close>: requests
    served at the same time, from the bytes that were read to the answer. \<open>handle_connection\<close> and the
    handlers of issue and revoke are cut at each call of the file system and each critical section;
    a scheduler picks any request, and the store's lock is respected. A request alone is
    \<open>handle_connection\<close>; every schedule ends; answers, lists and, without torn writes, the file stay
    sound, so that what was answered outlives a stop at any moment of any schedule. But nothing
    orders the refreshes, and the temporary file is shared: both races are proved possible.
  \<^item> \<open>Cli\<close> (\<open>daemon-pki-cli/src/main.rs\<close>): the whole run, and that every chain the issuer makes passes
    the chain validator, with the request's names and usages read back from the certificate.

  \<^bold>\<open>Validation.\<close> \<open>Unit_Tests\<close> has the inline tests of the server crate, translated over the model: each
  passes, for every clock reading, UUID and key.

  This theory has the property that spans issue, revocation and publication.

  \<^bold>\<open>Code outside the repository\<close> is an argument: \<open>rcgen\<close> (record \<open>rcgen\<close>), the X.509 readers
  (\<open>x509\<close>, \<open>x509_details\<close>, \<open>der_reader\<close>, \<open>client_reader\<close>), \<open>serde_json\<close> (\<open>serde\<close> and the body readers of
  \<open>http_env\<close>), \<open>rustls\<close>, the HTTP request parser, SHA-256 and the TLS handshake. Nothing is
  assumed of them unless a theorem names it: \<open>pem_faithful\<close> and \<open>pem_utf8\<close> (PEM reads back),
  \<open>serde_round_trips\<close>, \<open>reads_back\<close> (the parser reads what the library writes), \<open>honours_crl\<close> (a
  handshake under a configuration with a list that names the client fails) or \<open>honours_lists\<close> (the
  same in every run of the server), \<open>serde_faithful\<close> (any map that was written reads back),
  \<open>reads_ascii\<close> (what is read from a store's file has ASCII serial numbers), \<open>crates_work\<close> (no crate
  returns an error). Each has an instance with which the theorem's witness is proved.

  \<^bold>\<open>Interfaces.\<close> Locales state what one component relies on in another, and each is interpreted
  on the model's own definitions: the atomic replacement of a file (\<open>File_System\<close>), the
  append-only log (\<open>Audit_Log\<close>), the laws of a map (\<open>Hash_Map\<close>), machines with terminal states
  (\<open>Lifecycle\<close>, for certificates and in \<open>Registry\<close> for identities), and requests under a scheduler (\<open>Interleaving\<close>, interpreted in \<open>Concurrency\<close>).

  \<^bold>\<open>Bounds.\<close> Words are kept where the code has fixed width: bytes, the 64-bit list number with
  \<open>checked_add\<close>, IP addresses and UUIDs. There is no fuel: loops are structural or have a measure.
  A request of the concurrent model has at most twelve steps (\<open>rq_rank\<close>), so twelve steps run
  one alone to its end (\<open>solo_end\<close>). Panics are the value \<open>Panic\<close>: the only one is the slicing of a
  serial number that is not ASCII, which issuing never stores.

  \<^bold>\<open>What the model showed.\<close> Revoking does what it says, one request at a time: an answer 200 means
  that the client is locked out for good, restarts included. The exceptions proved here: two
  revocations can overtake each other (\<open>revocation_can_be_lost\<close>); a torn write can become the
  store's file through another request (\<open>torn_write_is_installed\<close>); an I/O error of \<open>Path::exists\<close>
  is taken for absence, so an existing root, store or list number is replaced; a start that is
  interrupted between certificate and key blocks every later start; the bootstrap client is
  in no store and cannot be revoked; queued renewals are always refused; one expired and revoked
  record stops every sweep; a duplicate fingerprint is accepted and shadows; the validators and the
  lifecycle disagree at the last instant of a certificate. The issued private key is dropped.

  \<^bold>\<open>Not modelled.\<close> Printing and logging; sockets beyond the one read of a request and the one
  answer; another request inside one call of the file system (a torn write is one step); the
  poisoning of a lock; \<open>CertificateStore\<close> on a file that another process writes; the derived
  \<open>Serialize\<close> and \<open>Deserialize\<close> instances; lengths above \<open>usize\<close> and instants outside the range of
  \<open>OffsetDateTime\<close>; Windows paths. The modules for policy, key and CSR handling, SPIFFE, devices, humans,
  services and the agent are empty files or constants in this revision.
\<close>

section \<open>From issue to revocation list\<close>

text \<open>
  C8. A revoked certificate reaches the published list under its own serial number. If a
  certificate is issued, then revoked under the id of its record, and then a revocation list is
  published from that store, the list the CA signed contains the bytes of the certificate's
  serial number, as the certificate itself has them, with the reason and the instant of the
  revocation. (Serial numbers have at least one byte.)
\<close>

theorem issued_then_revoked_is_published:
  assumes "service_issue rc dr sd pol fr p ca rq st = (st', Inr (resp, ev))"
    and "\<forall>c. dr_serial_to_bytes_be dr c \<noteq> []"
    and "store_revoke sd now (if_record_id fr) reason (sv_store st') (sv_fs st') = ((s2, w2), q)"
    and "generate_and_persist signer iss dir new_id now2 t s2 w2 = Done (w3, Inr der)"
  shows "\<exists>(crt :: rcgen_certificate) parsed ps v. resp_certificate_pem resp = crt_pem crt \<and> dr_from_der dr (crt_der crt) = Inr parsed \<and>
    signer ps iss = Inr der \<and> v \<in> set (lp_revoked_certs ps) \<and>
    rv_serial_number v = SerialBytes (dr_serial_to_bytes_be dr parsed) \<and>
    rv_reason_code v = Some (map_reason (parse_reason reason)) \<and> rv_revocation_time v = now"
proof -
  obtain crt :: rcgen_certificate and parsed r where pem: "resp_certificate_pem resp = crt_pem crt"
    and der: "dr_from_der dr (crt_der crt) = Inr parsed"
    and r: "store_get (sv_store st') (if_record_id fr) = Some r" "\<not> cr_revoked r"
    and sn: "cr_serial_number r = hex_of_bytes (dr_serial_to_bytes_be dr parsed)"
    using issue_ok_record[OF assms(1)] by blast
  let ?bs = "dr_serial_to_bytes_be dr parsed"
  let ?e = "\<lparr>ce_serial_number = hex_of_bytes ?bs, ce_reason = parse_reason reason, ce_revoked_at = now\<rparr>"
  have "fst (fst (store_revoke sd now (if_record_id fr) reason (sv_store st') (sv_fs st'))) = s2"
    using assms(3) by simp
  then have "store_get s2 (if_record_id fr) = Some (revoked_by now reason r)"
    using r by (auto simp: revoke_store) (simp add: store_get_def)
  then have "revoked_by now reason r \<in> set (store_list s2)"
    by (auto simp: store_get_def intro: hm_values_get)
  then have "entry_of now2 (revoked_by now reason r) \<in> entry_of now2 ` {x \<in> set (store_list s2). cr_revoked x}"
    by (intro imageI) simp
  moreover have "entry_of now2 (revoked_by now reason r) = ?e"
    using r sn by (simp add: entry_of_def revoked_by_def)
  ultimately have mem: "?e \<in> set (crl_entries (crl_for_store new_id now2 t s2))"
    by (simp add: crl_for_store_entries)
  obtain n ps where ps: "revoked_params (crl_entries (crl_for_store new_id now2 t s2)) = Done (Inr (lp_revoked_certs ps))"
    and sg: "signer ps iss = Inr der"
    using generate_signs[OF assms(4)] by blast
  have "revoked_param ?e ?bs \<in> set (lp_revoked_certs ps)"
    using revoked_params_member[OF ps mem] hex_round_trip assms(2) by simp
  then show ?thesis using pem der sg
    by - (intro exI[of _ crt] exI[of _ parsed] exI[of _ ps] exI[of _ "revoked_param ?e ?bs"],
      simp add: revoked_param_def)
qed

theorem issued_then_revoked_is_published_witness:
  "\<exists>(crt :: rcgen_certificate) (ps :: crl_params) v. crt_pem (sample_crt [7, 3]) = crt_pem crt \<and> v \<in> set (lp_revoked_certs ps) \<and>
     rv_serial_number v = SerialBytes (1 # crt_der crt) \<and> rv_reason_code v = Some RcSuperseded"
proof -
  obtain w' where i: "service_issue sample_rcgen sample_reader sample_run_serde policy_default sample_fresh sample_principal
       sample_ca sample_request sample_state =
     (with_event sample_fresh sample_principal sample_request CertificateIssued Success None
        (sample_state\<lparr>sv_store := \<lparr>st_path = [''c''], st_records = [(22, sample_issued)]\<rparr>, sv_fs := w'\<rparr>),
      Inr (issued_response sample_request (crt_pem (sample_crt [7, 3])),
        \<lparr>ia_event_id = 23, ia_principal_id = 7, ia_principal_name = ''edge'', ia_common_name = ''api'',
         ia_success = True, ia_reason = None\<rparr>))" and w': "fs_faults w' = []" "file_at w' [''d'', ''crl-number''] = None"
    using sample_issue by blast
  obtain s2 w2 where r: "store_revoke sample_run_serde 60 22 ''superseded''
     \<lparr>st_path = [''c''], st_records = [(22, sample_issued)]\<rparr> w' =
       ((s2, w2), Inr (Some (revoked_by 60 ''superseded'' sample_issued)))"
    and s2: "st_records s2 = [(22, revoked_by 60 ''superseded'' sample_issued)]" "fs_faults w2 = []"
      "file_at w2 [''d'', ''crl-number''] = None"
    using sample_revoke[OF w'(1)] w'(2) by auto
  obtain w3 where g: "generate_and_persist (\<lambda>ps i. Inr [9]) (3::nat) [''d''] 30 70 71 s2 w2 = Done (w3, Inr [9])"
    using sample_publish[OF s2] by blast
  have sn: "\<forall>c. dr_serial_to_bytes_be sample_reader c \<noteq> []" by (simp add: sample_reader_def)
  let ?st = "with_event sample_fresh sample_principal sample_request CertificateIssued Success None
        (sample_state\<lparr>sv_store := \<lparr>st_path = [''c''], st_records = [(22, sample_issued)]\<rparr>, sv_fs := w'\<rparr>)"
  have r': "store_revoke sample_run_serde 60 (if_record_id sample_fresh) ''superseded'' (sv_store ?st) (sv_fs ?st) =
      ((s2, w2), Inr (Some (revoked_by 60 ''superseded'' sample_issued)))"
    using r by (simp add: sample_fresh_def)
  have "map_reason (parse_reason ''superseded'') = RcSuperseded" by code_simp
  then show ?thesis
    using issued_then_revoked_is_published[OF i sn r' g]
    by (simp add: sample_reader_def issued_response_def) blast
qed

end
